(* ===== verification/Prelude.thy ===== *)
theory Prelude
  imports Main "HOL-Library.Word"
begin

text \<open>
  Shared vocabulary of the development: Go errors, the outcome of a Go call that can
  return an error, panic or never return, loops whose termination is not evident from
  their text, and the collections of rewrite rules the component theories fill.
\<close>

section \<open>Automation\<close>

named_theorems field_frame \<open>operations that leave a field of a record unchanged\<close>
named_theorems civil_same \<open>calendar fields that agree on a stretch of local seconds\<close>
named_theorems outcome_eqs \<open>when a composed call returns, fails, panics or hangs\<close>

section \<open>Errors\<close>

text \<open>
  \<open>GoErr\<close> is \<^verbatim>\<open>errors.New\<close>, \<open>WrapErr\<close> is \<^verbatim>\<open>errors.Wrap\<close> of github.com/pkg/errors on a
  non-nil error, \<open>WithEvent\<close> is \<^verbatim>\<open>ErrorWithEvent\<close> of pkg/events.
\<close>

datatype go_error = GoErr string | WrapErr go_error string | WithEvent go_error string

primrec error_message :: "go_error \<Rightarrow> string" where
  "error_message (GoErr m) = m"
| "error_message (WrapErr e m) = m @ '': '' @ error_message e"
| "error_message (WithEvent e ev) = error_message e"

text \<open>\<^verbatim>\<open>errors.As\<close> with an \<^verbatim>\<open>*ErrorWithEvent\<close> target: the outermost tag on the chain.\<close>

primrec error_event :: "go_error \<Rightarrow> string option" where
  "error_event (GoErr m) = None"
| "error_event (WrapErr e m) = error_event e"
| "error_event (WithEvent e ev) = Some ev"

section \<open>Outcomes of a call\<close>

text \<open>
  A Go function of type \<^verbatim>\<open>(T, error)\<close> returns a value (\<open>Ok\<close>) or an error (\<open>Err\<close>), or it
  panics (\<open>Panic\<close>: a nil pointer is dereferenced), or it never returns (\<open>Hang\<close>).
\<close>

datatype 'a outcome = Ok 'a | Err go_error | Panic | Hang

primrec obind :: "'a outcome \<Rightarrow> ('a \<Rightarrow> 'b outcome) \<Rightarrow> 'b outcome" where
  "obind (Ok x) f = f x"
| "obind (Err e) f = Err e"
| "obind Panic f = Panic"
| "obind Hang f = Hang"

text \<open>Returning \<^verbatim>\<open>errors.Wrap(err, m)\<close> instead of the error itself.\<close>

primrec wrap_err :: "string \<Rightarrow> 'a outcome \<Rightarrow> 'a outcome" where
  "wrap_err m (Ok x) = Ok x"
| "wrap_err m (Err e) = Err (WrapErr e m)"
| "wrap_err m Panic = Panic"
| "wrap_err m Hang = Hang"

text \<open>\<^verbatim>\<open>events.WrapError(err, event, m)\<close>: wrap the error and tag it with an event.\<close>

primrec wrap_event :: "string \<Rightarrow> string \<Rightarrow> 'a outcome \<Rightarrow> 'a outcome" where
  "wrap_event ev m (Ok x) = Ok x"
| "wrap_event ev m (Err e) = Err (WithEvent (WrapErr e m) ev)"
| "wrap_event ev m Panic = Panic"
| "wrap_event ev m Hang = Hang"

lemma obind_eq_Ok [outcome_eqs]:
  "obind r f = Ok y \<longleftrightarrow> (\<exists>x. r = Ok x \<and> f x = Ok y)"
  by (cases r) auto

lemma obind_eq_Err [outcome_eqs]:
  "obind r f = Err e \<longleftrightarrow> r = Err e \<or> (\<exists>x. r = Ok x \<and> f x = Err e)"
  by (cases r) auto

lemma obind_eq_Panic [outcome_eqs]:
  "obind r f = Panic \<longleftrightarrow> r = Panic \<or> (\<exists>x. r = Ok x \<and> f x = Panic)"
  by (cases r) auto

lemma obind_eq_Hang [outcome_eqs]:
  "obind r f = Hang \<longleftrightarrow> r = Hang \<or> (\<exists>x. r = Ok x \<and> f x = Hang)"
  by (cases r) auto

lemma wrap_err_eqs [outcome_eqs]:
  "wrap_err m r = Ok x \<longleftrightarrow> r = Ok x"
  "wrap_err m r = Err e \<longleftrightarrow> (\<exists>e'. r = Err e' \<and> e = WrapErr e' m)"
  "wrap_err m r = Panic \<longleftrightarrow> r = Panic"
  "wrap_err m r = Hang \<longleftrightarrow> r = Hang"
  by (cases r; auto)+

lemma wrap_event_eqs [outcome_eqs]:
  "wrap_event ev m r = Ok x \<longleftrightarrow> r = Ok x"
  "wrap_event ev m r = Err e \<longleftrightarrow> (\<exists>e'. r = Err e' \<and> e = WithEvent (WrapErr e' m) ev)"
  "wrap_event ev m r = Panic \<longleftrightarrow> r = Panic"
  "wrap_event ev m r = Hang \<longleftrightarrow> r = Hang"
  by (cases r; auto)+

section \<open>Loops that may not end\<close>

text \<open>
  A loop is a step function on its state (\<open>Inl\<close>: the loop is left with a result, \<open>Inr\<close>:
  the next state). \<open>tail_loop\<close> is the contract between such a step and the function that
  runs it to the end; \<open>None\<close> is a run that never ends.
\<close>

fun iterate :: "('s \<Rightarrow> 'r + 's) \<Rightarrow> nat \<Rightarrow> 's \<Rightarrow> 'r + 's" where
  "iterate step 0 s = Inr s"
| "iterate step (Suc n) s = (case step s of Inl r \<Rightarrow> Inl r | Inr s' \<Rightarrow> iterate step n s')"

locale tail_loop =
  fixes step :: "'s \<Rightarrow> 'r + 's"
    and run :: "'s \<Rightarrow> 'r option"
  assumes run_unfold: "run s = (case step s of Inl r \<Rightarrow> Some r | Inr s' \<Rightarrow> run s')"
    and run_finite: "run s = Some r \<Longrightarrow> \<exists>n. iterate step n s = Inl r"
begin

lemma run_iterate: "iterate step n s = Inr s' \<Longrightarrow> run s = run s'"
proof (induction n arbitrary: s)
  case 0
  then show ?case by simp
next
  case (Suc n)
  then obtain u where "step s = Inr u" "iterate step n u = Inr s'"
    by (auto split: sum.splits)
  with Suc.IH show ?case by (simp add: run_unfold [of s])
qed

lemma run_iterate_Inl: "iterate step n s = Inl r \<Longrightarrow> run s = Some r"
proof (induction n arbitrary: s)
  case 0
  then show ?case by simp
next
  case (Suc n)
  then show ?case by (auto simp: run_unfold [of s] split: sum.splits)
qed

lemma run_total:
  assumes "wf R" and "I s"
    and step: "\<And>s. I s \<Longrightarrow> (\<exists>r. step s = Inl r \<and> Q r) \<or> (\<exists>s'. step s = Inr s' \<and> I s' \<and> (s', s) \<in> R)"
  shows "\<exists>r. run s = Some r \<and> Q r"
  using assms(1,2)
proof (induction s rule: wf_induct_rule)
  case (less s)
  from step [OF less.prems] show ?case
  proof (elim disjE exE conjE)
    fix r assume "step s = Inl r" "Q r"
    then show ?thesis by (simp add: run_unfold [of s])
  next
    fix s' assume s': "step s = Inr s'" "I s'" "(s', s) \<in> R"
    with less.IH show ?thesis by (simp add: run_unfold [of s])
  qed
qed

lemma run_stuck:
  assumes "C s" and step: "\<And>s. C s \<Longrightarrow> \<exists>s'. step s = Inr s' \<and> C s'"
  shows "run s = None"
proof (rule ccontr)
  assume "run s \<noteq> None"
  then obtain r where "run s = Some r" by auto
  then obtain n where "iterate step n s = Inl r" using run_finite by blast
  moreover have "iterate step n s \<noteq> Inl r" using \<open>C s\<close>
  proof (induction n arbitrary: s)
    case 0
    then show ?case by simp
  next
    case (Suc n)
    from step [OF Suc.prems] obtain s' where "step s = Inr s'" "C s'" by blast
    with Suc.IH show ?case by simp
  qed
  ultimately show False by simp
qed

end

section \<open>Integer division\<close>

lemma int_div_eqI: "x = q * k + r \<Longrightarrow> 0 \<le> r \<Longrightarrow> r < k \<Longrightarrow> x div k = (q::int)"
  by (simp add: div_pos_pos_trivial)

lemma int_mod_eqI: "x = q * k + r \<Longrightarrow> 0 \<le> r \<Longrightarrow> r < k \<Longrightarrow> x mod k = (r::int)"
  by (simp add: mod_pos_pos_trivial)

lemma int_div_bounds:
  assumes "0 < (k::int)"
  obtains r where "x = k * (x div k) + r" "0 \<le> r" "r < k"
  using that [of "x mod k"] assms by simp

end
