(* ===== verification/Calendar.thy ===== *)
theory Calendar
  imports Prelude
begin

text \<open>
  The proleptic Gregorian calendar of Go's package \<^verbatim>\<open>time\<close>: \<open>abs_year\<close> and \<open>month_day\<close>
  follow \<^verbatim>\<open>absDate\<close> (400, 100, 4 and 1 year cycles; a month estimated from 31-day months and
  corrected), \<open>date_days\<close> the day count of \<^verbatim>\<open>Date\<close>. Days are counted from 1 January of year
  1, seconds from its midnight, both unbounded in either direction; \<open>l_year\<close> to
  \<open>l_second\<close> read the fields of a count of local seconds. The lemmas say that each field
  is constant between the start of its unit and the instant (\<open>same_month\<close>, \<open>same_day\<close>,
  \<open>same_hour\<close>, \<open>same_minute\<close>), and what the fields are one second before that start
  (\<open>before_month\<close> and so on), which is what a backward search over the fields relies on.
\<close>

section \<open>Years\<close>

definition is_leap :: "int \<Rightarrow> bool" where
  "is_leap y \<longleftrightarrow> y mod 4 = 0 \<and> (y mod 100 \<noteq> 0 \<or> y mod 400 = 0)"

definition days_before_year :: "int \<Rightarrow> int" where
  "days_before_year y = 365 * (y - 1) + (y - 1) div 4 - (y - 1) div 100 + (y - 1) div 400"

definition year_len :: "int \<Rightarrow> int" where
  "year_len y = (if is_leap y then 366 else 365)"

definition abs_year :: "int \<Rightarrow> int \<times> int" where
  "abs_year d0 =
     (let n400 = d0 div 146097; d1 = d0 - 146097 * n400;
          n100 = d1 div 36524 - (d1 div 36524) div 4; d2 = d1 - 36524 * n100;
          n4 = d2 div 1461; d3 = d2 - 1461 * n4;
          n1 = d3 div 365 - (d3 div 365) div 4; d4 = d3 - 365 * n1
      in (400 * n400 + 100 * n100 + 4 * n4 + n1 + 1, d4))"


lemma int_div_Suc:
  assumes "1 < (k::int)"
  shows "(z + 1) div k = z div k + (if (z + 1) mod k = 0 then 1 else 0)"
proof -
  have "0 < k" using assms by simp
  then obtain r where r: "z = k * (z div k) + r" "0 \<le> r" "r < k"
    by (rule int_div_bounds)
  show ?thesis
  proof (cases "r = k - 1")
    case True
    then have z: "z + 1 = k * (z div k + 1)" using r(1) by (simp add: algebra_simps)
    then have "(z + 1) mod k = 0" by (metis mod_mult_self1_is_0)
    moreover have "(z + 1) div k = z div k + 1"
      using z assms by (metis nonzero_mult_div_cancel_left not_one_less_zero order_less_irrefl)
    ultimately show ?thesis by simp
  next
    case False
    then have z: "z + 1 = (z div k) * k + (r + 1)" "0 \<le> r + 1" "r + 1 < k"
      using r by (simp_all add: algebra_simps)
    from int_mod_eqI [OF z] have "(z + 1) mod k = r + 1" .
    moreover from int_div_eqI [OF z] have "(z + 1) div k = z div k" .
    ultimately show ?thesis using r(2) by simp
  qed
qed

lemma mod_0_400_100_4:
  "(y::int) mod 400 = 0 \<Longrightarrow> y mod 100 = 0" "(y::int) mod 100 = 0 \<Longrightarrow> y mod 4 = 0"
  using mod_mod_cancel [of 100 400 y] mod_mod_cancel [of 4 100 y] by simp_all

lemma leap_count:
  assumes "r \<longrightarrow> q" "q \<longrightarrow> p"
  shows "(365::int) + (if p then 1 else 0) - (if q then 1 else 0) + (if r then 1 else 0)
     = (if p \<and> (\<not> q \<or> r) then 366 else 365)"
  using assms by (cases p; cases q; cases r) simp_all

lemma days_before_year_Suc: "days_before_year (y + 1) = days_before_year y + year_len y"
proof -
  have 4: "y div 4 = (y - 1) div 4 + (if y mod 4 = 0 then 1 else 0)"
    using int_div_Suc [of 4 "y - 1"] by simp
  have 100: "y div 100 = (y - 1) div 100 + (if y mod 100 = 0 then 1 else 0)"
    using int_div_Suc [of 100 "y - 1"] by simp
  have 400: "y div 400 = (y - 1) div 400 + (if y mod 400 = 0 then 1 else 0)"
    using int_div_Suc [of 400 "y - 1"] by simp
  have "days_before_year (y + 1) - days_before_year y
      = 365 + (y div 4 - (y - 1) div 4) - (y div 100 - (y - 1) div 100)
        + (y div 400 - (y - 1) div 400)"
    by (simp add: days_before_year_def)
  also have "\<dots> = 365 + (if y mod 4 = 0 then 1 else 0) - (if y mod 100 = 0 then 1 else 0)
        + (if y mod 400 = 0 then 1 else 0)"
    by (simp only: 4 100 400 add_diff_cancel_left')
  also have "\<dots> = year_len y"
    unfolding year_len_def is_leap_def
    by (rule leap_count) (rule impI, erule mod_0_400_100_4)+
  finally show ?thesis by simp
qed

lemma year_divs:
  assumes "0 \<le> b" "b \<le> 3" "0 \<le> c" "c \<le> 24" "0 \<le> e" "e \<le> (3::int)"
  shows "(400 * a + 100 * b + 4 * c + e) div 4 = 100 * a + 25 * b + c"
    and "(400 * a + 100 * b + 4 * c + e) div 100 = 4 * a + b"
    and "(400 * a + 100 * b + 4 * c + e) div 400 = a"
  by (rule int_div_eqI [of _ _ _ "e"] int_div_eqI [of _ _ _ "4 * c + e"]
      int_div_eqI [of _ _ _ "100 * b + 4 * c + e"]; use assms in simp)+

lemma days_before_year_cycles:
  assumes "0 \<le> b" "b \<le> 3" "0 \<le> c" "c \<le> 24" "0 \<le> e" "e \<le> 3"
  shows "days_before_year (400 * a + 100 * b + 4 * c + e + 1)
    = 146097 * a + 36524 * b + 1461 * c + 365 * e"
  by (simp add: days_before_year_def year_divs [OF assms])

lemma year_len_ge: "365 \<le> year_len y" and year_len_le: "year_len y \<le> 366"
  by (simp_all add: year_len_def)

lemma year_len_cycles:
  assumes "0 \<le> b" "b \<le> 3" "0 \<le> c" "c \<le> 24" "e = 3" "b < 3 \<longrightarrow> c < 24"
  shows "year_len (400 * a + 100 * b + 4 * c + e + 1) = 366"
proof -
  let ?y = "400 * a + 100 * b + 4 * c + e + 1"
  have 4: "?y mod 4 = 0"
    using assms by (intro int_mod_eqI [of _ "100 * a + 25 * b + c + 1"]) auto
  show ?thesis
  proof (cases "c = 24")
    case True
    then have "?y mod 400 = 0" using assms by (intro int_mod_eqI [of _ "a + 1"]) auto
    with 4 show ?thesis by (simp add: year_len_def is_leap_def)
  next
    case False
    then have "?y mod 100 = 4 * c + e + 1"
      using assms by (intro int_mod_eqI [of _ "4 * a + b"]) auto
    with 4 assms show ?thesis by (simp add: year_len_def is_leap_def)
  qed
qed

lemma quotient_cap:
  assumes "0 \<le> (x::int)" "x \<le> 4 * k" "0 < k"
  defines "n \<equiv> x div k - (x div k) div 4"
  shows "0 \<le> n" "n \<le> 3" "0 \<le> x - k * n" "x - k * n \<le> k" "n < 3 \<Longrightarrow> x - k * n < k"
    "x - k * n = k \<Longrightarrow> x = 4 * k"
proof -
  obtain r where r: "x = k * (x div k) + r" "0 \<le> r" "r < k"
    using assms(3) by (rule int_div_bounds)
  have q0: "0 \<le> x div k" using assms by (simp add: pos_imp_zdiv_nonneg_iff)
  have "x div k \<le> (4 * k) div k" using assms by (intro zdiv_mono1) auto
  then have q4: "x div k \<le> 4" using assms by simp
  consider "x div k \<le> 3" | "x div k = 4" using q4 by linarith
  then have "0 \<le> n \<and> n \<le> 3 \<and> 0 \<le> x - k * n \<and> x - k * n \<le> k \<and> (n < 3 \<longrightarrow> x - k * n < k)
    \<and> (x - k * n = k \<longrightarrow> x = 4 * k)"
  proof cases
    case 1
    then have "n = x div k" using q0 by (simp add: n_def div_pos_pos_trivial)
    then have "0 \<le> n" "n \<le> 3" "x - k * n = r" using q0 1 r(1) by auto
    then show ?thesis using r(2,3) by auto
  next
    case 2
    then have n: "n = 3" by (simp add: n_def)
    have "x = 4 * k + r" using r(1) 2 by (simp add: algebra_simps)
    then have "x = 4 * k" using assms(2) r(2) by linarith
    then show ?thesis using n assms(3) by simp
  qed
  then show "0 \<le> n" "n \<le> 3" "0 \<le> x - k * n" "x - k * n \<le> k" "n < 3 \<Longrightarrow> x - k * n < k"
    "x - k * n = k \<Longrightarrow> x = 4 * k" by auto
qed

lemma abs_year_correct:
  assumes "abs_year d = (y, yd)"
  shows "d = days_before_year y + yd \<and> 0 \<le> yd \<and> yd < year_len y"
proof -
  define a where "a = d div 146097"
  define d1 where "d1 = d - 146097 * a"
  define b where "b = d1 div 36524 - (d1 div 36524) div 4"
  define d2 where "d2 = d1 - 36524 * b"
  define c where "c = d2 div 1461"
  define d3 where "d3 = d2 - 1461 * c"
  define e where "e = d3 div 365 - (d3 div 365) div 4"
  obtain r where "d = 146097 * a + r" "0 \<le> r" "r < 146097"
    using int_div_bounds [of 146097 d] a_def by auto
  then have d1: "0 \<le> d1" "d1 \<le> 146096" by (simp_all add: d1_def)
  note b = quotient_cap [of d1 36524, folded b_def d2_def, simplified, OF d1]
  obtain r where "d2 = 1461 * c + r" "0 \<le> r" "r < 1461"
    using int_div_bounds [of 1461 d2] c_def by auto
  then have c: "0 \<le> c" "c \<le> 24" and d3: "0 \<le> d3" "d3 \<le> 1460" "b < 3 \<and> c = 24 \<longrightarrow> d3 < 1460"
    using b by (auto simp: d3_def)
  note e = quotient_cap [of d3 365, folded e_def, simplified, OF d3(1,2)]
  have "abs_year d = (400 * a + 100 * b + 4 * c + e + 1, d3 - 365 * e)"
    by (simp only: abs_year_def Let_def a_def d1_def b_def d2_def c_def d3_def e_def)
  then have y: "y = 400 * a + 100 * b + 4 * c + e + 1" and yd: "yd = d3 - 365 * e"
    using assms by simp_all
  have "yd < year_len y"
  proof (cases "yd = 365")
    case True
    then have "d3 = 1460" "e = 3" using e yd by force+
    with d3 c b show ?thesis
      unfolding y using year_len_cycles [of b c e a] True by (auto simp: y)
  next
    case False
    then show ?thesis using e yd year_len_ge [of y] by linarith
  qed
  moreover have "d = days_before_year y + yd"
    unfolding y yd using days_before_year_cycles [of b c e a] b c e d1_def d2_def d3_def by simp
  ultimately show ?thesis using e yd by simp
qed

lemma days_before_year_mono: "y \<le> z \<Longrightarrow> days_before_year y \<le> days_before_year z"
proof (induction z rule: int_ge_induct)
  case base
  show ?case by simp
next
  case (step z)
  then show ?case using days_before_year_Suc [of z] year_len_ge [of z] by simp
qed

lemma abs_year_unique:
  assumes "days_before_year y \<le> d" "d < days_before_year (y + 1)"
  shows "abs_year d = (y, d - days_before_year y)"
proof -
  obtain y' yd where yy: "abs_year d = (y', yd)" by (cases "abs_year d")
  note c = abs_year_correct [OF yy]
  have lt: "d < days_before_year (y' + 1)" using c days_before_year_Suc [of y'] by simp
  have "\<not> y' < y"
    using days_before_year_mono [of "y' + 1" y] lt assms(1) by auto
  moreover have "\<not> y < y'"
    using days_before_year_mono [of "y + 1" y'] c assms(2) by auto
  ultimately show ?thesis using yy c by auto
qed

section \<open>Months\<close>

definition days_before :: "bool \<Rightarrow> int \<Rightarrow> int" where
  "days_before leap m =
     (if m \<le> 1 then 0 else if m = 2 then 31 else
      (if m = 3 then 59 else if m = 4 then 90 else if m = 5 then 120 else if m = 6 then 151
       else if m = 7 then 181 else if m = 8 then 212 else if m = 9 then 243
       else if m = 10 then 273 else if m = 11 then 304 else if m = 12 then 334 else 365)
      + (if leap then 1 else 0))"

definition month_day :: "bool \<Rightarrow> int \<Rightarrow> int \<times> int" where
  "month_day leap yd =
     (if leap \<and> yd = 59 then (2, 29)
      else let day = (if leap \<and> yd > 59 then yd - 1 else yd);
               month = day div 31;
               ende = days_before False (month + 2);
               begin = days_before False (month + 1)
           in if day \<ge> ende then (month + 2, day - ende + 1)
              else (month + 1, day - begin + 1))"

definition month_day_ok :: "bool \<Rightarrow> int \<Rightarrow> bool" where
  "month_day_ok leap yd \<longleftrightarrow>
     (let (m, d) = month_day leap yd
      in 1 \<le> m \<and> m \<le> 12 \<and> 1 \<le> d \<and> days_before leap m + (d - 1) = yd
         \<and> yd < days_before leap (m + 1))"

lemma month_cases:
  assumes "1 \<le> m" "m \<le> (12::int)"
  shows "m \<in> {1, 2, 3, 4, 5, 6, 7, 8, 9, 10, 11, 12}"
proof (cases "m \<le> 6")
  case True
  then have "m = 1 \<or> m = 2 \<or> m = 3 \<or> m = 4 \<or> m = 5 \<or> m = 6" using assms by linarith
  then show ?thesis by blast
next
  case False
  then have "m = 7 \<or> m = 8 \<or> m = 9 \<or> m = 10 \<or> m = 11 \<or> m = 12" using assms by linarith
  then show ?thesis by blast
qed

lemma month_day_valid:
  assumes "0 \<le> yd" "yd < (if leap then 366 else 365)"
  shows "month_day_ok leap yd"
proof (cases "leap \<and> yd = 59")
  case True
  then show ?thesis by (simp add: month_day_ok_def month_day_def days_before_def)
next
  case False
  define day where "day = (if leap \<and> yd > 59 then yd - 1 else yd)"
  define q where "q = day div 31"
  have day: "31 * q \<le> day" "day < 31 * q + 31" and b: "0 \<le> day" "day \<le> 364"
    using assms by (auto simp: day_def q_def split: if_splits)
  then have "1 \<le> q + 1" "q + 1 \<le> 12" by simp_all
  from month_cases [OF this] have q12: "q \<in> {0, 1, 2, 3, 4, 5, 6, 7, 8, 9, 10, 11}" by simp
  define k where "k = (if days_before False (q + 2) \<le> day then q + 2 else q + 1)"
  have md: "month_day leap yd = (k, day - days_before False k + 1)"
    unfolding month_day_def Let_def day_def [symmetric] q_def [symmetric] if_not_P [OF False] k_def
    by (simp only: if_distrib [of "\<lambda>n. (n, day - days_before False n + 1)"])
  have k: "1 \<le> k \<and> k \<le> 12 \<and> days_before False k \<le> day \<and> day < days_before False (k + 1)
      \<and> (2 < k \<longleftrightarrow> 59 \<le> day)"
    using q12 day b unfolding k_def by (elim insertE emptyE; simp add: days_before_def)
  have "days_before leap k = days_before False k + (if leap \<and> 2 < k then 1 else 0)"
    "days_before leap (k + 1) = days_before False (k + 1) + (if leap \<and> 1 < k then 1 else 0)"
    using conjunct1 [OF k] by (auto simp: days_before_def)
  moreover have "1 < k \<longleftrightarrow> 31 \<le> day"
    using q12 day b unfolding k_def by (elim insertE emptyE) (simp_all add: days_before_def)
  moreover have "yd = (if leap \<and> 59 \<le> day then day + 1 else day)"
    using False by (auto simp: day_def)
  ultimately have "days_before leap k + (day - days_before False k + 1 - 1) = yd"
    "yd < days_before leap (k + 1)"
    using k by (simp_all split: if_splits)
  then show ?thesis
    using k unfolding month_day_ok_def md by simp
qed

lemma month_day_correct:
  assumes "0 \<le> yd" "yd < (if leap then 366 else 365)" "month_day leap yd = (m, d)"
  shows "1 \<le> m \<and> m \<le> 12 \<and> 1 \<le> d \<and> days_before leap m + (d - 1) = yd
         \<and> yd < days_before leap (m + 1)"
  using month_day_valid [OF assms(1,2)] assms(3) by (simp add: month_day_ok_def)

lemma days_before_mono_step:
  assumes "1 \<le> m" "m \<le> 12"
  shows "days_before leap m + 28 \<le> days_before leap (m + 1)"
  using month_cases [OF assms] by (auto simp: days_before_def)

lemma days_before_mono:
  assumes "1 \<le> m" "m \<le> n" "n \<le> 13"
  shows "days_before leap m \<le> days_before leap n"
  using assms(2,1,3)
proof (induction n rule: int_ge_induct)
  case base
  show ?case by simp
next
  case (step n)
  then show ?case using days_before_mono_step [of n leap] by simp
qed

lemma month_day_unique:
  assumes "1 \<le> m" "m \<le> 12" "days_before leap m \<le> yd" "yd < days_before leap (m + 1)"
  shows "month_day leap yd = (m, yd - days_before leap m + 1)"
proof -
  obtain m' d' where md: "month_day leap yd = (m', d')" by (cases "month_day leap yd")
  have "days_before leap 1 \<le> yd" using assms days_before_mono [of 1 m leap] by simp
  then have "0 \<le> yd" by (simp add: days_before_def)
  moreover have "yd < (if leap then 366 else 365)"
    using assms days_before_mono [of "m + 1" 13 leap] by (simp add: days_before_def split: if_splits)
  ultimately have c: "1 \<le> m' \<and> m' \<le> 12 \<and> 1 \<le> d' \<and> days_before leap m' + (d' - 1) = yd
         \<and> yd < days_before leap (m' + 1)"
    using month_day_correct [OF _ _ md] by simp
  have "\<not> m' < m" using c assms days_before_mono [of "m' + 1" m leap] by auto
  moreover have "\<not> m < m'" using c assms days_before_mono [of "m + 1" m' leap] by auto
  ultimately show ?thesis using md c by auto
qed
section \<open>Fields of a count of local seconds\<close>

definition l_year :: "int \<Rightarrow> int" where
  "l_year x = fst (abs_year (x div 86400))"

definition l_yday :: "int \<Rightarrow> int" where
  "l_yday x = snd (abs_year (x div 86400))"

definition l_month :: "int \<Rightarrow> int" where
  "l_month x = fst (month_day (is_leap (l_year x)) (l_yday x))"

definition l_day :: "int \<Rightarrow> int" where
  "l_day x = snd (month_day (is_leap (l_year x)) (l_yday x))"

definition l_weekday :: "int \<Rightarrow> int" where
  "l_weekday x = (x div 86400 + 1) mod 7"

definition l_hour :: "int \<Rightarrow> int" where
  "l_hour x = x mod 86400 div 3600"

definition l_minute :: "int \<Rightarrow> int" where
  "l_minute x = x mod 3600 div 60"

definition l_second :: "int \<Rightarrow> int" where
  "l_second x = x mod 60"

definition date_days :: "int \<Rightarrow> int \<Rightarrow> int \<Rightarrow> int" where
  "date_days y m d = days_before_year y + days_before (is_leap y) m + (d - 1)"

lemma year_yday:
  "x div 86400 = days_before_year (l_year x) + l_yday x" "0 \<le> l_yday x"
  "l_yday x < year_len (l_year x)"
  using abs_year_correct [of "x div 86400" "l_year x" "l_yday x"]
  by (simp_all add: l_year_def l_yday_def)

lemma month_day_bounds:
  "1 \<le> l_month x" "l_month x \<le> 12" "1 \<le> l_day x"
  "days_before (is_leap (l_year x)) (l_month x) + (l_day x - 1) = l_yday x"
  "l_yday x < days_before (is_leap (l_year x)) (l_month x + 1)"
  using month_day_correct [of "l_yday x" "is_leap (l_year x)" "l_month x" "l_day x"] year_yday [of x]
  by (simp_all add: l_month_def l_day_def year_len_def)

lemma date_days_civil: "date_days (l_year x) (l_month x) (l_day x) = x div 86400"
  using year_yday(1) [of x] month_day_bounds(4) [of x] by (simp add: date_days_def)

lemma civil_eqI:
  assumes "1 \<le> m" "m \<le> 12" "days_before_year y + days_before (is_leap y) m \<le> z div 86400"
    "z div 86400 < days_before_year y + days_before (is_leap y) (m + 1)"
  shows "l_year z = y" "l_month z = m" "l_day z = z div 86400 - (days_before_year y + days_before (is_leap y) m) + 1"
proof -
  have "0 \<le> days_before (is_leap y) m"
    using days_before_mono [of 1 m "is_leap y"] assms by (simp add: days_before_def)
  moreover have "days_before (is_leap y) (m + 1) \<le> year_len y"
    using days_before_mono [of "m + 1" 13 "is_leap y"] assms
    by (simp add: days_before_def year_len_def split: if_splits)
  ultimately have a: "abs_year (z div 86400) = (y, z div 86400 - days_before_year y)"
    using assms days_before_year_Suc [of y] by (intro abs_year_unique) simp_all
  then show y: "l_year z = y" by (simp add: l_year_def)
  have yd: "l_yday z = z div 86400 - days_before_year y" using a by (simp add: l_yday_def)
  have "month_day (is_leap y) (l_yday z) = (m, l_yday z - days_before (is_leap y) m + 1)"
    using assms yd by (intro month_day_unique) simp_all
  then show "l_month z = m" "l_day z = z div 86400 - (days_before_year y + days_before (is_leap y) m) + 1"
    using y yd by (simp_all add: l_month_def l_day_def)
qed

section \<open>Starts of months, days, hours and minutes\<close>

definition month_start :: "int \<Rightarrow> int" where
  "month_start x = date_days (l_year x) (l_month x) 1 * 86400"

definition day_start :: "int \<Rightarrow> int" where
  "day_start x = date_days (l_year x) (l_month x) (l_day x) * 86400"

definition hour_start :: "int \<Rightarrow> int" where
  "hour_start x = day_start x + l_hour x * 3600"

lemma day_start_eq: "day_start x = x div 86400 * 86400"
  by (simp add: day_start_def date_days_civil)

lemma day_start_le: "day_start x \<le> x" and day_start_gt: "x < day_start x + 86400"
  using div_mult_mod_eq [of x 86400] pos_mod_bound [of 86400 x] pos_mod_sign [of 86400 x]
  by (simp_all add: day_start_eq)

lemma month_start_le: "month_start x \<le> day_start x"
  using month_day_bounds(3) [of x] by (simp add: month_start_def day_start_def date_days_def)

lemma days_in_month:
  assumes "month_start x \<le> z" "z \<le> x"
  shows "date_days (l_year x) (l_month x) 1 \<le> z div 86400" "z div 86400 \<le> x div 86400"
proof -
  have "month_start x div 86400 \<le> z div 86400" using assms(1) by (rule zdiv_mono1) simp
  then show "date_days (l_year x) (l_month x) 1 \<le> z div 86400" by (simp add: month_start_def)
  show "z div 86400 \<le> x div 86400" using assms(2) by (rule zdiv_mono1) simp
qed

lemma same_month:
  assumes "month_start x \<le> z" "z \<le> x"
  shows "l_year z = l_year x" "l_month z = l_month x"
  using days_in_month [OF assms] month_day_bounds [of x] year_yday(1) [of x]
  by (auto intro!: civil_eqI simp: date_days_def)

lemma same_day:
  assumes "day_start x \<le> z" "z \<le> x"
  shows "l_year z = l_year x" "l_month z = l_month x" "l_day z = l_day x" "l_weekday z = l_weekday x"
proof -
  have "day_start x div 86400 \<le> z div 86400" using assms(1) by (rule zdiv_mono1) simp
  moreover have "z div 86400 \<le> x div 86400" using assms(2) by (rule zdiv_mono1) simp
  ultimately have "z div 86400 = x div 86400" by (simp add: day_start_eq)
  then show "l_year z = l_year x" "l_month z = l_month x" "l_day z = l_day x" "l_weekday z = l_weekday x"
    by (simp_all add: l_year_def l_month_def l_day_def l_yday_def l_weekday_def)
qed

lemma before_month:
  shows "l_month x = 1 \<Longrightarrow> l_month (month_start x - 1) = 12 \<and> l_year (month_start x - 1) = l_year x - 1"
    and "l_month x \<noteq> 1 \<Longrightarrow> l_month (month_start x - 1) = l_month x - 1 \<and> l_year (month_start x - 1) = l_year x"
proof -
  let ?y = "l_year x" and ?m = "l_month x"
  have d: "(month_start x - 1) div 86400 = days_before_year ?y + days_before (is_leap ?y) ?m - 1"
    by (rule int_div_eqI [of _ _ _ 86399]) (simp_all add: month_start_def date_days_def algebra_simps)
  {
    assume "?m = 1"
    then have e: "(month_start x - 1) div 86400 = days_before_year (?y - 1) + year_len (?y - 1) - 1"
      using d days_before_year_Suc [of "?y - 1"] by (simp add: days_before_def)
    have "days_before (is_leap (?y - 1)) 12 < year_len (?y - 1)"
      "days_before (is_leap (?y - 1)) 13 = year_len (?y - 1)"
      by (simp_all add: days_before_def year_len_def)
    then show "l_month (month_start x - 1) = 12 \<and> l_year (month_start x - 1) = ?y - 1"
      using civil_eqI(1,2) [of 12 "?y - 1" "month_start x - 1"] e by simp
  next
    assume "?m \<noteq> 1"
    then have m: "1 \<le> ?m - 1" "?m - 1 \<le> 12" using month_day_bounds(1,2) [of x] by auto
    then show "l_month (month_start x - 1) = ?m - 1 \<and> l_year (month_start x - 1) = ?y"
      using civil_eqI(1,2) [OF m, of ?y "month_start x - 1"] d
        days_before_mono_step [OF m, of "is_leap ?y"] by simp
  }
qed

lemma before_day:
  assumes "l_day x \<noteq> 1"
  shows "l_year (day_start x - 1) = l_year x" "l_month (day_start x - 1) = l_month x"
proof -
  have "date_days (l_year x) (l_month x) 1 \<le> date_days (l_year x) (l_month x) (l_day x) - 1"
    using assms month_day_bounds(3) [of x] by (simp add: date_days_def)
  then have "month_start x \<le> day_start x - 86400" by (simp add: month_start_def day_start_def)
  then have "month_start x \<le> day_start x - 1" by simp
  moreover have "day_start x - 1 \<le> x" using day_start_le [of x] by simp
  ultimately show "l_year (day_start x - 1) = l_year x" "l_month (day_start x - 1) = l_month x"
    by (rule same_month)+
qed

lemma l_year_mono:
  assumes "x \<le> z"
  shows "l_year x \<le> l_year z"
proof (rule ccontr)
  assume "\<not> ?thesis"
  then have "days_before_year (l_year z + 1) \<le> days_before_year (l_year x)"
    by (intro days_before_year_mono) simp
  moreover have "x div 86400 \<le> z div 86400" using assms by (rule zdiv_mono1) simp
  ultimately show False
    using year_yday [of x] year_yday [of z] days_before_year_Suc [of "l_year z"] by simp
qed

lemma time_of_day_split: "x mod 86400 = l_hour x * 3600 + x mod 3600"
proof -
  have "x mod 86400 mod 3600 = x mod 3600" by (rule mod_mod_cancel) simp
  then show ?thesis using div_mult_mod_eq [of "x mod 86400" 3600] by (simp add: l_hour_def)
qed

lemma hour_start_eq: "hour_start x = x div 3600 * 3600"
proof -
  have "hour_start x = x - x mod 3600"
    using time_of_day_split [of x] div_mult_mod_eq [of x 86400]
    by (simp add: hour_start_def day_start_eq)
  then show ?thesis by (simp add: minus_mod_eq_div_mult)
qed

lemma hour_bounds: "0 \<le> l_hour x" "l_hour x \<le> 23"
proof -
  have m: "0 \<le> x mod 86400" "x mod 86400 < 86400" by simp_all
  show "0 \<le> l_hour x" using m by (simp add: l_hour_def pos_imp_zdiv_nonneg_iff)
  have "x mod 86400 div 3600 \<le> 86399 div 3600" using m by (intro zdiv_mono1) simp_all
  then show "l_hour x \<le> 23" by (simp add: l_hour_def)
qed

lemma same_hour:
  assumes "hour_start x \<le> z" "z \<le> x"
  shows "l_year z = l_year x" "l_month z = l_month x" "l_day z = l_day x"
    "l_weekday z = l_weekday x" "l_hour z = l_hour x"
proof -
  have d: "day_start x \<le> z" using assms(1) hour_bounds(1) [of x] by (simp add: hour_start_def)
  note sd = same_day [OF d assms(2)]
  show "l_year z = l_year x" "l_month z = l_month x" "l_day z = l_day x"
    "l_weekday z = l_weekday x" by (fact sd)+
  have "hour_start x div 3600 \<le> z div 3600" using assms(1) by (rule zdiv_mono1) simp
  moreover have "z div 3600 \<le> x div 3600" using assms(2) by (rule zdiv_mono1) simp
  ultimately have "hour_start z = hour_start x" by (simp add: hour_start_eq)
  moreover have "day_start z = day_start x" using sd by (simp add: day_start_def)
  ultimately show "l_hour z = l_hour x" by (simp add: hour_start_def)
qed

lemma before_hour:
  shows "l_hour x = 0 \<Longrightarrow> l_hour (hour_start x - 1) = 23"
    and "l_hour x \<noteq> 0 \<Longrightarrow> day_start x \<le> hour_start x - 1"
proof -
  assume "l_hour x = 0"
  then have "hour_start x - 1 = (x div 86400 - 1) * 86400 + 86399"
    by (simp add: hour_start_def day_start_eq algebra_simps)
  then have "(hour_start x - 1) mod 86400 = 86399" by (rule int_mod_eqI) simp_all
  then show "l_hour (hour_start x - 1) = 23" by (simp add: l_hour_def)
next
  assume "l_hour x \<noteq> 0"
  then show "day_start x \<le> hour_start x - 1"
    using hour_bounds(1) [of x] by (simp add: hour_start_def)
qed

definition minute_start :: "int \<Rightarrow> int" where
  "minute_start x = x div 60 * 60"

lemma minute_start_le: "minute_start x \<le> x"
  using div_mult_mod_eq [of x 60] pos_mod_sign [of 60 x] by (simp add: minute_start_def)

lemma hour_start_le: "hour_start x \<le> x"
  using div_mult_mod_eq [of x 3600] pos_mod_sign [of 3600 x] by (simp add: hour_start_eq)

lemma minute_split: "x - hour_start x = l_minute x * 60 + l_second x"
proof -
  have "x mod 3600 mod 60 = x mod 60" by (rule mod_mod_cancel) simp
  then have "x mod 3600 = l_minute x * 60 + l_second x"
    using div_mult_mod_eq [of "x mod 3600" 60] by (simp add: l_minute_def l_second_def)
  then show ?thesis by (simp add: hour_start_eq minus_div_mult_eq_mod)
qed

lemma minute_start_hour: "minute_start x = hour_start x + l_minute x * 60"
  using minute_split [of x] div_mult_mod_eq [of x 60]
  unfolding minute_start_def l_second_def by linarith

lemma minute_bounds: "0 \<le> l_minute x" "l_minute x \<le> 59" "0 \<le> l_second x" "l_second x \<le> 59"
proof -
  have m: "0 \<le> x mod 3600" "x mod 3600 < 3600" by simp_all
  show "0 \<le> l_minute x" using m by (simp add: l_minute_def pos_imp_zdiv_nonneg_iff)
  have "x mod 3600 div 60 \<le> 3599 div 60" using m by (intro zdiv_mono1) simp_all
  then show "l_minute x \<le> 59" by (simp add: l_minute_def)
  show "0 \<le> l_second x" by (simp add: l_second_def)
  show "l_second x \<le> 59" using pos_mod_bound [of 60 x] by (simp add: l_second_def)
qed

lemma same_minute:
  assumes "minute_start x \<le> z" "z \<le> x"
  shows "l_year z = l_year x" "l_month z = l_month x" "l_day z = l_day x"
    "l_weekday z = l_weekday x" "l_hour z = l_hour x" "l_minute z = l_minute x"
proof -
  have h: "hour_start x \<le> z"
    using assms(1) minute_bounds(1) [of x] by (simp add: minute_start_hour)
  note sh = same_hour [OF h assms(2)]
  show "l_year z = l_year x" "l_month z = l_month x" "l_day z = l_day x"
    "l_weekday z = l_weekday x" "l_hour z = l_hour x" by (fact sh)+
  have "minute_start x div 60 \<le> z div 60" using assms(1) by (rule zdiv_mono1) simp
  moreover have "z div 60 \<le> x div 60" using assms(2) by (rule zdiv_mono1) simp
  ultimately have "minute_start z = minute_start x" by (simp add: minute_start_def)
  moreover have "hour_start z = hour_start x" using sh by (simp add: hour_start_def day_start_def)
  ultimately show "l_minute z = l_minute x" by (simp add: minute_start_hour)
qed

lemma before_minute:
  shows "l_minute x = 0 \<Longrightarrow> l_minute (minute_start x - 1) = 59"
    and "l_minute x \<noteq> 0 \<Longrightarrow> hour_start x \<le> minute_start x - 1"
proof -
  assume "l_minute x = 0"
  then have "minute_start x - 1 = (x div 3600 - 1) * 3600 + 3599"
    by (simp add: minute_start_hour hour_start_eq algebra_simps)
  then have "(minute_start x - 1) mod 3600 = 3599" by (rule int_mod_eqI) simp_all
  then show "l_minute (minute_start x - 1) = 59" by (simp add: l_minute_def)
next
  assume "l_minute x \<noteq> 0"
  then show "hour_start x \<le> minute_start x - 1"
    using minute_bounds(1) [of x] by (simp add: minute_start_hour)
qed

lemma before_second:
  shows "l_second x = 0 \<Longrightarrow> l_second (x - 1) = 59"
    and "l_second x \<noteq> 0 \<Longrightarrow> minute_start x \<le> x - 1"
proof -
  have x: "x = minute_start x + l_second x"
    using minute_split [of x] minute_start_hour [of x] by simp
  {
    assume "l_second x = 0"
    then have "x - 1 = (x div 60 - 1) * 60 + 59" using x by (simp add: minute_start_def)
    then have "(x - 1) mod 60 = 59" by (rule int_mod_eqI) simp_all
    then show "l_second (x - 1) = 59" by (simp add: l_second_def)
  next
    assume "l_second x \<noteq> 0"
    then show "minute_start x \<le> x - 1" using x minute_bounds(3) [of x] by linarith
  }
qed

lemma l_day_le: "l_day x \<le> 31"
proof -
  have "days_before L (m + 1) \<le> days_before L m + 31" if "1 \<le> m" "m \<le> 12" for L m
    using month_cases [OF that] by (auto simp: days_before_def)
  from this [of "l_month x" "is_leap (l_year x)"] show ?thesis using month_day_bounds [of x] by linarith
qed

end
