(* ===== verification/GoTime.thy ===== *)
theory GoTime
  imports Calendar
begin

text \<open>
  Go's \<^verbatim>\<open>time.Time\<close>, \<^verbatim>\<open>time.Location\<close> and \<^verbatim>\<open>time.Duration\<close>, as far as the program uses them.
  A \<open>gotime\<close> is an instant, in nanoseconds since 1 January of year 1, 00:00:00 UTC (so the
  zero value of \<^verbatim>\<open>time.Time\<close> is the instant 0), and the location its fields are read in.
  A \<open>location\<close> is what \<^verbatim>\<open>LoadLocation\<close> reads from the tz database: the offset before the
  first transition, and the transitions (Unix time, offset from then on) in ascending
  order. Durations are 64-bit and wrap; instants are unbounded (Go's range of 292 billion
  years is never left here).
\<close>

unbundle bit_operations_syntax

type_synonym duration = "64 word"

abbreviation nano :: int where "nano \<equiv> 1000000000"
abbreviation unix_epoch :: int where "unix_epoch \<equiv> 62135596800"

record location =
  locName :: string
  locIsLocal :: bool
  locBase :: int
  locTx :: "(int \<times> int) list"

record gotime =
  instant :: int
  locOf :: location

definition zone_alpha :: int where "zone_alpha = - (2 ^ 63)"
definition zone_omega :: int where "zone_omega = 2 ^ 63 - 1"

text \<open>
  \<^verbatim>\<open>Location.lookup\<close>: the offset in force at a Unix time, and the interval it holds in
  (closed below, open above).
\<close>

fun lookup_from :: "int \<Rightarrow> int \<Rightarrow> (int \<times> int) list \<Rightarrow> int \<Rightarrow> int \<times> int \<times> int" where
  "lookup_from off start [] sec = (off, start, zone_omega)"
| "lookup_from off start ((when, off') # tx) sec =
     (if sec < when then (off, start, when) else lookup_from off' when tx sec)"

definition locLookup :: "location \<Rightarrow> int \<Rightarrow> int \<times> int \<times> int" where
  "locLookup l = lookup_from (locBase l) zone_alpha (locTx l)"

definition fixed_zone :: "string \<Rightarrow> int \<Rightarrow> location" where
  "fixed_zone name off =
     \<lparr>locName = name, locIsLocal = False, locBase = off, locTx = []\<rparr>"

definition UTC :: location where
  "UTC = fixed_zone ''UTC'' 0"

definition zero_time :: gotime where
  "zero_time = \<lparr>instant = 0, locOf = UTC\<rparr>"

definition time_is_zero :: "gotime \<Rightarrow> bool" where
  "time_is_zero t \<longleftrightarrow> instant t = 0"

definition time_sec :: "gotime \<Rightarrow> int" where
  "time_sec t = instant t div nano"

definition time_unix :: "gotime \<Rightarrow> int" where
  "time_unix t = time_sec t - unix_epoch"

definition zone_offset :: "location \<Rightarrow> int \<Rightarrow> int" where
  "zone_offset l unix = fst (locLookup l unix)"

definition local_sec :: "gotime \<Rightarrow> int" where
  "local_sec t = time_sec t + zone_offset (locOf t) (time_unix t)"

definition time_year :: "gotime \<Rightarrow> int" where "time_year t = l_year (local_sec t)"
definition time_month :: "gotime \<Rightarrow> int" where "time_month t = l_month (local_sec t)"
definition time_day :: "gotime \<Rightarrow> int" where "time_day t = l_day (local_sec t)"
definition time_weekday :: "gotime \<Rightarrow> int" where "time_weekday t = l_weekday (local_sec t)"
definition time_hour :: "gotime \<Rightarrow> int" where "time_hour t = l_hour (local_sec t)"
definition time_minute :: "gotime \<Rightarrow> int" where "time_minute t = l_minute (local_sec t)"
definition time_second :: "gotime \<Rightarrow> int" where "time_second t = l_second (local_sec t)"

text \<open>
  \<^verbatim>\<open>time.Date\<close>: the wall-clock reading is first looked up as if it were UTC; if the instant
  this offset gives does not lie in the interval of that offset, the offset in force at
  that instant is used instead. Wall-clock readings that occur twice or not at all get one
  of the two candidate instants, depending on the zone. The program only passes fields that
  are in range, for which the normalisation of \<^verbatim>\<open>Date\<close> is the identity.
\<close>

definition local_to_unix :: "location \<Rightarrow> int \<Rightarrow> int" where
  "local_to_unix l u =
     (let (off, start, ende) = locLookup l u;
          utc = u - off
      in if off = 0 then u
         else if utc < start \<or> ende \<le> utc then u - zone_offset l utc
         else utc)"

definition time_date :: "int \<Rightarrow> int \<Rightarrow> int \<Rightarrow> int \<Rightarrow> int \<Rightarrow> int \<Rightarrow> location \<Rightarrow> gotime" where
  "time_date y mo d h mi s l =
     (let secs = date_days y mo d * 86400 + h * 3600 + mi * 60 + s
      in \<lparr>instant = (local_to_unix l (secs - unix_epoch) + unix_epoch) * nano, locOf = l\<rparr>)"

text \<open>
  \<^verbatim>\<open>Add\<close>, \<^verbatim>\<open>Sub\<close> (which saturates), \<^verbatim>\<open>Truncate\<close> (of the instant, not of the wall clock),
  \<^verbatim>\<open>In\<close>, \<^verbatim>\<open>Before\<close>, \<^verbatim>\<open>After\<close>; \<open>seconds n\<close> is \<^verbatim>\<open>time.Second * time.Duration(n)\<close>, which
  wraps around.
\<close>

definition time_add :: "gotime \<Rightarrow> duration \<Rightarrow> gotime" where
  "time_add t d = t\<lparr>instant := instant t + sint d\<rparr>"

definition time_sub :: "gotime \<Rightarrow> gotime \<Rightarrow> duration" where
  "time_sub t u = word_of_int (max (- (2 ^ 63)) (min (2 ^ 63 - 1) (instant t - instant u)))"

definition time_truncate :: "gotime \<Rightarrow> int \<Rightarrow> gotime" where
  "time_truncate t d = t\<lparr>instant := instant t - instant t mod d\<rparr>"

definition time_in :: "gotime \<Rightarrow> location \<Rightarrow> gotime" where
  "time_in t l = t\<lparr>locOf := l\<rparr>"

definition time_before :: "gotime \<Rightarrow> gotime \<Rightarrow> bool" where
  "time_before t u \<longleftrightarrow> instant t < instant u"

definition time_after :: "gotime \<Rightarrow> gotime \<Rightarrow> bool" where
  "time_after t u \<longleftrightarrow> instant u < instant t"

definition seconds :: "int \<Rightarrow> duration" where
  "seconds n = word_of_int nano * word_of_int n"

lemma zone_offset_fixed [simp]: "zone_offset (fixed_zone name off) u = off"
  by (simp add: zone_offset_def locLookup_def fixed_zone_def)

lemma zone_offset_UTC [simp]: "zone_offset UTC u = 0"
  by (simp add: UTC_def)

lemma sint_duration: "- (2 ^ 63) \<le> x \<Longrightarrow> x < 2 ^ 63 \<Longrightarrow> sint (word_of_int x :: duration) = x"
  by (subst signed_of_int) (simp add: signed_take_bit_int_eq_self_iff)

lemma sint_seconds:
  assumes "- 9223372036 \<le> n" "n \<le> 9223372036"
  shows "sint (seconds n) = n * nano"
proof -
  have "seconds n = word_of_int (n * nano)"
    unfolding seconds_def by (simp only: wi_hom_mult mult.commute)
  then show ?thesis using sint_duration [of "n * nano"] assms by simp
qed

lemma time_sub_exact:
  assumes "- (2 ^ 63) \<le> instant t - instant u" "instant t - instant u < 2 ^ 63"
  shows "sint (time_sub t u) = instant t - instant u"
  using assms unfolding time_sub_def by (subst sint_duration) auto

lemma time_add_sub:
  assumes "- (2 ^ 63) \<le> instant t - instant u" "instant t - instant u < 2 ^ 63"
  shows "instant (time_add u (time_sub t u)) = instant t"
  using time_sub_exact [OF assms] by (simp add: time_add_def)

end
