(* ===== verification/CronPrev.thy ===== *)
theory CronPrev
  imports GoTime
begin

text \<open>
  \<^verbatim>\<open>pkg/schedule/cron_prev.go\<close>: the backward search for the most recent activation of a cron
  schedule. \<open>spec_schedule\<close> has the exported fields of \<^verbatim>\<open>cron.SpecSchedule\<close>, six bit sets
  over 64-bit words and a location. The five loops of \<^verbatim>\<open>cronPrev\<close> and its \<^verbatim>\<open>goto WRAP\<close> are a
  machine: a label (where control is) and the time under consideration; \<open>cron_step\<close> is one
  evaluation of the loop condition at a label together with the body it guards, and
  \<open>cron_run\<close> runs the machine. \<open>None\<close> is a search that never ends: the loops have no bound of
  their own, and \<open>CronCorrect\<close> shows both where they end and where they do not.
\<close>

type_synonym u64 = "64 word"

record spec_schedule =
  spSecond :: u64
  spMinute :: u64
  spHour :: u64
  spDom :: u64
  spMonth :: u64
  spDow :: u64
  spLocation :: location

definition star_bit :: u64 where
  "star_bit = push_bit 63 1"

text \<open>\<^verbatim>\<open>1<<uint(n) & bits\<close>, on 64-bit words.\<close>

definition field_bit :: "int \<Rightarrow> u64 \<Rightarrow> u64" where
  "field_bit n bits = (push_bit (nat n) 1 AND bits)"

definition dayMatches :: "spec_schedule \<Rightarrow> gotime \<Rightarrow> bool" where
  "dayMatches s t =
     (let domMatch = 0 < field_bit (time_day t) (spDom s);
          dowMatch = 0 < field_bit (time_weekday t) (spDow s)
      in if 0 < (spDom s AND star_bit) \<or> 0 < (spDow s AND star_bit)
         then domMatch \<and> dowMatch
         else domMatch \<or> dowMatch)"

text \<open>Control points: the label \<^verbatim>\<open>WRAP\<close> and the heads of the five loops.\<close>

datatype cron_label = WRAP | Months | Days | Hours | Minutes | Seconds

text \<open>\<^verbatim>\<open>t.Add(-1 * time.Second)\<close>\<close>

definition back_one_second :: "gotime \<Rightarrow> gotime" where
  "back_one_second t = time_add t (seconds (-1))"

type_synonym cron_state = "cron_label \<times> gotime"

fun cron_step :: "spec_schedule \<Rightarrow> int \<Rightarrow> location \<Rightarrow> cron_state \<Rightarrow> gotime + cron_state" where
  "cron_step s yearLimit orig (WRAP, t) =
     (if time_year t < yearLimit then Inl zero_time else Inr (Months, t))"
| "cron_step s yearLimit orig (Months, t) =
     (if field_bit (time_month t) (spMonth s) = 0
      then let t1 = time_date (time_year t) (time_month t) 1 0 0 0 (locOf t);
               t2 = back_one_second t1
           in if time_month t2 = 12 then Inr (WRAP, t2) else Inr (Months, t2)
      else Inr (Days, t))"
| "cron_step s yearLimit orig (Days, t) =
     (if \<not> dayMatches s t
      then let t1 = time_date (time_year t) (time_month t) (time_day t) 0 0 0 (locOf t);
               needToWrapBack = (time_day t1 = 1);
               t2 = back_one_second t1
           in if needToWrapBack then Inr (WRAP, t2) else Inr (Days, t2)
      else Inr (Hours, t))"
| "cron_step s yearLimit orig (Hours, t) =
     (if field_bit (time_hour t) (spHour s) = 0
      then let t1 = time_date (time_year t) (time_month t) (time_day t) (time_hour t) 0 0 (locOf t);
               t2 = back_one_second t1
           in if time_hour t2 = 23 then Inr (WRAP, t2) else Inr (Hours, t2)
      else Inr (Minutes, t))"
| "cron_step s yearLimit orig (Minutes, t) =
     (if field_bit (time_minute t) (spMinute s) = 0
      then let t2 = back_one_second (time_truncate t (60 * nano))
           in if time_minute t2 = 59 then Inr (WRAP, t2) else Inr (Minutes, t2)
      else Inr (Seconds, t))"
| "cron_step s yearLimit orig (Seconds, t) =
     (if field_bit (time_second t) (spSecond s) = 0
      then let t2 = back_one_second (time_truncate t nano)
           in if time_second t2 = 59 then Inr (WRAP, t2) else Inr (Seconds, t2)
      else Inl (time_in t orig))"

partial_function (option) cron_run ::
  "spec_schedule \<Rightarrow> int \<Rightarrow> location \<Rightarrow> cron_state \<Rightarrow> gotime option" where
  "cron_run s yearLimit orig st =
     (case cron_step s yearLimit orig st of
        Inl r \<Rightarrow> Some r
      | Inr st' \<Rightarrow> cron_run s yearLimit orig st')"

definition cronPrev :: "spec_schedule \<Rightarrow> gotime \<Rightarrow> gotime option" where
  "cronPrev s t =
     (let origLocation = locOf t;
          t' = (if locIsLocal (spLocation s) then t else time_in t (spLocation s));
          yearLimit = time_year t' - 5
      in cron_run s yearLimit origLocation (WRAP, t'))"

text \<open>The loop contract of the prelude holds for the machine and its run.\<close>

interpretation cron_loop: tail_loop "cron_step s yl orig" "cron_run s yl orig" for s yl orig
proof unfold_locales
  show "cron_run s yl orig st = (case cron_step s yl orig st of Inl r \<Rightarrow> Some r
    | Inr st' \<Rightarrow> cron_run s yl orig st')" for st
    by (rule cron_run.simps)
next
  fix st r
  assume "cron_run s yl orig st = Some r"
  then show "\<exists>n. iterate (cron_step s yl orig) n st = Inl r"
  proof (rule cron_run.raw_induct [rotated])
    fix f s yl orig st r
    assume IH: "\<And>s yl orig st r. f s yl orig st = Some r \<Longrightarrow> \<exists>n. iterate (cron_step s yl orig) n st = Inl r"
      and eq: "(case cron_step s yl orig st of Inl r \<Rightarrow> Some r | Inr st' \<Rightarrow> f s yl orig st') = Some r"
    show "\<exists>n. iterate (cron_step s yl orig) n st = Inl r"
    proof (cases "cron_step s yl orig st")
      case (Inl u)
      with eq show ?thesis by (intro exI [of _ "Suc 0"]) simp
    next
      case (Inr st')
      with eq obtain n where "iterate (cron_step s yl orig) n st' = Inl r" using IH [of s yl orig st' r] by auto
      with Inr show ?thesis by (intro exI [of _ "Suc n"]) simp
    qed
  qed
qed

end
