(* ===== verification/CronCorrect.thy ===== *)
theory CronCorrect
  imports CronPrev
begin

text \<open>
  What \<open>cronPrev\<close> computes. \<open>cron_matches\<close> says which local seconds a schedule activates
  at, \<open>latest_match\<close> which of them the search looks for. \<open>zone_window\<close> is the contract of a
  stretch of time in which the offset of the zone does not change (with a day to spare at
  both ends, because \<^verbatim>\<open>Date\<close> first looks up the wall clock as if it were UTC). Inside it
  every label of the machine makes progress towards the latest stop point and never steps
  over it (\<open>cron_step_wrap\<close> to \<open>cron_step_seconds\<close>), so the search ends there
  (\<open>cron_run_window\<close>). Zones with a fixed offset satisfy the contract for any stretch. At
  the end of summer time the contract fails, and so does the search
  (\<open>cron_hours_stuck\<close>, \<open>cronPrev_hangs\<close>).
\<close>

section \<open>Bit sets and activation\<close>

lemma field_bit_0: "field_bit n bits = 0 \<longleftrightarrow> \<not> bit bits (nat n)"
  using and_exp_eq_0_iff_not_bit [of bits "nat n"]
  by (simp add: field_bit_def push_bit_eq_mult and.commute)

lemma field_bit_pos: "0 < field_bit n bits \<longleftrightarrow> bit bits (nat n)"
  using field_bit_0 [of n bits] by (simp add: word_gt_0)

lemma star_bit_pos: "0 < (bits AND star_bit) \<longleftrightarrow> bit bits 63"
  using field_bit_pos [of 63 bits] by (simp add: field_bit_def star_bit_def and.commute)

definition day_ok :: "spec_schedule \<Rightarrow> int \<Rightarrow> bool" where
  "day_ok s x =
     (let dom = bit (spDom s) (nat (l_day x)); dow = bit (spDow s) (nat (l_weekday x))
      in if bit (spDom s) 63 \<or> bit (spDow s) 63 then dom \<and> dow else dom \<or> dow)"

definition cron_matches :: "spec_schedule \<Rightarrow> int \<Rightarrow> bool" where
  "cron_matches s x \<longleftrightarrow>
     bit (spMonth s) (nat (l_month x)) \<and> day_ok s x \<and> bit (spHour s) (nat (l_hour x))
     \<and> bit (spMinute s) (nat (l_minute x)) \<and> bit (spSecond s) (nat (l_second x))"

lemma dayMatches_day_ok: "dayMatches s t = day_ok s (local_sec t)"
  by (simp add: dayMatches_def day_ok_def field_bit_pos star_bit_pos time_day_def
      time_weekday_def Let_def)

lemma instant_back [simp]: "instant (back_one_second t) = instant t - nano"
  and locOf_back [simp]: "locOf (back_one_second t) = locOf t"
  by (simp_all add: back_one_second_def time_add_def sint_seconds)

lemma time_sec_back [simp]: "time_sec (back_one_second t) = time_sec t - 1"
  by (simp add: time_sec_def)

lemma time_in_simps [simp]: "instant (time_in t l) = instant t" "locOf (time_in t l) = l"
  by (simp_all add: time_in_def)


section \<open>The search as a descent to a stop point\<close>

text \<open>
  The stop point of a search from the second \<open>T\<close>: the latest second that either activates
  the schedule or lies before the year limit.
\<close>

definition stop_point :: "int \<Rightarrow> spec_schedule \<Rightarrow> int \<Rightarrow> int \<Rightarrow> int \<Rightarrow> bool" where
  "stop_point off s yl T B \<longleftrightarrow>
     B \<le> T \<and> (l_year (B + off) < yl \<or> cron_matches s (B + off))
     \<and> (\<forall>x. B < x \<and> x \<le> T \<longrightarrow> yl \<le> l_year (x + off) \<and> \<not> cron_matches s (x + off))"

primrec label_rank :: "cron_label \<Rightarrow> nat" where
  "label_rank WRAP = 5"
| "label_rank Months = 4"
| "label_rank Days = 3"
| "label_rank Hours = 2"
| "label_rank Minutes = 1"
| "label_rank Seconds = 0"

text \<open>What holds of the fields when control is at a label: every earlier check has passed.\<close>

definition passed :: "spec_schedule \<Rightarrow> int \<Rightarrow> cron_label \<Rightarrow> int \<Rightarrow> bool" where
  "passed s yl lab x \<longleftrightarrow>
     (label_rank lab < 5 \<longrightarrow> yl \<le> l_year x)
     \<and> (label_rank lab < 4 \<longrightarrow> bit (spMonth s) (nat (l_month x)))
     \<and> (label_rank lab < 3 \<longrightarrow> day_ok s x)
     \<and> (label_rank lab < 2 \<longrightarrow> bit (spHour s) (nat (l_hour x)))
     \<and> (label_rank lab < 1 \<longrightarrow> bit (spMinute s) (nat (l_minute x)))"

definition cron_inv ::
  "location \<Rightarrow> int \<Rightarrow> spec_schedule \<Rightarrow> int \<Rightarrow> gotime \<Rightarrow> int \<Rightarrow> cron_state \<Rightarrow> bool" where
  "cron_inv loc off s yl t0 B st \<longleftrightarrow>
     (case st of (lab, t) \<Rightarrow>
        locOf t = loc \<and> B \<le> time_sec t
        \<and> (instant t = instant t0 \<or> instant t = time_sec t * nano \<and> time_sec t < time_sec t0)
        \<and> passed s yl lab (time_sec t + off))"

definition cron_result :: "int \<Rightarrow> int \<Rightarrow> gotime \<Rightarrow> location \<Rightarrow> int \<Rightarrow> gotime \<Rightarrow> bool" where
  "cron_result off yl t0 orig B r \<longleftrightarrow>
     r = (if l_year (B + off) < yl then zero_time
          else \<lparr>instant = (if B = time_sec t0 then instant t0 else B * nano), locOf = orig\<rparr>)"

definition cron_order :: "int \<Rightarrow> (cron_state \<times> cron_state) set" where
  "cron_order B = measures [\<lambda>(lab, t). nat (time_sec t - B), \<lambda>(lab, t). label_rank lab]"

lemma passed_WRAP [simp]: "passed s yl WRAP x"
  by (simp add: passed_def)

lemma day_ok_same_day: "day_start x \<le> z \<Longrightarrow> z \<le> x \<Longrightarrow> day_ok s z = day_ok s x"
  by (simp add: day_ok_def same_day)

lemma cron_inv_le:
  "cron_inv loc off s yl t0 B (lab, t) \<Longrightarrow> B \<le> time_sec t \<and> time_sec t \<le> time_sec t0"
  by (auto simp: cron_inv_def time_sec_def)

lemma stop_point_skip:
  assumes "stop_point off s yl T B" "B + off \<le> x"
    and "\<And>z. c \<le> z \<Longrightarrow> z \<le> x \<Longrightarrow> yl \<le> l_year z \<and> \<not> cron_matches s z"
  shows "B + off \<le> c - 1"
proof (rule ccontr)
  assume "\<not> ?thesis"
  then have "yl \<le> l_year (B + off) \<and> \<not> cron_matches s (B + off)" using assms(2,3) by auto
  then show False using assms(1) by (auto simp: stop_point_def)
qed

lemma cron_inv_moved:
  assumes "cron_inv loc off s yl t0 B (lab, t)" "instant t2 = (c - off - 1) * nano" "locOf t2 = loc"
    and "B + off \<le> c - 1" "c \<le> time_sec t + off" "passed s yl lab' (c - 1)"
  shows "cron_inv loc off s yl t0 B (lab', t2) \<and> ((lab', t2), (lab, t)) \<in> cron_order B"
proof -
  have "time_sec t2 = c - off - 1" using assms(2) by (simp add: time_sec_def)
  then show ?thesis
    using assms cron_inv_le [OF assms(1)] by (auto simp: cron_inv_def cron_order_def)
qed

lemma cron_inv_advanced:
  assumes "cron_inv loc off s yl t0 B (lab, t)" "passed s yl lab' (time_sec t + off)"
    "label_rank lab' < label_rank lab"
  shows "cron_inv loc off s yl t0 B (lab', t) \<and> ((lab', t), (lab, t)) \<in> cron_order B"
  using assms by (auto simp: cron_inv_def cron_order_def)

lemma cron_finished:
  assumes "stop_point off s yl (time_sec t0) B" "cron_inv loc off s yl t0 B (lab, t)"
    and "l_year (time_sec t + off) < yl \<or> cron_matches s (time_sec t + off)"
  shows "time_sec t = B" "instant t = (if B = time_sec t0 then instant t0 else B * nano)"
proof -
  show B: "time_sec t = B"
    using assms cron_inv_le [OF assms(2)] by (force simp: stop_point_def)
  show "instant t = (if B = time_sec t0 then instant t0 else B * nano)"
    using assms(2) B by (auto simp: cron_inv_def time_sec_def)
qed

section \<open>A stretch of time without zone transitions\<close>

locale zone_window =
  fixes loc :: location and off lo hi :: int
  assumes window_offset: "lo - 86400 \<le> x \<Longrightarrow> x \<le> hi + 86400 \<Longrightarrow> zone_offset loc (x - unix_epoch) = off"
    and offset_small: "\<bar>off\<bar> \<le> 86400"
    and offset_minutes: "off mod 60 = 0"
begin

lemma window_local_sec:
  "locOf t = loc \<Longrightarrow> lo \<le> time_sec t \<Longrightarrow> time_sec t \<le> hi \<Longrightarrow> local_sec t = time_sec t + off"
  by (simp add: local_sec_def time_unix_def window_offset)

lemma window_local_to_unix:
  assumes "lo \<le> d" "d \<le> hi"
  shows "local_to_unix loc (d + off - unix_epoch) = d - unix_epoch"
proof -
  obtain o1 st en where l: "locLookup loc (d + off - unix_epoch) = (o1, st, en)"
    by (cases "locLookup loc (d + off - unix_epoch)")
  have "zone_offset loc (d + off - unix_epoch) = off"
    using assms offset_small by (intro window_offset) auto
  then have o1: "o1 = off" using l by (simp add: zone_offset_def)
  have "zone_offset loc (d - unix_epoch) = off" using assms by (intro window_offset) auto
  then show ?thesis using l o1 by (auto simp: local_to_unix_def Let_def)
qed

lemma window_date:
  assumes "lo \<le> d" "d \<le> hi" "date_days y m dd * 86400 + h * 3600 + mi * 60 + s = d + off"
  shows "time_date y m dd h mi s loc = \<lparr>instant = d * nano, locOf = loc\<rparr>"
  using window_local_to_unix [OF assms(1,2)] assms(3) by (simp add: time_date_def Let_def)


definition cron_progress :: "spec_schedule \<Rightarrow> int \<Rightarrow> gotime \<Rightarrow> location \<Rightarrow> int \<Rightarrow> cron_state \<Rightarrow> bool" where
  "cron_progress s yl t0 orig B st \<longleftrightarrow>
     (\<exists>r. cron_step s yl orig st = Inl r \<and> cron_result off yl t0 orig B r)
     \<or> (\<exists>st'. cron_step s yl orig st = Inr st' \<and> cron_inv loc off s yl t0 B st' \<and> (st', st) \<in> cron_order B)"

lemma cron_progress_Inl:
  "cron_step s yl orig st = Inl r \<Longrightarrow> cron_result off yl t0 orig B r \<Longrightarrow> cron_progress s yl t0 orig B st"
  by (simp add: cron_progress_def)

lemma cron_progress_Inr:
  "cron_step s yl orig st = Inr st' \<Longrightarrow>
   cron_inv loc off s yl t0 B st' \<and> (st', st) \<in> cron_order B \<Longrightarrow> cron_progress s yl t0 orig B st"
  by (simp add: cron_progress_def)

lemma inv_local_sec:
  assumes "cron_inv loc off s yl t0 B (lab, t)" "lo \<le> B" "time_sec t0 \<le> hi"
  shows "local_sec t = time_sec t + off" "locOf t = loc" "passed s yl lab (time_sec t + off)"
proof -
  show l: "locOf t = loc" and "passed s yl lab (time_sec t + off)"
    using assms(1) by (simp_all add: cron_inv_def)
  show "local_sec t = time_sec t + off"
    using cron_inv_le [OF assms(1)] assms(2,3) by (intro window_local_sec [OF l]) linarith+
qed

text \<open>
  One truncation: nothing is lost between \<open>c\<close> and the local time of \<open>t\<close>, so the search
  goes on one second before \<open>c\<close>.
\<close>

lemma window_truncate:
  assumes stop: "stop_point off s yl (time_sec t0) B" and lo: "lo \<le> B" and hi: "time_sec t0 \<le> hi"
    and inv: "cron_inv loc off s yl t0 B (lab, t)"
    and c: "c \<le> time_sec t + off"
    and nomatch: "\<And>z. c \<le> z \<Longrightarrow> z \<le> time_sec t + off \<Longrightarrow> yl \<le> l_year z \<and> \<not> cron_matches s z"
    and t1: "lo \<le> c - off \<Longrightarrow> c - off \<le> hi \<Longrightarrow> t1 = \<lparr>instant = (c - off) * nano, locOf = loc\<rparr>"
  shows "local_sec t1 = c" "local_sec (back_one_second t1) = c - 1"
    and "passed s yl lab' (c - 1) \<Longrightarrow>
      cron_inv loc off s yl t0 B (lab', back_one_second t1)
      \<and> ((lab', back_one_second t1), (lab, t)) \<in> cron_order B"
proof -
  note le = cron_inv_le [OF inv]
  have B: "B + off \<le> c - 1"
    by (rule stop_point_skip [OF stop, of "time_sec t + off"]) (use le nomatch in auto)
  have t1': "t1 = \<lparr>instant = (c - off) * nano, locOf = loc\<rparr>"
    using B c lo hi le by (intro t1) linarith+
  let ?t2 = "back_one_second t1"
  have t2: "instant ?t2 = (c - off - 1) * nano" "locOf ?t2 = loc"
    by (simp_all add: t1' algebra_simps)
  have s1: "time_sec t1 = c - off" "locOf t1 = loc" by (simp_all add: t1' time_sec_def)
  show "local_sec t1 = c"
    using window_local_sec [OF s1(2)] s1(1) B c lo hi le by simp
  show "local_sec ?t2 = c - 1"
    using window_local_sec [OF t2(2)] s1(1) B c lo hi le by simp
  show "passed s yl lab' (c - 1) \<Longrightarrow> cron_inv loc off s yl t0 B (lab', ?t2)
      \<and> ((lab', ?t2), (lab, t)) \<in> cron_order B"
    by (rule cron_inv_moved [OF inv t2 B c])
qed

lemma cron_step_wrap:
  assumes "stop_point off s yl (time_sec t0) B" "lo \<le> B" "time_sec t0 \<le> hi"
    and inv: "cron_inv loc off s yl t0 B (WRAP, t)"
  shows "cron_progress s yl t0 orig B (WRAP, t)"
proof -
  let ?x = "time_sec t + off"
  note x = inv_local_sec [OF inv assms(2,3)]
  show ?thesis
  proof (cases "l_year ?x < yl")
    case True
    then have "cron_result off yl t0 orig B zero_time"
      using cron_finished(1) [OF assms(1) inv] by (simp add: cron_result_def)
    with True show ?thesis by (intro cron_progress_Inl) (simp_all add: time_year_def x)
  next
    case False
    then have p: "passed s yl Months ?x" by (simp add: passed_def)
    show ?thesis
      using False by (intro cron_progress_Inr [OF _ cron_inv_advanced [OF inv p]])
        (simp_all add: time_year_def x)
  qed
qed

lemma cron_step_months:
  assumes "stop_point off s yl (time_sec t0) B" "lo \<le> B" "time_sec t0 \<le> hi"
    and inv: "cron_inv loc off s yl t0 B (Months, t)"
  shows "cron_progress s yl t0 orig B (Months, t)"
proof -
  let ?x = "time_sec t + off"
  let ?c = "month_start ?x"
  note x = inv_local_sec [OF inv assms(2,3)]
  have yl: "yl \<le> l_year ?x" using x(3) by (simp add: passed_def)
  show ?thesis
  proof (cases "bit (spMonth s) (nat (l_month ?x))")
    case True
    then have p: "passed s yl Days ?x" using yl by (simp add: passed_def)
    show ?thesis
      using True by (intro cron_progress_Inr [OF _ cron_inv_advanced [OF inv p]])
        (simp_all add: time_month_def x field_bit_0)
  next
    case False
    define t1 where "t1 = time_date (time_year t) (time_month t) 1 0 0 0 (locOf t)"
    have c: "?c \<le> ?x" using month_start_le [of ?x] day_start_le [of ?x] by simp
    have nm: "yl \<le> l_year z \<and> \<not> cron_matches s z" if "?c \<le> z" "z \<le> ?x" for z
      using same_month [OF that] False yl by (simp add: cron_matches_def)
    have t1: "t1 = \<lparr>instant = (?c - off) * nano, locOf = loc\<rparr>" if "lo \<le> ?c - off" "?c - off \<le> hi"
      unfolding t1_def x time_year_def time_month_def
      by (rule window_date [OF that]) (simp add: month_start_def)
    note tr = window_truncate [OF assms(1-3) inv c nm t1]
    let ?t2 = "back_one_second t1"
    let ?lab = "if time_month ?t2 = 12 then WRAP else Months"
    have "passed s yl ?lab (?c - 1)"
      using before_month [of ?x] yl
      by (cases "l_month ?x = 1") (simp_all add: passed_def [of _ _ Months] time_month_def tr(2))
    moreover have "cron_step s yl orig (Months, t) = Inr (?lab, ?t2)"
      unfolding cron_step.simps Let_def t1_def [symmetric]
      using False by (simp add: field_bit_0 time_month_def [of t] x(1))
    ultimately show ?thesis using tr(3) by (intro cron_progress_Inr)
  qed
qed


lemma cron_step_days:
  assumes "stop_point off s yl (time_sec t0) B" "lo \<le> B" "time_sec t0 \<le> hi"
    and inv: "cron_inv loc off s yl t0 B (Days, t)"
  shows "cron_progress s yl t0 orig B (Days, t)"
proof -
  let ?x = "time_sec t + off"
  let ?c = "day_start ?x"
  note x = inv_local_sec [OF inv assms(2,3)]
  have yl: "yl \<le> l_year ?x" and mo: "bit (spMonth s) (nat (l_month ?x))"
    using x(3) by (simp_all add: passed_def)
  show ?thesis
  proof (cases "day_ok s ?x")
    case True
    then have p: "passed s yl Hours ?x" using yl mo by (simp add: passed_def)
    show ?thesis
      using True by (intro cron_progress_Inr [OF _ cron_inv_advanced [OF inv p]])
        (simp_all add: dayMatches_day_ok x)
  next
    case False
    define t1 where "t1 = time_date (time_year t) (time_month t) (time_day t) 0 0 0 (locOf t)"
    note c = day_start_le [of ?x]
    have nm: "yl \<le> l_year z \<and> \<not> cron_matches s z" if "?c \<le> z" "z \<le> ?x" for z
      using same_day [OF that] False yl by (simp add: cron_matches_def day_ok_def)
    have t1: "t1 = \<lparr>instant = (?c - off) * nano, locOf = loc\<rparr>" if "lo \<le> ?c - off" "?c - off \<le> hi"
      unfolding t1_def x time_year_def time_month_def time_day_def
      by (rule window_date [OF that]) (simp add: day_start_def)
    note tr = window_truncate [OF assms(1-3) inv c nm t1]
    let ?t2 = "back_one_second t1"
    let ?lab = "if time_day t1 = 1 then WRAP else Days"
    have d1: "time_day t1 = l_day ?x"
      using same_day(3) [OF order_refl c] by (simp add: time_day_def tr(1))
    have "passed s yl ?lab (?c - 1)"
      using before_day [of ?x] yl mo by (auto simp: passed_def d1)
    moreover have "cron_step s yl orig (Days, t) = Inr (?lab, ?t2)"
      unfolding cron_step.simps Let_def t1_def [symmetric]
      using False by (simp add: dayMatches_day_ok x(1))
    ultimately show ?thesis using tr(3) by (intro cron_progress_Inr)
  qed
qed

lemma cron_step_hours:
  assumes "stop_point off s yl (time_sec t0) B" "lo \<le> B" "time_sec t0 \<le> hi"
    and inv: "cron_inv loc off s yl t0 B (Hours, t)"
  shows "cron_progress s yl t0 orig B (Hours, t)"
proof -
  let ?x = "time_sec t + off"
  let ?c = "hour_start ?x"
  note x = inv_local_sec [OF inv assms(2,3)]
  have yl: "yl \<le> l_year ?x" and mo: "bit (spMonth s) (nat (l_month ?x))" and da: "day_ok s ?x"
    using x(3) by (simp_all add: passed_def)
  show ?thesis
  proof (cases "bit (spHour s) (nat (l_hour ?x))")
    case True
    then have p: "passed s yl Minutes ?x" using yl mo da by (simp add: passed_def)
    show ?thesis
      using True by (intro cron_progress_Inr [OF _ cron_inv_advanced [OF inv p]])
        (simp_all add: time_hour_def x field_bit_0)
  next
    case False
    define t1 where
      "t1 = time_date (time_year t) (time_month t) (time_day t) (time_hour t) 0 0 (locOf t)"
    note c = hour_start_le [of ?x]
    have nm: "yl \<le> l_year z \<and> \<not> cron_matches s z" if "?c \<le> z" "z \<le> ?x" for z
      using same_hour [OF that] False yl by (simp add: cron_matches_def)
    have t1: "t1 = \<lparr>instant = (?c - off) * nano, locOf = loc\<rparr>" if "lo \<le> ?c - off" "?c - off \<le> hi"
      unfolding t1_def x time_year_def time_month_def time_day_def time_hour_def
      by (rule window_date [OF that]) (simp add: hour_start_def day_start_def)
    note tr = window_truncate [OF assms(1-3) inv c nm t1]
    let ?t2 = "back_one_second t1"
    let ?lab = "if time_hour ?t2 = 23 then WRAP else Hours"
    have "passed s yl ?lab (?c - 1)"
    proof (cases "l_hour ?x = 0")
      case True
      then show ?thesis using before_hour(1) by (simp add: time_hour_def tr(2))
    next
      case False
      then have d: "day_start ?x \<le> ?c - 1" "?c - 1 \<le> ?x" using before_hour(2) c by auto
      show ?thesis
        using yl mo da by (simp add: passed_def same_day [OF d] day_ok_same_day [OF d])
    qed
    moreover have "cron_step s yl orig (Hours, t) = Inr (?lab, ?t2)"
      unfolding cron_step.simps Let_def t1_def [symmetric]
      using False by (simp add: field_bit_0 time_hour_def [of t] x(1))
    ultimately show ?thesis using tr(3) by (intro cron_progress_Inr)
  qed
qed


lemma offset_minute_start: "minute_start (u + off) - off = minute_start u"
proof -
  have "off = 60 * (off div 60)"
    using offset_minutes div_mult_mod_eq [of off 60] by simp
  then obtain k where "off = 60 * k" by blast
  then show ?thesis by (simp add: minute_start_def algebra_simps)
qed

lemma truncate_minute:
  "time_truncate t (60 * nano) = \<lparr>instant = minute_start (time_sec t) * nano, locOf = locOf t\<rparr>"
proof -
  have "instant t div nano div 60 = instant t div (nano * 60)"
    by (rule zdiv_zmult2_eq [symmetric]) simp
  then have "instant t - instant t mod (60 * nano) = minute_start (time_sec t) * nano"
    by (simp add: minute_start_def time_sec_def minus_mod_eq_mult_div)
  then show ?thesis by (simp add: time_truncate_def)
qed

lemma truncate_second: "time_truncate t nano = \<lparr>instant = time_sec t * nano, locOf = locOf t\<rparr>"
  by (simp add: time_truncate_def time_sec_def minus_mod_eq_mult_div)

lemma cron_step_minutes:
  assumes "stop_point off s yl (time_sec t0) B" "lo \<le> B" "time_sec t0 \<le> hi"
    and inv: "cron_inv loc off s yl t0 B (Minutes, t)"
  shows "cron_progress s yl t0 orig B (Minutes, t)"
proof -
  let ?x = "time_sec t + off"
  let ?c = "minute_start ?x"
  note x = inv_local_sec [OF inv assms(2,3)]
  have yl: "yl \<le> l_year ?x" and mo: "bit (spMonth s) (nat (l_month ?x))" and da: "day_ok s ?x"
    and ho: "bit (spHour s) (nat (l_hour ?x))"
    using x(3) by (simp_all add: passed_def)
  show ?thesis
  proof (cases "bit (spMinute s) (nat (l_minute ?x))")
    case True
    then have p: "passed s yl Seconds ?x" using yl mo da ho by (simp add: passed_def)
    show ?thesis
      using True by (intro cron_progress_Inr [OF _ cron_inv_advanced [OF inv p]])
        (simp_all add: time_minute_def x field_bit_0)
  next
    case False
    define t1 where "t1 = time_truncate t (60 * nano)"
    note c = minute_start_le [of ?x]
    have nm: "yl \<le> l_year z \<and> \<not> cron_matches s z" if "?c \<le> z" "z \<le> ?x" for z
      using same_minute [OF that] False yl by (simp add: cron_matches_def)
    have t1: "t1 = \<lparr>instant = (?c - off) * nano, locOf = loc\<rparr>"
      unfolding t1_def truncate_minute x(2) offset_minute_start by (rule refl)
    note tr = window_truncate [OF assms(1-3) inv c nm t1]
    let ?t2 = "back_one_second t1"
    let ?lab = "if time_minute ?t2 = 59 then WRAP else Minutes"
    have "passed s yl ?lab (?c - 1)"
    proof (cases "l_minute ?x = 0")
      case True
      then show ?thesis using before_minute(1) by (simp add: time_minute_def tr(2))
    next
      case False
      then have d: "hour_start ?x \<le> ?c - 1" "?c - 1 \<le> ?x" using before_minute(2) c by auto
      have e: "day_start ?x \<le> ?c - 1" using d(1) hour_bounds(1) [of ?x] by (simp add: hour_start_def)
      show ?thesis
        using yl mo da ho by (simp add: passed_def same_hour [OF d] day_ok_same_day [OF e d(2)])
    qed
    moreover have "cron_step s yl orig (Minutes, t) = Inr (?lab, ?t2)"
      unfolding cron_step.simps Let_def t1_def [symmetric]
      using False by (simp add: field_bit_0 time_minute_def [of t] x(1))
    ultimately show ?thesis using tr(3) by (intro cron_progress_Inr)
  qed
qed

lemma cron_step_seconds:
  assumes "stop_point off s yl (time_sec t0) B" "lo \<le> B" "time_sec t0 \<le> hi"
    and inv: "cron_inv loc off s yl t0 B (Seconds, t)"
  shows "cron_progress s yl t0 orig B (Seconds, t)"
proof -
  let ?x = "time_sec t + off"
  note x = inv_local_sec [OF inv assms(2,3)]
  have yl: "yl \<le> l_year ?x" and mo: "bit (spMonth s) (nat (l_month ?x))" and da: "day_ok s ?x"
    and ho: "bit (spHour s) (nat (l_hour ?x))" and mi: "bit (spMinute s) (nat (l_minute ?x))"
    using x(3) by (simp_all add: passed_def)
  show ?thesis
  proof (cases "bit (spSecond s) (nat (l_second ?x))")
    case True
    then have "cron_matches s ?x" using mo da ho mi by (simp add: cron_matches_def)
    then have "cron_result off yl t0 orig B (time_in t orig)"
      using cron_finished [OF assms(1) inv] yl
      by (auto simp: cron_result_def time_in_def intro: gotime.equality)
    with True show ?thesis
      by (intro cron_progress_Inl) (simp_all add: time_second_def x field_bit_0)
  next
    case False
    define t1 where "t1 = time_truncate t nano"
    have nm: "yl \<le> l_year z \<and> \<not> cron_matches s z" if "?x \<le> z" "z \<le> ?x" for z
      using that False yl by (simp add: cron_matches_def)
    have t1: "t1 = \<lparr>instant = (?x - off) * nano, locOf = loc\<rparr>"
      unfolding t1_def truncate_second x(2) by simp
    note tr = window_truncate [OF assms(1-3) inv order_refl nm t1]
    let ?t2 = "back_one_second t1"
    let ?lab = "if time_second ?t2 = 59 then WRAP else Seconds"
    have "passed s yl ?lab (?x - 1)"
    proof (cases "l_second ?x = 0")
      case True
      then show ?thesis using before_second(1) by (simp add: time_second_def tr(2))
    next
      case False
      then have d: "minute_start ?x \<le> ?x - 1" "?x - 1 \<le> ?x" using before_second(2) by auto
      have e: "day_start ?x \<le> ?x - 1"
        using d(1) hour_bounds(1) [of ?x] minute_bounds(1) [of ?x]
        by (simp add: hour_start_def minute_start_hour)
      show ?thesis
        using yl mo da ho mi by (simp add: passed_def same_minute [OF d] day_ok_same_day [OF e d(2)])
    qed
    moreover have "cron_step s yl orig (Seconds, t) = Inr (?lab, ?t2)"
      unfolding cron_step.simps Let_def t1_def [symmetric]
      using False by (simp add: field_bit_0 time_second_def [of t] x(1))
    ultimately show ?thesis using tr(3) by (intro cron_progress_Inr)
  qed
qed

lemma cron_run_window:
  assumes "stop_point off s yl (time_sec t) B" "lo \<le> B" "time_sec t \<le> hi" "locOf t = loc"
  shows "\<exists>r. cron_run s yl orig (WRAP, t) = Some r \<and> cron_result off yl t orig B r"
proof (rule cron_loop.run_total [where R = "cron_order B" and I = "cron_inv loc off s yl t B"])
  show "wf (cron_order B)" by (simp add: cron_order_def)
  show "cron_inv loc off s yl t B (WRAP, t)"
    using assms(1,4) by (simp add: cron_inv_def stop_point_def)
next
  fix st
  assume inv: "cron_inv loc off s yl t B st"
  obtain lab u where st: "st = (lab, u)" by (cases st)
  have "cron_progress s yl t orig B st"
    using inv cron_step_wrap [OF assms(1-3)] cron_step_months [OF assms(1-3)]
      cron_step_days [OF assms(1-3)] cron_step_hours [OF assms(1-3)]
      cron_step_minutes [OF assms(1-3)] cron_step_seconds [OF assms(1-3)]
    unfolding st by (cases lab) blast+
  then show "(\<exists>r. cron_step s yl orig st = Inl r \<and> cron_result off yl t orig B r) \<or>
    (\<exists>st'. cron_step s yl orig st = Inr st' \<and> cron_inv loc off s yl t B st' \<and> (st', st) \<in> cron_order B)"
    by (simp add: cron_progress_def)
qed

end

section \<open>Activations found\<close>

definition latest_match :: "int \<Rightarrow> spec_schedule \<Rightarrow> int \<Rightarrow> int \<Rightarrow> int \<Rightarrow> bool" where
  "latest_match off s yl T B \<longleftrightarrow>
     B \<le> T \<and> yl \<le> l_year (B + off) \<and> cron_matches s (B + off)
     \<and> (\<forall>x. B < x \<and> x \<le> T \<longrightarrow> \<not> cron_matches s (x + off))"

lemma stop_point_exists:
  assumes "L \<le> T" "l_year (L + off) < yl \<or> cron_matches s (L + off)"
  obtains B where "L \<le> B" "stop_point off s yl T B"
proof -
  let ?A = "{x. L \<le> x \<and> x \<le> T \<and> (l_year (x + off) < yl \<or> cron_matches s (x + off))}"
  have "?A \<subseteq> {L..T}" by auto
  then have fin: "finite ?A" by (rule finite_subset) simp
  have "L \<in> ?A" using assms by simp
  then have ne: "?A \<noteq> {}" by blast
  define B where "B = Max ?A"
  have in_A: "B \<in> ?A" unfolding B_def using fin ne by (rule Max_in)
  have "yl \<le> l_year (x + off) \<and> \<not> cron_matches s (x + off)" if "B < x" "x \<le> T" for x
  proof (rule ccontr)
    assume "\<not> ?thesis"
    then have "x \<in> ?A" using that in_A by auto
    then have "x \<le> B" unfolding B_def by (rule Max_ge [OF fin])
    then show False using that by simp
  qed
  then have "stop_point off s yl T B" using in_A by (auto simp: stop_point_def)
  then show ?thesis using that in_A by blast
qed

lemma year_start_exists: "\<exists>L \<le> T. l_year (L + off) < yl"
proof -
  define L where "L = min T (days_before_year yl * 86400 - off - 1)"
  have "L + off \<le> days_before_year yl * 86400 - 1" by (simp add: L_def)
  then have "(L + off) div 86400 \<le> (days_before_year yl * 86400 - 1) div 86400"
    by (rule zdiv_mono1) simp
  also have "\<dots> = days_before_year yl - 1"
    by (rule int_div_eqI [of _ _ _ 86399]) simp_all
  finally have "(L + off) div 86400 < days_before_year yl" by simp
  then have "l_year (L + off) < yl"
    using year_yday [of "L + off"] days_before_year_mono [of yl "l_year (L + off)"] by linarith
  then show ?thesis by (intro exI [of _ L]) (simp add: L_def)
qed

lemma stop_point_latest:
  assumes "stop_point off s yl T B" "yl \<le> l_year (B + off)"
  shows "latest_match off s yl T B"
  using assms by (auto simp: stop_point_def latest_match_def)

lemma cronPrev_unfold:
  assumes "\<not> locIsLocal (spLocation s)"
  shows "cronPrev s t = cron_run s (time_year (time_in t (spLocation s)) - 5) (locOf t)
    (WRAP, time_in t (spLocation s))"
  using assms by (simp add: cronPrev_def Let_def)

lemma time_sec_in [simp]: "time_sec (time_in t l) = time_sec t"
  by (simp add: time_sec_def)

lemma cronPrev_stop:
  assumes "zone_window (spLocation s) off lo hi" "\<not> locIsLocal (spLocation s)"
    and "lo \<le> B" "time_sec t \<le> hi" "stop_point off s (l_year (time_sec t + off) - 5) (time_sec t) B"
  shows "\<exists>r. cronPrev s t = Some r \<and> cron_result off (l_year (time_sec t + off) - 5) t (locOf t) B r"
proof -
  let ?t = "time_in t (spLocation s)" and ?yl = "l_year (time_sec t + off) - 5"
  have "B \<le> time_sec t" using assms(5) by (simp add: stop_point_def)
  then have "local_sec ?t = time_sec t + off"
    using zone_window.window_local_sec [OF assms(1), of ?t] assms(3,4) by simp
  then have yl: "time_year ?t - 5 = ?yl" by (simp add: time_year_def)
  have "\<exists>r. cron_run s ?yl (locOf t) (WRAP, ?t) = Some r \<and> cron_result off ?yl ?t (locOf t) B r"
    by (rule zone_window.cron_run_window [OF assms(1)]) (use assms(3-5) in simp_all)
  then show ?thesis by (simp add: cronPrev_unfold [OF assms(2)] yl cron_result_def)
qed

lemma zone_window_fixed:
  "\<bar>off\<bar> \<le> 86400 \<Longrightarrow> off mod 60 = 0 \<Longrightarrow> zone_window (fixed_zone name off) off lo hi"
  by unfold_locales simp_all

interpretation utc: zone_window UTC 0 lo hi for lo hi
  unfolding UTC_def by (rule zone_window_fixed) simp_all

lemma cronPrev_fixed:
  assumes "spLocation s = fixed_zone name off" "\<bar>off\<bar> \<le> 86400" "off mod 60 = 0"
  shows "(\<exists>B. latest_match off s (l_year (time_sec t + off) - 5) (time_sec t) B
      \<and> cronPrev s t =
          Some \<lparr>instant = (if B = time_sec t then instant t else B * nano), locOf = locOf t\<rparr>)
    \<or> (\<nexists>B. latest_match off s (l_year (time_sec t + off) - 5) (time_sec t) B)
      \<and> cronPrev s t = Some zero_time"
proof -
  let ?yl = "l_year (time_sec t + off) - 5"
  obtain L where L: "L \<le> time_sec t" "l_year (L + off) < ?yl"
    using year_start_exists [of "time_sec t" off ?yl] by blast
  obtain B where B: "L \<le> B" "stop_point off s ?yl (time_sec t) B"
    using L by (rule stop_point_exists [OF _ disjI1])
  have w: "zone_window (spLocation s) off L (time_sec t)"
    unfolding assms(1) using assms(2,3) by (rule zone_window_fixed)
  have "\<not> locIsLocal (spLocation s)" by (simp add: assms(1) fixed_zone_def)
  then obtain r where r: "cronPrev s t = Some r" "cron_result off ?yl t (locOf t) B r"
    using cronPrev_stop [OF w _ B(1) order_refl B(2)] by blast
  show ?thesis
  proof (cases "?yl \<le> l_year (B + off)")
    case True
    then show ?thesis
      using r stop_point_latest [OF B(2) True] by (auto simp: cron_result_def)
  next
    case False
    have "\<not> latest_match off s ?yl (time_sec t) B'" for B'
    proof
      assume B': "latest_match off s ?yl (time_sec t) B'"
      then have "B < B'"
        using False l_year_mono [of "B' + off" "B + off"] by (force simp: latest_match_def)
      then show False using B(2) B' by (auto simp: stop_point_def latest_match_def)
    qed
    then show ?thesis using r False by (auto simp: cron_result_def)
  qed
qed

text \<open>
  C10: In a zone with a fixed offset (UTC among them; any number of whole minutes up to a
  day) \<open>cronPrev\<close> always returns, whatever the schedule and the time. The result is the
  latest second at or before \<open>t\<close> that activates the schedule, in the location of \<open>t\<close>,
  if there is one in the year of \<open>t\<close> or the five years before it, and the zero time
  otherwise. If that second is the second of \<open>t\<close> itself, the result is \<open>t\<close> with its
  fraction of a second.
\<close>

theorem cronPrev_fixed_zone:
  assumes "spLocation s = fixed_zone name off" "\<bar>off\<bar> \<le> 86400" "off mod 60 = 0"
  shows "(\<exists>B. latest_match off s (l_year (time_sec t + off) - 5) (time_sec t) B
      \<and> cronPrev s t =
          Some \<lparr>instant = (if B = time_sec t then instant t else B * nano), locOf = locOf t\<rparr>)
    \<or> (\<nexists>B. latest_match off s (l_year (time_sec t + off) - 5) (time_sec t) B)
      \<and> cronPrev s t = Some zero_time"
  using assms by (rule cronPrev_fixed)

section \<open>Zones with transitions\<close>

text \<open>
  The tz data of Berlin around the changes of 2022, and schedules as the cron
  parser returns them: \<open>daily_at h\<close> for \<^verbatim>\<open>0 h * * *\<close>.
\<close>

definition berlin_zone :: location where
  "berlin_zone = \<lparr>locName = ''Europe/Berlin'', locIsLocal = False, locBase = 3600,
     locTx = [(1648342800, 7200), (1667091600, 3600), (1679792400, 7200)]\<rparr>"

definition utc_at :: "int \<Rightarrow> gotime" where
  "utc_at unix = \<lparr>instant = (unix + unix_epoch) * nano, locOf = UTC\<rparr>"

definition daily_at :: "nat \<Rightarrow> location \<Rightarrow> spec_schedule" where
  "daily_at h l = \<lparr>spSecond = 1, spMinute = 1, spHour = push_bit h 1, spDom = star_bit + 4294967294,
     spMonth = star_bit + 8190, spDow = star_bit + 127, spLocation = l\<rparr>"

text \<open>
  The fixed-offset theorem half a second after 17:00:00 UTC of 9 July 2022, for a daily
  17:00 schedule: the result is that instant, not 17:00:00.
\<close>

theorem cronPrev_fixed_zone_witness:
  "cronPrev (daily_at 17 (fixed_zone ''UTC'' 0))
      \<lparr>instant = (1657386000 + unix_epoch) * nano + 500000000, locOf = UTC\<rparr>
    = Some \<lparr>instant = (1657386000 + unix_epoch) * nano + 500000000, locOf = UTC\<rparr>"
proof -
  let ?s = "daily_at 17 (fixed_zone ''UTC'' 0)"
  let ?t = "\<lparr>instant = (1657386000 + unix_epoch) * nano + 500000000, locOf = UTC\<rparr>"
  have m: "cron_matches ?s (time_sec ?t + 0)" by code_simp
  then have "B = time_sec ?t" if "latest_match 0 ?s yl (time_sec ?t) B" for B yl
    using that by (force simp: latest_match_def)
  moreover have "latest_match 0 ?s (l_year (time_sec ?t + 0) - 5) (time_sec ?t) (time_sec ?t)"
    using m unfolding latest_match_def by auto
  ultimately show ?thesis
    using cronPrev_fixed_zone [of ?s "''UTC''" 0 ?t] by (auto simp: daily_at_def)
qed

text \<open>
  C21: Any zone. If the offset of the zone is constant on a stretch of time (and for a day
  before and after it) that holds both \<open>t\<close> and some activation \<open>m\<close> at or before \<open>t\<close>, and
  \<open>m\<close> is not before the year limit, then \<open>cronPrev\<close> returns the latest activation at or
  before \<open>t\<close>: transitions of the zone outside the stretch do not matter.
\<close>

theorem cronPrev_in_window:
  assumes "\<not> locIsLocal (spLocation s)"
    and "\<forall>x. lo - 86400 \<le> x \<and> x \<le> hi + 86400 \<longrightarrow> zone_offset (spLocation s) (x - unix_epoch) = off"
    and "\<bar>off\<bar> \<le> 86400" "off mod 60 = 0"
    and "lo \<le> m" "m \<le> time_sec t" "time_sec t \<le> hi"
    and "cron_matches s (m + off)" "l_year (time_sec t + off) - 5 \<le> l_year (m + off)"
  shows "\<exists>B. m \<le> B \<and> latest_match off s (l_year (time_sec t + off) - 5) (time_sec t) B
    \<and> cronPrev s t =
        Some \<lparr>instant = (if B = time_sec t then instant t else B * nano), locOf = locOf t\<rparr>"
proof -
  let ?yl = "l_year (time_sec t + off) - 5"
  have w: "zone_window (spLocation s) off lo hi"
    by unfold_locales (use assms(2-4) in auto)
  obtain B where B: "m \<le> B" "stop_point off s ?yl (time_sec t) B"
    using assms(6,8) by (rule stop_point_exists [OF _ disjI2])
  have yl: "?yl \<le> l_year (B + off)"
    using assms(9) l_year_mono [of "m + off" "B + off"] B(1) by simp
  obtain r where r: "cronPrev s t = Some r" "cron_result off ?yl t (locOf t) B r"
    using cronPrev_stop [OF w assms(1) _ assms(7) B(2)] assms(5) B(1) by auto
  show ?thesis
    using r yl B(1) stop_point_latest [OF B(2) yl] by (auto simp: cron_result_def)
qed

text \<open>Summer time in Berlin, 10 July 2022: the window runs from 1 to 20 July.\<close>

theorem cronPrev_in_window_witness:
  "\<exists>B. 1657378800 + unix_epoch \<le> B
    \<and> latest_match 7200 (daily_at 17 berlin_zone)
        (l_year (time_sec (utc_at 1657440000) + 7200) - 5) (time_sec (utc_at 1657440000)) B
    \<and> cronPrev (daily_at 17 berlin_zone) (utc_at 1657440000) =
        Some \<lparr>instant = (if B = time_sec (utc_at 1657440000) then instant (utc_at 1657440000)
                         else B * nano), locOf = locOf (utc_at 1657440000)\<rparr>"
proof (rule cronPrev_in_window [where lo = "1656633600 + unix_epoch" and hi = "1658275200 + unix_epoch"])
  show "\<not> locIsLocal (spLocation (daily_at 17 berlin_zone))" by code_simp
  show "\<forall>x. 1656633600 + unix_epoch - 86400 \<le> x \<and> x \<le> 1658275200 + unix_epoch + 86400
    \<longrightarrow> zone_offset (spLocation (daily_at 17 berlin_zone)) (x - unix_epoch) = 7200"
    by (simp add: daily_at_def zone_offset_def locLookup_def berlin_zone_def)
  show "cron_matches (daily_at 17 berlin_zone) (1657378800 + unix_epoch + 7200)" by code_simp
  show "l_year (time_sec (utc_at 1657440000) + 7200) - 5 \<le> l_year (1657378800 + unix_epoch + 7200)"
    by code_simp
qed (simp_all add: utc_at_def time_sec_def)

text \<open>
  Where the search does not end. If control is at the hour loop with an hour that is
  not scheduled, and one second before the start of this hour (as \<^verbatim>\<open>Date\<close> computes it) the
  wall clock again shows the same day and hour, \<open>cronPrev\<close> loops forever. This is what
  happens in every zone in which \<^verbatim>\<open>Date\<close> resolves a repeated hour to its second occurrence.
\<close>

theorem cron_hours_stuck:
  assumes "field_bit (time_hour t) (spHour s) = 0" "time_hour t \<noteq> 23"
    and t2: "t2 = back_one_second (time_date (time_year t) (time_month t) (time_day t) (time_hour t) 0 0 (locOf t))"
    and "time_year t2 = time_year t" "time_month t2 = time_month t" "time_day t2 = time_day t"
      "time_hour t2 = time_hour t"
  shows "cron_run s yl orig (Hours, t) = None"
proof -
  have l: "locOf t2 = locOf t" by (simp add: t2 time_date_def Let_def)
  have step: "cron_step s yl orig (Hours, u) = Inr (Hours, t2)"
    if "time_year u = time_year t" "time_month u = time_month t" "time_day u = time_day t"
      "time_hour u = time_hour t" "locOf u = locOf t" for u
    unfolding cron_step.simps Let_def that t2 [symmetric] using assms(1,2,7) by simp
  show ?thesis
    by (rule cron_loop.run_stuck [where C = "\<lambda>st. st = (Hours, t) \<or> st = (Hours, t2)"])
      (use step [OF refl refl refl refl refl] step [OF assms(4-7) l] in auto)
qed

text \<open>At 02:30 CEST of 30 October 2022, in the first of the two hours.\<close>

theorem cron_hours_stuck_witness:
  "cron_run (daily_at 17 berlin_zone) 2017 UTC (Hours, time_in (utc_at 1667089800) berlin_zone) = None"
  by (rule cron_hours_stuck [OF _ _ refl]) code_simp+

text \<open>
  C35: The operator hangs at the end of summer time. On 30 October 2022 at 10:00 in
  Europe/Berlin (09:00 UTC), the search for the last activation of a daily 17:00 event never
  returns: it reaches 02:59:59 CEST, the last second of the first of two hours that read
  02, \<^verbatim>\<open>Date(2022, 10, 30, 2, 0, 0)\<close> is the start of the second one, and one second before
  it is 02:59:59 CEST again.
\<close>

theorem cronPrev_hangs: "cronPrev (daily_at 17 berlin_zone) (utc_at 1667120400) = None"
proof -
  let ?s = "daily_at 17 berlin_zone"
  let ?stuck = "\<lparr>instant = (1667091599 + unix_epoch) * nano, locOf = berlin_zone\<rparr>"
  have "iterate (cron_step ?s 2017 UTC) 12 (WRAP, time_in (utc_at 1667120400) berlin_zone)
      = Inr (Hours, ?stuck)"
    by code_simp
  then have "cron_run ?s 2017 UTC (WRAP, time_in (utc_at 1667120400) berlin_zone)
      = cron_run ?s 2017 UTC (Hours, ?stuck)"
    by (rule cron_loop.run_iterate)
  also have "\<dots> = None" by (rule cron_loop.run_stuck [where C = "\<lambda>st. st = (Hours, ?stuck)"]) (simp_all, code_simp)
  finally have *: "cron_run ?s 2017 UTC (WRAP, time_in (utc_at 1667120400) berlin_zone) = None" .
  have "time_year (time_in (utc_at 1667120400) berlin_zone) - 5 = 2017" by code_simp
  moreover have "spLocation ?s = berlin_zone" "locOf (utc_at 1667120400) = UTC"
    by (simp_all add: daily_at_def utc_at_def)
  moreover have "\<not> locIsLocal berlin_zone" by code_simp
  ultimately show ?thesis using * cronPrev_unfold [of ?s "utc_at 1667120400"] by simp
qed

end
