(* ===== verification/ApiTypes.thy ===== *)
theory ApiTypes
  imports GoTime
begin

text \<open>
  \<^verbatim>\<open>api/v1/controlledjob_types.go\<close> and \<^verbatim>\<open>api/v1/helpers.go\<close>: the ControlledJob resource, the cron
  expression of an event, and the condition list of the status. Pointers are options, string
  enums are strings with named constants, maps are partial maps. The parts of a job template
  that the program never looks into are the type parameter \<open>'p\<close> (the job spec but for its
  suspend flag) and \<open>jtOther\<close> (template metadata other than labels and annotations).
  Strings are lists of bytes.
\<close>

section \<open>Types\<close>

type_synonym EventType = string

abbreviation EventTypeStart :: EventType where "EventTypeStart \<equiv> ''start''"
abbreviation EventTypeStop :: EventType where "EventTypeStop \<equiv> ''stop''"
abbreviation EventTypeRestart :: EventType where "EventTypeRestart \<equiv> ''restart''"
abbreviation IgnoreSpecChangePolicy :: string where "IgnoreSpecChangePolicy \<equiv> ''Ignore''"
abbreviation RecreateSpecChangePolicy :: string where "RecreateSpecChangePolicy \<equiv> ''Recreate''"

record timezone_spec =
  tzName :: string
  tzOffsetSeconds :: "32 word"

record friendly_schedule_spec =
  fsTimeOfDay :: string
  fsDaysOfWeek :: string

record event_spec =
  esAction :: EventType
  esCronSchedule :: string
  esSchedule :: "friendly_schedule_spec option"

record 'p job_spec =
  jsSuspend :: "bool option"
  jsRest :: 'p

record 'p job_template_spec =
  jtLabels :: "string \<rightharpoonup> string"
  jtAnnotations :: "string \<rightharpoonup> string"
  jtOther :: string
  jtSpec :: "'p job_spec"

record 'p controlled_job_spec =
  csTimezone :: timezone_spec
  csEvents :: "event_spec list"
  csJobTemplate :: "'p job_template_spec"
  csStartingDeadlineSeconds :: "64 word option"
  csSpecChangePolicy :: string
  csSuspend :: "bool option"

datatype condition_status = ConditionTrue | ConditionFalse | ConditionUnknown

record condition =
  condType :: string
  condStatus :: condition_status
  condLastTransitionTime :: gotime
  condObservedGeneration :: "64 word"
  condReason :: string
  condMessage :: string

record action_history_entry =
  ahType :: string
  ahTimestamp :: "gotime option"
  ahMessage :: string
  ahScheduledStartTime :: "gotime option"
  ahJobIndex :: "64 word option"
  ahJobName :: string

record object_reference =
  refName :: string
  refNamespace :: string
  refUID :: string

record controlled_job_status =
  stActive :: "object_reference list"
  stLastScheduledStartTime :: "gotime option"
  stShouldBeRunning :: "bool option"
  stIsRunning :: "bool option"
  stIsSuspended :: "bool option"
  stMostRecentAction :: "action_history_entry option"
  stActionHistory :: "action_history_entry list"
  stConditions :: "condition list"

record 'p controlled_job =
  cjName :: string
  cjNamespace :: string
  cjUID :: string
  cjGeneration :: "64 word"
  cjAnnotations :: "string \<rightharpoonup> string"
  cjSpec :: "'p controlled_job_spec"
  cjStatus :: controlled_job_status

text \<open>The condition types the operator sets.\<close>

type_synonym condition_type = string

abbreviation ConditionTypeShouldBeRunning :: condition_type where
  "ConditionTypeShouldBeRunning \<equiv> ''ShouldBeRunning''"
abbreviation ConditionTypeSuspended :: condition_type where
  "ConditionTypeSuspended \<equiv> ''Suspended''"
abbreviation ConditionTypeOutOfDate :: condition_type where
  "ConditionTypeOutOfDate \<equiv> ''OutOfDate''"
abbreviation ConditionTypeJobManuallyScheduled :: condition_type where
  "ConditionTypeJobManuallyScheduled \<equiv> ''JobManuallyScheduled''"
abbreviation ConditionTypeJobExists :: condition_type where
  "ConditionTypeJobExists \<equiv> ''JobExists''"
abbreviation ConditionTypeJobRunning :: condition_type where
  "ConditionTypeJobRunning \<equiv> ''JobRunning''"
abbreviation ConditionTypeJobComplete :: condition_type where
  "ConditionTypeJobComplete \<equiv> ''JobComplete''"
abbreviation ConditionTypeJobFailed :: condition_type where
  "ConditionTypeJobFailed \<equiv> ''JobFailed''"
abbreviation ConditionTypeJobBeingDeleted :: condition_type where
  "ConditionTypeJobBeingDeleted \<equiv> ''JobBeingDeleted''"
abbreviation ConditionTypeJobSuspended :: condition_type where
  "ConditionTypeJobSuspended \<equiv> ''JobSuspended''"
abbreviation ConditionTypeJobStoppedByUser :: condition_type where
  "ConditionTypeJobStoppedByUser \<equiv> ''JobStoppedByUser''"
abbreviation ConditionTypeFailedToCreateJob :: condition_type where
  "ConditionTypeFailedToCreateJob \<equiv> ''FailedToCreateJob''"
abbreviation ConditionTypeFailedToSuspendJob :: condition_type where
  "ConditionTypeFailedToSuspendJob \<equiv> ''FailedToSuspendJob''"
abbreviation ConditionTypeFailedToUnsuspendJob :: condition_type where
  "ConditionTypeFailedToUnsuspendJob \<equiv> ''FailedToUnsuspendJob''"
abbreviation ConditionTypeFailedToDeleteJob :: condition_type where
  "ConditionTypeFailedToDeleteJob \<equiv> ''FailedToDeleteJob''"
abbreviation ConditionTypeStartingDeadlineExceeded :: condition_type where
  "ConditionTypeStartingDeadlineExceeded \<equiv> ''StartingDeadlineExceeded''"
abbreviation ConditionTypeRunningExpectedly :: condition_type where
  "ConditionTypeRunningExpectedly \<equiv> ''RunningExpectedly''"
abbreviation ConditionTypeRunningUnexpectedly :: condition_type where
  "ConditionTypeRunningUnexpectedly \<equiv> ''RunningUnexpectedly''"
abbreviation ConditionTypeNotRunningExpectedly :: condition_type where
  "ConditionTypeNotRunningExpectedly \<equiv> ''NotRunningExpectedly''"
abbreviation ConditionTypeNotRunningUnexpectedly :: condition_type where
  "ConditionTypeNotRunningUnexpectedly \<equiv> ''NotRunningUnexpectedly''"
abbreviation ConditionTypeError :: condition_type where
  "ConditionTypeError \<equiv> ''Error''"

section \<open>The cron expression of an event\<close>

text \<open>
  The two regular expressions of \<^verbatim>\<open>AsCronSpec\<close> as recognisers: \<open>timeOfDayMatches\<close> returns the
  two subexpressions of \<^verbatim>\<open>^(\d{2}):(\d{2})$\<close>, \<open>daysOfWeekMatches\<close> decides the other one, a list
  of one to seven three-letter names or a range of two.
\<close>

definition is_digit :: "char \<Rightarrow> bool" where
  "is_digit c \<longleftrightarrow> (48::nat) \<le> of_char c \<and> of_char c \<le> (57::nat)"

definition is_alpha :: "char \<Rightarrow> bool" where
  "is_alpha c \<longleftrightarrow> ((65::nat) \<le> of_char c \<and> of_char c \<le> (90::nat)) \<or> ((97::nat) \<le> of_char c \<and> of_char c \<le> (122::nat))"

definition timeOfDayMatches :: "string \<Rightarrow> (string \<times> string) option" where
  "timeOfDayMatches s =
     (case s of [a, b, c, d, e] \<Rightarrow>
        (if is_digit a \<and> is_digit b \<and> c = CHR '':'' \<and> is_digit d \<and> is_digit e
         then Some ([a, b], [d, e]) else None)
      | _ \<Rightarrow> None)"

fun dayNames :: "nat \<Rightarrow> string \<Rightarrow> bool" where
  "dayNames n (a # b # c # s) =
     (is_alpha a \<and> is_alpha b \<and> is_alpha c \<and>
      (s = [] \<or> (case n of 0 \<Rightarrow> False | Suc k \<Rightarrow>
         (case s of [] \<Rightarrow> False | x # s' \<Rightarrow> x = CHR '','' \<and> dayNames k s'))))"
| "dayNames n s = False"

definition daysOfWeekMatches :: "string \<Rightarrow> bool" where
  "daysOfWeekMatches s \<longleftrightarrow>
     dayNames 6 s \<or>
     (length s = 7 \<and> s ! 3 = CHR ''-'' \<and> list_all is_alpha (take 3 s) \<and> list_all is_alpha (drop 4 s))"

definition AsCronSpec :: "event_spec \<Rightarrow> string outcome" where
  "AsCronSpec e =
     (if esCronSchedule e \<noteq> [] then Ok (esCronSchedule e)
      else case esSchedule e of
        None \<Rightarrow> Panic
      | Some fs \<Rightarrow>
          if fsTimeOfDay fs = [] \<or> fsDaysOfWeek fs = []
          then Err (GoErr ''must specify either cronSchedule or schedule'')
          else case timeOfDayMatches (fsTimeOfDay fs) of
            None \<Rightarrow> Err (GoErr ''timeOfDay must be in the format hh:mm'')
          | Some (hh, mm) \<Rightarrow>
              if \<not> daysOfWeekMatches (fsDaysOfWeek fs)
              then Err (GoErr ''daysOfWeek must be in the format MON-FRI or SAT,SUN,TUE,WED'')
              else Ok (mm @ '' '' @ hh @ '' * * '' @ fsDaysOfWeek fs))"

section \<open>Conditions\<close>

text \<open>
  \<^verbatim>\<open>SetCondition\<close> reads the wall clock on every call. A run of the operator is given the
  readings it will make, \<open>clock 0\<close>, \<open>clock 1\<close> and so on, and \<open>cjw\<close> is the ControlledJob
  together with the number of readings made so far.
\<close>

record 'p cjw =
  cj :: "'p controlled_job"
  ticks :: nat

fun update_first :: "('a \<Rightarrow> bool) \<Rightarrow> ('a \<Rightarrow> 'a) \<Rightarrow> 'a list \<Rightarrow> 'a list" where
  "update_first p f [] = []"
| "update_first p f (x # xs) = (if p x then f x # xs else x # update_first p f xs)"

definition FindCondition :: "controlled_job_status \<Rightarrow> condition_type \<Rightarrow> condition option" where
  "FindCondition st ty = find (\<lambda>c. condType c = ty) (stConditions st)"

definition update_condition :: "condition \<Rightarrow> condition \<Rightarrow> condition" where
  "update_condition new old =
     (let old1 = (if condStatus old \<noteq> condStatus new \<or> time_is_zero (condLastTransitionTime old)
                  then old\<lparr>condLastTransitionTime := condLastTransitionTime new,
                           condObservedGeneration := condObservedGeneration new\<rparr>
                  else old)
      in old1\<lparr>condStatus := condStatus new, condReason := condReason new, condMessage := condMessage new\<rparr>)"

definition upd_status :: "(controlled_job_status \<Rightarrow> controlled_job_status) \<Rightarrow> 'p cjw \<Rightarrow> 'p cjw" where
  "upd_status f w = w\<lparr>cj := (cj w)\<lparr>cjStatus := f (cjStatus (cj w))\<rparr>\<rparr>"

definition SetCondition ::
  "(nat \<Rightarrow> gotime) \<Rightarrow> condition_type \<Rightarrow> condition_status \<Rightarrow> string \<Rightarrow> string \<Rightarrow> 'p cjw \<Rightarrow> 'p cjw" where
  "SetCondition clock ty status reason message w =
     (let new = \<lparr>condType = ty, condStatus = status, condLastTransitionTime = clock (ticks w),
                 condObservedGeneration = cjGeneration (cj w), condReason = reason, condMessage = message\<rparr>;
          w1 = w\<lparr>ticks := ticks w + 1\<rparr>
      in case FindCondition (cjStatus (cj w)) ty of
           None \<Rightarrow> upd_status (\<lambda>st. st\<lparr>stConditions := stConditions st @ [new]\<rparr>) w1
         | Some _ \<Rightarrow> upd_status (\<lambda>st. st\<lparr>stConditions :=
             update_first (\<lambda>c. condType c = ty) (update_condition new) (stConditions st)\<rparr>) w1)"

definition SetConditionBasedOnFlag ::
  "(nat \<Rightarrow> gotime) \<Rightarrow> condition_type \<Rightarrow> bool \<Rightarrow> string \<Rightarrow> string \<Rightarrow> string \<Rightarrow> string \<Rightarrow> 'p cjw \<Rightarrow> 'p cjw" where
  "SetConditionBasedOnFlag clock ty flag reasonT messageT reasonF messageF =
     (if flag then SetCondition clock ty ConditionTrue reasonT messageT
      else SetCondition clock ty ConditionFalse reasonF messageF)"

definition StatusAsConditionStatus :: "bool \<Rightarrow> condition_status" where
  "StatusAsConditionStatus flag = (if flag then ConditionTrue else ConditionFalse)"

definition OptionalStatusAsConditionStatus :: "bool option \<Rightarrow> condition_status" where
  "OptionalStatusAsConditionStatus flag =
     (case flag of None \<Rightarrow> ConditionUnknown | Some b \<Rightarrow> StatusAsConditionStatus b)"

definition JobConditionToReason :: "condition_status \<Rightarrow> string \<Rightarrow> string" where
  "JobConditionToReason status prefix =
     (if status = ConditionTrue then prefix @ ''True''
      else if status = ConditionFalse then prefix @ ''False''
      else prefix @ ''Unknown'')"

definition CoerceConditionToBoolen :: "condition option \<Rightarrow> bool" where
  "CoerceConditionToBoolen c =
     (case c of None \<Rightarrow> False | Some c \<Rightarrow> condStatus c = ConditionTrue)"

fun remove_first :: "('a \<Rightarrow> bool) \<Rightarrow> 'a list \<Rightarrow> 'a list" where
  "remove_first p [] = []"
| "remove_first p (x # xs) = (if p x then xs else x # remove_first p xs)"

definition RemoveCondition :: "condition_type \<Rightarrow> 'p cjw \<Rightarrow> 'p cjw" where
  "RemoveCondition ty = upd_status (\<lambda>st. st\<lparr>stConditions :=
     remove_first (\<lambda>c. condType c = ty) (stConditions st)\<rparr>)"

section \<open>Lemmas on conditions\<close>

text \<open>What a reader of the status sees: the status of a type, if it has been set.\<close>

definition cond_of :: "'p cjw \<Rightarrow> condition_type \<Rightarrow> condition option" where
  "cond_of w ty = FindCondition (cjStatus (cj w)) ty"

definition conditions_unique :: "'p cjw \<Rightarrow> bool" where
  "conditions_unique w \<longleftrightarrow> distinct (map condType (stConditions (cjStatus (cj w))))"

lemma find_update_first_same:
  assumes "\<And>x. p (f x) \<longleftrightarrow> p x"
  shows "find p (update_first p f xs) = map_option f (find p xs)"
  by (induction xs) (auto simp: assms)

lemma find_update_first_other:
  assumes "\<And>x. p x \<Longrightarrow> \<not> q x" "\<And>x. q (f x) \<longleftrightarrow> q x"
  shows "find q (update_first p f xs) = find q xs"
  by (induction xs) (auto simp: assms)

lemma map_update_first: "(\<And>x. g (f x) = g x) \<Longrightarrow> map g (update_first p f xs) = map g xs"
  by (induction xs) auto

lemma find_append: "find p (xs @ ys) = (case find p xs of None \<Rightarrow> find p ys | Some x \<Rightarrow> Some x)"
  by (induction xs) auto

lemma find_eq_None: "find p xs = None \<longleftrightarrow> (\<forall>x \<in> set xs. \<not> p x)"
  by (induction xs) auto

lemma condType_update [simp]: "condType (update_condition new old) = condType old"
  by (simp add: update_condition_def Let_def)

lemma condStatus_update [simp]: "condStatus (update_condition new old) = condStatus new"
  by (simp add: update_condition_def Let_def)

lemma cj_upd_status [simp]: "cj (upd_status f w) = (cj w)\<lparr>cjStatus := f (cjStatus (cj w))\<rparr>"
  by (simp add: upd_status_def)

lemma ticks_upd_status [simp]: "ticks (upd_status f w) = ticks w"
  by (simp add: upd_status_def)

lemma find_condition_other:
  assumes "ty' \<noteq> ty"
  shows "find (\<lambda>c. condType c = ty') (update_first (\<lambda>c. condType c = ty) (update_condition new) cs)
    = find (\<lambda>c. condType c = ty') cs"
  using assms by (intro find_update_first_other) auto

text \<open>What a set condition looks like, given the one it replaces.\<close>

definition new_condition ::
  "(nat \<Rightarrow> gotime) \<Rightarrow> condition_type \<Rightarrow> condition_status \<Rightarrow> string \<Rightarrow> string \<Rightarrow> 'p cjw \<Rightarrow> condition" where
  "new_condition clock ty status reason message w =
     (let new = \<lparr>condType = ty, condStatus = status, condLastTransitionTime = clock (ticks w),
                 condObservedGeneration = cjGeneration (cj w), condReason = reason, condMessage = message\<rparr>
      in case cond_of w ty of None \<Rightarrow> new | Some old \<Rightarrow> update_condition new old)"

lemma cond_of_SetCondition:
  "cond_of (SetCondition clock ty status reason message w) ty' =
     (if ty' = ty then Some (new_condition clock ty status reason message w) else cond_of w ty')"
  by (auto simp: cond_of_def SetCondition_def FindCondition_def new_condition_def Let_def find_append
      find_update_first_same find_condition_other split: option.split)

lemma condType_cond_of: "cond_of w ty = Some c \<Longrightarrow> condType c = ty"
  by (auto simp: cond_of_def FindCondition_def find_Some_iff)

lemma new_condition_fields [simp]:
  "condType (new_condition clock ty status reason message w) = ty"
  "condStatus (new_condition clock ty status reason message w) = status"
  "condReason (new_condition clock ty status reason message w) = reason"
  "condMessage (new_condition clock ty status reason message w) = message"
  by (auto simp: new_condition_def update_condition_def Let_def dest: condType_cond_of
      split: option.split)

lemma SetCondition_unique:
  "conditions_unique w \<Longrightarrow> conditions_unique (SetCondition clock ty status reason message w)"
  by (auto simp: conditions_unique_def SetCondition_def FindCondition_def Let_def find_None_iff
      map_update_first split: option.split)

lemma SetCondition_frame [field_frame, simp]:
  "cjName (cj (SetCondition clock ty status reason message w)) = cjName (cj w)"
  "cjNamespace (cj (SetCondition clock ty status reason message w)) = cjNamespace (cj w)"
  "cjUID (cj (SetCondition clock ty status reason message w)) = cjUID (cj w)"
  "cjGeneration (cj (SetCondition clock ty status reason message w)) = cjGeneration (cj w)"
  "cjAnnotations (cj (SetCondition clock ty status reason message w)) = cjAnnotations (cj w)"
  "cjSpec (cj (SetCondition clock ty status reason message w)) = cjSpec (cj w)"
  "ticks (SetCondition clock ty status reason message w) = ticks w + 1"
  by (simp_all add: SetCondition_def Let_def split: option.split)

lemma SetCondition_status_frame [field_frame, simp]:
  "stActive (cjStatus (cj (SetCondition clock ty status reason message w))) = stActive (cjStatus (cj w))"
  "stLastScheduledStartTime (cjStatus (cj (SetCondition clock ty status reason message w)))
     = stLastScheduledStartTime (cjStatus (cj w))"
  "stShouldBeRunning (cjStatus (cj (SetCondition clock ty status reason message w)))
     = stShouldBeRunning (cjStatus (cj w))"
  "stIsRunning (cjStatus (cj (SetCondition clock ty status reason message w))) = stIsRunning (cjStatus (cj w))"
  "stIsSuspended (cjStatus (cj (SetCondition clock ty status reason message w)))
     = stIsSuspended (cjStatus (cj w))"
  "stMostRecentAction (cjStatus (cj (SetCondition clock ty status reason message w)))
     = stMostRecentAction (cjStatus (cj w))"
  "stActionHistory (cjStatus (cj (SetCondition clock ty status reason message w)))
     = stActionHistory (cjStatus (cj w))"
  by (simp_all add: SetCondition_def Let_def split: option.split)

lemma cond_of_upd_status:
  assumes "stConditions (f (cjStatus (cj w))) = stConditions (cjStatus (cj w))"
  shows "cond_of (upd_status f w) ty = cond_of w ty"
    and "conditions_unique (upd_status f w) \<longleftrightarrow> conditions_unique w"
  using assms by (simp_all add: cond_of_def FindCondition_def conditions_unique_def)

text \<open>The truth of a condition, as \<^verbatim>\<open>CoerceConditionToBoolen\<close> reads it.\<close>

definition cond_true :: "'p cjw \<Rightarrow> condition_type \<Rightarrow> bool" where
  "cond_true w ty = CoerceConditionToBoolen (cond_of w ty)"

definition status_of :: "'p cjw \<Rightarrow> condition_type \<Rightarrow> condition_status option" where
  "status_of w ty = map_option condStatus (cond_of w ty)"

lemma status_of_SetCondition [simp]:
  "status_of (SetCondition clock ty status reason message w) ty' =
     (if ty' = ty then Some status else status_of w ty')"
  by (simp add: status_of_def cond_of_SetCondition)

lemma cond_true_status: "cond_true w ty \<longleftrightarrow> status_of w ty = Some ConditionTrue"
  by (simp add: cond_true_def CoerceConditionToBoolen_def status_of_def split: option.split)

lemma status_of_upd_status [simp]:
  "stConditions (f (cjStatus (cj w))) = stConditions (cjStatus (cj w)) \<Longrightarrow>
   status_of (upd_status f w) ty = status_of w ty"
  by (simp add: status_of_def cond_of_upd_status)

lemma find_remove_first_other:
  assumes "ty' \<noteq> ty"
  shows "find (\<lambda>c. condType c = ty') (remove_first (\<lambda>c. condType c = ty) cs)
    = find (\<lambda>c. condType c = ty') cs"
  using assms by (induction cs) auto

lemma find_remove_first_same:
  assumes "distinct (map condType cs)"
  shows "find (\<lambda>c. condType c = ty) (remove_first (\<lambda>c. condType c = ty) cs) = None"
  using assms
proof (induction cs)
  case (Cons a cs)
  then show ?case by (cases "condType a = ty") (auto simp: find_None_iff image_iff)
qed simp

lemma set_remove_first: "set (remove_first p xs) \<subseteq> set xs"
  by (induction xs) auto

lemma distinct_remove_first: "distinct (map f xs) \<Longrightarrow> distinct (map f (remove_first p xs))"
  by (induction xs) (auto dest!: subsetD [OF set_remove_first])

section \<open>Properties of the condition helpers\<close>

text \<open>
  \<^verbatim>\<open>SetCondition\<close> on any status: afterwards the condition of this type has the given
  status, reason and message; its transition time is the clock reading of the call if the
  type was absent, changed status or had no transition time, and the old one otherwise;
  every other condition is as before, and the types are distinct exactly if they were.
\<close>

theorem SetCondition_correct:
  "\<exists>c. (\<forall>ty'. cond_of (SetCondition clock ty status reason message w) ty'
          = (if ty' = ty then Some c else cond_of w ty'))
     \<and> condStatus c = status \<and> condReason c = reason \<and> condMessage c = message
     \<and> condLastTransitionTime c =
         (case cond_of w ty of None \<Rightarrow> clock (ticks w)
          | Some old \<Rightarrow> if condStatus old = status \<and> \<not> time_is_zero (condLastTransitionTime old)
                        then condLastTransitionTime old else clock (ticks w))
     \<and> (conditions_unique (SetCondition clock ty status reason message w) \<longleftrightarrow> conditions_unique w)"
proof (intro exI [of _ "new_condition clock ty status reason message w"] conjI)
  show "conditions_unique (SetCondition clock ty status reason message w) \<longleftrightarrow> conditions_unique w"
    by (auto simp: conditions_unique_def SetCondition_def FindCondition_def Let_def find_None_iff
      map_update_first split: option.split)
qed (auto simp: cond_of_SetCondition new_condition_def update_condition_def Let_def split: option.split)

text \<open>
  \<^verbatim>\<open>RemoveCondition\<close> on a status with one condition per type: the type is gone, every other
  condition is as before, and the types are still distinct.
\<close>

theorem RemoveCondition_correct:
  assumes "conditions_unique w"
  shows "cond_of (RemoveCondition ty w) ty' = (if ty' = ty then None else cond_of w ty')
    \<and> conditions_unique (RemoveCondition ty w)"
  using assms find_remove_first_same [of "stConditions (cjStatus (cj w))" ty]
  by (auto simp: cond_of_def FindCondition_def RemoveCondition_def conditions_unique_def
      find_remove_first_other distinct_remove_first)

section \<open>Properties of \<open>AsCronSpec\<close>\<close>

fun join_commas :: "string list \<Rightarrow> string" where
  "join_commas [] = []"
| "join_commas [x] = x"
| "join_commas (x # y # xs) = x @ CHR '','' # join_commas (y # xs)"

definition day_name :: "string \<Rightarrow> bool" where
  "day_name d \<longleftrightarrow> length d = 3 \<and> list_all is_alpha d"

lemma day_nameE:
  assumes "day_name d"
  obtains a b c where "d = [a, b, c]" "is_alpha a" "is_alpha b" "is_alpha c"
  using assms by (auto simp: day_name_def length_Suc_conv numeral_3_eq_3)

lemma dayNames_join: "ns \<noteq> [] \<Longrightarrow> length ns \<le> Suc n \<Longrightarrow> list_all day_name ns \<Longrightarrow> dayNames n (join_commas ns)"
proof (induction ns arbitrary: n rule: join_commas.induct)
  case (2 x)
  then show ?case by (auto elim!: day_nameE)
next
  case (3 x y xs)
  then show ?case by (cases n) (auto elim!: day_nameE)
qed simp

lemma dayNames_split:
  "dayNames n s \<Longrightarrow> \<exists>ns. ns \<noteq> [] \<and> length ns \<le> Suc n \<and> list_all day_name ns \<and> s = join_commas ns"
proof (induction n s rule: dayNames.induct)
  case (1 n a b c s)
  then have d: "day_name [a, b, c]" by (simp add: day_name_def)
  show ?case
  proof (cases s)
    case Nil
    then show ?thesis using d by (intro exI [of _ "[[a, b, c]]"]) simp
  next
    case (Cons x s')
    with 1 obtain k where k: "n = Suc k" "x = CHR '',''" "dayNames k s'" by (auto split: nat.splits)
    with 1 Cons obtain ns where ns: "ns \<noteq> []" "length ns \<le> Suc k" "list_all day_name ns" "s' = join_commas ns"
      by auto
    then obtain m ms where "ns = m # ms" by (cases ns) auto
    with ns k d Cons show ?thesis by (intro exI [of _ "[a, b, c] # ns"]) simp
  qed
qed simp_all

lemma daysOfWeekMatches_iff:
  "daysOfWeekMatches s \<longleftrightarrow>
     (\<exists>ns. ns \<noteq> [] \<and> length ns \<le> 7 \<and> list_all day_name ns \<and> s = join_commas ns)
     \<or> (\<exists>a b. day_name a \<and> day_name b \<and> s = a @ CHR ''-'' # b)"
proof -
  have "(length s = 7 \<and> s ! 3 = CHR ''-'' \<and> list_all is_alpha (take 3 s) \<and> list_all is_alpha (drop 4 s))
    \<longleftrightarrow> (\<exists>a b. day_name a \<and> day_name b \<and> s = a @ CHR ''-'' # b)" (is "?l \<longleftrightarrow> ?r")
  proof
    assume l: ?l
    then have "s = take 3 s @ s ! 3 # drop 4 s" using id_take_nth_drop [of 3 s] by simp
    with l show ?r by (intro exI [of _ "take 3 s"] exI [of _ "drop 4 s"]) (auto simp: day_name_def)
  next
    assume ?r
    then show ?l by (auto elim!: day_nameE)
  qed
  moreover have "dayNames 6 s \<longleftrightarrow> (\<exists>ns. ns \<noteq> [] \<and> length ns \<le> 7 \<and> list_all day_name ns \<and> s = join_commas ns)"
    using dayNames_join [of _ 6] dayNames_split [of 6 s] by auto
  ultimately show ?thesis by (simp add: daysOfWeekMatches_def)
qed

lemma timeOfDayMatches_Some:
  "timeOfDayMatches t = Some (hh, mm) \<longleftrightarrow> (\<exists>h1 h2 m1 m2. list_all is_digit [h1, h2, m1, m2]
      \<and> t = [h1, h2, CHR '':'', m1, m2] \<and> hh = [h1, h2] \<and> mm = [m1, m2])"
  by (auto simp: timeOfDayMatches_def split: list.splits)

text \<open>
  C36: \<^verbatim>\<open>AsCronSpec\<close> on a friendly schedule succeeds exactly for a time of day \<^verbatim>\<open>hh:mm\<close> and a list of
  one to seven three-letter names or a range of two, and then gives the cron expression
  \<^verbatim>\<open>mm hh * * days\<close>; no other input of this kind is accepted.
\<close>

theorem AsCronSpec_friendly:
  assumes "esCronSchedule e = []" "esSchedule e = Some fs"
  shows "AsCronSpec e = Ok spec \<longleftrightarrow>
    (\<exists>h1 h2 m1 m2. list_all is_digit [h1, h2, m1, m2] \<and> fsTimeOfDay fs = [h1, h2, CHR '':'', m1, m2]
       \<and> ((\<exists>ns. ns \<noteq> [] \<and> length ns \<le> 7 \<and> list_all day_name ns \<and> fsDaysOfWeek fs = join_commas ns)
          \<or> (\<exists>a b. day_name a \<and> day_name b \<and> fsDaysOfWeek fs = a @ CHR ''-'' # b))
       \<and> spec = [m1, m2, CHR '' '', h1, h2] @ '' * * '' @ fsDaysOfWeek fs)"
proof -
  have no: "\<not> daysOfWeekMatches []" by (simp add: daysOfWeekMatches_def)
  show ?thesis unfolding daysOfWeekMatches_iff [symmetric]
  proof
    assume "AsCronSpec e = Ok spec"
    then show "\<exists>h1 h2 m1 m2. list_all is_digit [h1, h2, m1, m2] \<and> fsTimeOfDay fs = [h1, h2, CHR '':'', m1, m2]
       \<and> daysOfWeekMatches (fsDaysOfWeek fs)
       \<and> spec = [m1, m2, CHR '' '', h1, h2] @ '' * * '' @ fsDaysOfWeek fs"
      by (auto simp: AsCronSpec_def assms timeOfDayMatches_Some split: if_splits option.splits)
  next
    assume "\<exists>h1 h2 m1 m2. list_all is_digit [h1, h2, m1, m2] \<and> fsTimeOfDay fs = [h1, h2, CHR '':'', m1, m2]
       \<and> daysOfWeekMatches (fsDaysOfWeek fs)
       \<and> spec = [m1, m2, CHR '' '', h1, h2] @ '' * * '' @ fsDaysOfWeek fs"
    then show "AsCronSpec e = Ok spec"
      using no by (auto simp: AsCronSpec_def assms timeOfDayMatches_def)
  qed
qed

text \<open>
  \<^verbatim>\<open>AsCronSpec\<close> panics, by reading a field through a nil pointer, exactly for an event with
  neither a cron expression nor a friendly schedule, the case its error message is for.
\<close>

theorem AsCronSpec_panics: "AsCronSpec e = Panic \<longleftrightarrow> esCronSchedule e = [] \<and> esSchedule e = None"
  by (auto simp: AsCronSpec_def split: option.splits prod.splits)

text \<open>Weekdays at 09:00.\<close>

theorem AsCronSpec_friendly_witness:
  "AsCronSpec \<lparr>esAction = EventTypeStart, esCronSchedule = [],
     esSchedule = Some \<lparr>fsTimeOfDay = ''09:00'', fsDaysOfWeek = ''MON-FRI''\<rparr>\<rparr> = Ok ''00 09 * * MON-FRI''"
proof -
  have "day_name ''MON''" "day_name ''FRI''" by (simp_all add: day_name_def is_alpha_def)
  then have "\<exists>a b. day_name a \<and> day_name b \<and> ''MON-FRI'' = a @ CHR ''-'' # b"
    by (intro exI [of _ "''MON''"] exI [of _ "''FRI''"]) simp
  moreover have "list_all is_digit [CHR ''0'', CHR ''9'', CHR ''0'', CHR ''0'']"
    by (simp add: is_digit_def)
  ultimately show ?thesis by (subst AsCronSpec_friendly) auto
qed

text \<open>A resource without labels, events or jobs, for concrete instances.\<close>

definition blank_status :: controlled_job_status where
  "blank_status = \<lparr>stActive = [], stLastScheduledStartTime = None, stShouldBeRunning = None,
     stIsRunning = None, stIsSuspended = None, stMostRecentAction = None, stActionHistory = [],
     stConditions = []\<rparr>"

definition blank_cj :: "unit controlled_job" where
  "blank_cj = \<lparr>cjName = ''cj'', cjNamespace = ''ns'', cjUID = ''uid'', cjGeneration = 1,
     cjAnnotations = Map.empty,
     cjSpec = \<lparr>csTimezone = \<lparr>tzName = ''UTC'', tzOffsetSeconds = 0\<rparr>, csEvents = [],
       csJobTemplate = \<lparr>jtLabels = Map.empty, jtAnnotations = Map.empty, jtOther = [],
         jtSpec = \<lparr>jsSuspend = None, jsRest = ()\<rparr>\<rparr>,
       csStartingDeadlineSeconds = None, csSpecChangePolicy = [], csSuspend = None\<rparr>,
     cjStatus = blank_status\<rparr>"

definition blank_cjw :: "unit cjw" where
  "blank_cjw = \<lparr>cj = blank_cj, ticks = 0\<rparr>"

lemma blank_unique: "conditions_unique blank_cjw"
  by (simp add: conditions_unique_def blank_cjw_def blank_cj_def blank_status_def)

end
