(* ===== verification/NearestEvent.thy ===== *)
theory NearestEvent
  imports ApiTypes CronPrev
begin

text \<open>
  \<^verbatim>\<open>pkg/schedule/util.go\<close> and \<^verbatim>\<open>pkg/schedule/nearest_event.go\<close>: from the events of a
  ControlledJob to the nearest scheduled event before or after a time. The cron library
  (parsing, \<^verbatim>\<open>SpecSchedule.Next\<close>) and the tz database are parameters, the fields of a
  \<open>cron_env\<close>. A pointer to a cron schedule is an option; calling a method through a nil
  pointer is \<open>Panic\<close>, a backward search that never ends is \<open>Hang\<close>.
\<close>

section \<open>Environment\<close>

text \<open>
  \<open>ParseStandard\<close> returns \<open>Ok (Some s)\<close> for a \<^verbatim>\<open>*cron.SpecSchedule\<close> and \<open>Ok None\<close> for the other
  schedule types of the library (\<^verbatim>\<open>@every 1h\<close> is a \<^verbatim>\<open>ConstantDelaySchedule\<close>).
\<close>

record cron_env =
  LoadLocation :: "string \<Rightarrow> location outcome"
  ParseStandard :: "string \<Rightarrow> spec_schedule option outcome"
  NextActivation :: "spec_schedule \<Rightarrow> gotime \<Rightarrow> gotime"

section \<open>Events and schedules\<close>

text \<open>
  The type assertion on the parsed schedule fails for the schedules that are not
  \<^verbatim>\<open>SpecSchedule\<close>s; \<^verbatim>\<open>err\<close> is nil at that point, and wrapping a nil error gives a nil error.
\<close>

definition mapEventToSpecSchedule ::
  "cron_env \<Rightarrow> event_spec \<Rightarrow> location \<Rightarrow> spec_schedule option outcome" where
  "mapEventToSpecSchedule env event loc =
     obind (AsCronSpec event) (\<lambda>cronSpec.
     obind (wrap_err ''Failed to parse cron schedule'' (ParseStandard env cronSpec)) (\<lambda>schedule.
       case schedule of
         None \<Rightarrow> Ok None
       | Some s \<Rightarrow> Ok (Some (s\<lparr>spLocation := loc\<rparr>))))"

datatype eventDirection = directionNext | directionPrevious

definition eventIsNearer :: "gotime \<Rightarrow> gotime \<Rightarrow> eventDirection \<Rightarrow> bool" where
  "eventIsNearer testTime referenceTime direction =
     (if time_is_zero referenceTime then True
      else if direction = directionNext then time_before testTime referenceTime
      else time_after testTime referenceTime)"

record scheduled_event =
  seType :: EventType
  seScheduledTimeUTC :: gotime

section \<open>The nearest time of several schedules\<close>

definition adjacentEventTime ::
  "cron_env \<Rightarrow> eventDirection \<Rightarrow> gotime \<Rightarrow> spec_schedule option \<Rightarrow> gotime outcome" where
  "adjacentEventTime env direction now schedule =
     (case schedule of
        None \<Rightarrow> Panic
      | Some s \<Rightarrow>
          if direction = directionNext then Ok (NextActivation env s now)
          else (case cronPrev s now of None \<Rightarrow> Hang | Some t \<Rightarrow> Ok t))"

fun nearestLoop ::
  "cron_env \<Rightarrow> eventDirection \<Rightarrow> gotime \<Rightarrow> 32 word \<Rightarrow> int \<Rightarrow> gotime \<times> int \<Rightarrow> spec_schedule option list
   \<Rightarrow> (gotime \<times> int) outcome" where
  "nearestLoop env direction now offs idx best [] = Ok best"
| "nearestLoop env direction now offs idx best (sched # schedules) =
     obind (adjacentEventTime env direction now sched) (\<lambda>t.
       if time_is_zero t then nearestLoop env direction now offs (idx + 1) best schedules
       else let t' = time_add t (seconds (sint (- offs)))
            in nearestLoop env direction now offs (idx + 1)
                 (if eventIsNearer t' (fst best) direction then (t', idx) else best) schedules)"

definition findNearestScheduleTime ::
  "cron_env \<Rightarrow> spec_schedule option list \<Rightarrow> gotime \<Rightarrow> eventDirection \<Rightarrow> 32 word
   \<Rightarrow> (gotime \<times> int) outcome" where
  "findNearestScheduleTime env schedules now direction offs =
     nearestLoop env direction (time_add now (seconds (sint offs))) offs 0 (zero_time, - 1) schedules"

section \<open>The nearest event\<close>

fun collectSchedules ::
  "cron_env \<Rightarrow> location \<Rightarrow> (event_spec \<Rightarrow> bool) \<Rightarrow> event_spec list
   \<Rightarrow> (spec_schedule option list \<times> EventType list) outcome" where
  "collectSchedules env loc flt [] = Ok ([], [])"
| "collectSchedules env loc flt (event # schedule) =
     (if \<not> flt event then collectSchedules env loc flt schedule
      else obind (mapEventToSpecSchedule env event loc) (\<lambda>s.
           obind (collectSchedules env loc flt schedule) (\<lambda>(ss, acts).
             Ok (s # ss, esAction event # acts))))"

text \<open>\<^verbatim>\<open>correspondingActions[nearestEventIdx]\<close> panics when the index is out of range.\<close>

definition findNearestEvent ::
  "cron_env \<Rightarrow> event_spec list \<Rightarrow> gotime \<Rightarrow> location \<times> 32 word \<Rightarrow> eventDirection
   \<Rightarrow> (event_spec \<Rightarrow> bool) \<Rightarrow> scheduled_event option outcome" where
  "findNearestEvent env schedule now locationWithOffset direction flt =
     obind (collectSchedules env (fst locationWithOffset) flt schedule) (\<lambda>(schedules, actions).
     obind (findNearestScheduleTime env schedules now direction (snd locationWithOffset)) (\<lambda>(t, idx).
       if time_is_zero t then Ok None
       else if idx < 0 \<or> int (length actions) \<le> idx then Panic
       else Ok (Some \<lparr>seType = actions ! nat idx, seScheduledTimeUTC = t\<rparr>)))"

section \<open>Choosing the nearest candidate\<close>

text \<open>
  The loop abstracted to its candidates: \<open>pick\<close> keeps the first candidate that no other one
  is nearer than. \<open>nearest_choice\<close> is what the loop needs of the comparison.
\<close>

fun pick :: "('a \<Rightarrow> 'a \<Rightarrow> bool) \<Rightarrow> nat \<Rightarrow> ('a \<times> nat) option \<Rightarrow> 'a option list \<Rightarrow> ('a \<times> nat) option" where
  "pick nearer i best [] = best"
| "pick nearer i best (None # xs) = pick nearer (Suc i) best xs"
| "pick nearer i best (Some x # xs) =
     pick nearer (Suc i)
       (case best of None \<Rightarrow> Some (x, i) | Some (b, k) \<Rightarrow> if nearer x b then Some (x, i) else best) xs"

definition is_pick :: "('a \<Rightarrow> 'a \<Rightarrow> bool) \<Rightarrow> 'a option list \<Rightarrow> ('a \<times> nat) option \<Rightarrow> bool" where
  "is_pick nearer xs r \<longleftrightarrow>
     (case r of
        None \<Rightarrow> (\<forall>x \<in> set xs. x = None)
      | Some (b, k) \<Rightarrow> k < length xs \<and> xs ! k = Some b \<and>
          (\<forall>j y. j < length xs \<longrightarrow> xs ! j = Some y \<longrightarrow> \<not> nearer y b \<and> (j < k \<longrightarrow> nearer b y)))"

locale nearest_choice =
  fixes nearer :: "'a \<Rightarrow> 'a \<Rightarrow> bool"
  assumes irrefl: "\<not> nearer x x"
    and trans: "nearer x y \<Longrightarrow> nearer y z \<Longrightarrow> nearer x z"
    and trans_weak: "\<not> nearer y x \<Longrightarrow> nearer y z \<Longrightarrow> nearer x z"
begin

lemma is_pick_None: "is_pick nearer xs r \<Longrightarrow> is_pick nearer (xs @ [None]) r"
  by (auto simp: is_pick_def nth_append less_Suc_eq split: option.splits)

lemma is_pick_Some:
  assumes "is_pick nearer xs r"
  shows "is_pick nearer (xs @ [Some x])
    (case r of None \<Rightarrow> Some (x, length xs)
     | Some (b, k) \<Rightarrow> if nearer x b then Some (x, length xs) else r)"
proof (cases r)
  case None
  with assms have "\<And>j. j < length xs \<Longrightarrow> xs ! j = None" by (simp add: is_pick_def)
  then show ?thesis using None irrefl by (auto simp: is_pick_def nth_append less_Suc_eq)
next
  case (Some p)
  obtain b k where p: "p = (b, k)" by force
  have b: "k < length xs" "xs ! k = Some b"
    "\<And>j y. j < length xs \<Longrightarrow> xs ! j = Some y \<Longrightarrow> \<not> nearer y b \<and> (j < k \<longrightarrow> nearer b y)"
    using assms Some p by (auto simp: is_pick_def)
  show ?thesis
  proof (cases "nearer x b")
    case True
    have "\<not> nearer y x \<and> nearer x y" if "j < length xs" "xs ! j = Some y" for j y
    proof -
      have "\<not> nearer y b" using b(3) that by blast
      then have "nearer x y" using True trans_weak irrefl trans by metis
      then show ?thesis using trans irrefl by blast
    qed
    then show ?thesis using True Some p irrefl by (auto simp: is_pick_def nth_append less_Suc_eq)
  next
    case False
    then show ?thesis using b Some p irrefl by (auto simp: is_pick_def nth_append less_Suc_eq)
  qed
qed

lemma pick_correct_from:
  "is_pick nearer xs r \<Longrightarrow> is_pick nearer (xs @ ys) (pick nearer (length xs) r ys)"
proof (induction ys arbitrary: xs r)
  case Nil
  then show ?case by simp
next
  case (Cons y ys)
  show ?case
  proof (cases y)
    case None
    with Cons.IH [OF is_pick_None [OF Cons.prems]] show ?thesis by simp
  next
    case (Some x)
    with Cons.IH [OF is_pick_Some [OF Cons.prems, of x]] show ?thesis by simp
  qed
qed

lemma pick_correct: "is_pick nearer xs (pick nearer 0 None xs)"
  using pick_correct_from [of "[]" None xs] by (simp add: is_pick_def)

end

definition nearer_in :: "eventDirection \<Rightarrow> gotime \<Rightarrow> gotime \<Rightarrow> bool" where
  "nearer_in direction t u =
     (if direction = directionNext then time_before t u else time_after t u)"

interpretation nearest: nearest_choice "nearer_in direction" for direction
  by unfold_locales (auto simp: nearer_in_def time_before_def time_after_def split: if_splits)

section \<open>The loop chooses the nearest candidate\<close>

text \<open>
  What one event contributes: the adjacent time of its schedule, shifted back by the extra
  offset, or nothing if its schedule has no activation in this direction.
\<close>

definition shiftedTime ::
  "cron_env \<Rightarrow> eventDirection \<Rightarrow> gotime \<Rightarrow> 32 word \<Rightarrow> spec_schedule option \<Rightarrow> gotime option outcome" where
  "shiftedTime env direction now offs sched =
     obind (adjacentEventTime env direction (time_add now (seconds (sint offs))) sched) (\<lambda>t.
       Ok (if time_is_zero t then None else Some (time_add t (seconds (sint (- offs))))))"

definition event_time ::
  "cron_env \<Rightarrow> eventDirection \<Rightarrow> gotime \<Rightarrow> location \<times> 32 word \<Rightarrow> event_spec \<Rightarrow> gotime option outcome" where
  "event_time env direction now locOffs event =
     obind (mapEventToSpecSchedule env event (fst locOffs))
       (shiftedTime env direction now (snd locOffs))"

definition decode :: "(gotime \<times> nat) option \<Rightarrow> gotime \<times> int" where
  "decode r = (case r of None \<Rightarrow> (zero_time, - 1) | Some (t, i) \<Rightarrow> (t, int i))"

lemma decode_simps [simp]: "decode None = (zero_time, - 1)" "decode (Some (t, i)) = (t, int i)"
  by (simp_all add: decode_def)

lemma zero_time_is_zero [simp]: "time_is_zero zero_time"
  by (simp add: time_is_zero_def zero_time_def)

lemma eventIsNearer_decode:
  assumes "\<forall>b k. best = Some (b, k) \<longrightarrow> \<not> time_is_zero b"
  shows "(if eventIsNearer t (fst (decode best)) direction then (t, int i) else decode best) =
    decode (case best of None \<Rightarrow> Some (t, i)
            | Some (b, k) \<Rightarrow> if nearer_in direction t b then Some (t, i) else best)"
  using assms by (auto simp: eventIsNearer_def nearer_in_def split: option.split)

lemma nearestLoop_pick:
  assumes "list_all2 (\<lambda>s c. shiftedTime env direction now offs s = Ok c) ss cs"
    and "\<forall>t. Some t \<in> set cs \<longrightarrow> \<not> time_is_zero t"
    and "\<forall>b k. best = Some (b, k) \<longrightarrow> \<not> time_is_zero b"
  shows "nearestLoop env direction (time_add now (seconds (sint offs))) offs (int i) (decode best) ss
    = Ok (decode (pick (nearer_in direction) i best cs))"
  using assms
proof (induction ss cs arbitrary: i best rule: list_all2_induct)
  case Nil
  then show ?case by simp
next
  case (Cons s ss c cs)
  then obtain t where t: "adjacentEventTime env direction (time_add now (seconds (sint offs))) s = Ok t"
    "c = (if time_is_zero t then None else Some (time_add t (seconds (sint (- offs)))))"
    by (auto simp: shiftedTime_def outcome_eqs)
  have cs: "\<forall>t. Some t \<in> set cs \<longrightarrow> \<not> time_is_zero t" using Cons.prems(1) by simp
  have Suc: "int i + 1 = int (Suc i)" by simp
  show ?case
  proof (cases "time_is_zero t")
    case True
    then show ?thesis using t Cons.IH [OF cs Cons.prems(2), of "Suc i"]
      by (simp only: nearestLoop.simps obind.simps if_True Suc pick.simps)
  next
    case False
    let ?t = "time_add t (seconds (sint (- offs)))"
    let ?best = "case best of None \<Rightarrow> Some (?t, i)
      | Some (b, k) \<Rightarrow> if nearer_in direction ?t b then Some (?t, i) else best"
    have "\<forall>b k. ?best = Some (b, k) \<longrightarrow> \<not> time_is_zero b"
      using Cons.prems False t(2) by (auto split: option.splits if_splits)
    from Cons.IH [OF cs this, of "Suc i"] show ?thesis
      using t False
      by (simp only: nearestLoop.simps obind.simps if_False Suc pick.simps Let_def
          eventIsNearer_decode [OF Cons.prems(2)])
  qed
qed

lemma findNearestScheduleTime_pick:
  assumes "list_all2 (\<lambda>s c. shiftedTime env direction now offs s = Ok c) ss cs"
    and "\<forall>t. Some t \<in> set cs \<longrightarrow> \<not> time_is_zero t"
  shows "findNearestScheduleTime env ss now direction offs
    = Ok (decode (pick (nearer_in direction) 0 None cs))"
  using nearestLoop_pick [OF assms, of None 0] by (simp add: findNearestScheduleTime_def)

lemma collectSchedules_ok:
  assumes "\<forall>e \<in> set events. flt e \<longrightarrow> mapEventToSpecSchedule env e loc = Ok (sch e)"
  shows "collectSchedules env loc flt events =
    Ok (map sch (filter flt events), map esAction (filter flt events))"
  using assms by (induction events) auto

lemma filter_split_nth:
  assumes "i < length (filter P xs)"
  obtains pre e post where "xs = pre @ e # post" "P e" "length (filter P pre) = i"
  using assms
proof (induction xs arbitrary: i thesis)
  case (Cons x xs)
  show ?case
  proof (cases "P x \<and> i = 0")
    case True
    then show ?thesis using Cons.prems(1) [of "[]" x xs] by simp
  next
    case False
    let ?k = "if P x then i - 1 else i"
    have "?k < length (filter P xs)" using Cons.prems(2) False by auto
    from Cons.IH [OF _ this] obtain pre e post
      where "xs = pre @ e # post" "P e" "length (filter P pre) = ?k" by blast
    then show ?thesis using False Cons.prems(1) [of "x # pre" e post] by (auto split: if_splits)
  qed
qed simp

definition nearest_event_spec ::
  "(event_spec \<Rightarrow> gotime option) \<Rightarrow> (event_spec \<Rightarrow> bool) \<Rightarrow> eventDirection \<Rightarrow> event_spec list
   \<Rightarrow> scheduled_event option \<Rightarrow> bool" where
  "nearest_event_spec tm flt direction events r \<longleftrightarrow>
     (case r of
        None \<Rightarrow> \<forall>e \<in> set events. flt e \<longrightarrow> tm e = None
      | Some ev \<Rightarrow> \<exists>pre e post. events = pre @ e # post \<and> flt e
          \<and> seType ev = esAction e \<and> tm e = Some (seScheduledTimeUTC ev)
          \<and> (\<forall>e' \<in> set events. \<forall>t. flt e' \<longrightarrow> tm e' = Some t \<longrightarrow> \<not> nearer_in direction t (seScheduledTimeUTC ev))
          \<and> (\<forall>e' \<in> set pre. \<forall>t. flt e' \<longrightarrow> tm e' = Some t \<longrightarrow> nearer_in direction (seScheduledTimeUTC ev) t))"

lemma findNearestEvent_spec:
  assumes ok: "\<forall>e \<in> set events. flt e \<longrightarrow> event_time env direction now lo e = Ok (tm e)"
    and nz: "\<forall>e \<in> set events. \<forall>t. flt e \<longrightarrow> tm e = Some t \<longrightarrow> \<not> time_is_zero t"
  shows "\<exists>r. findNearestEvent env events now lo direction flt = Ok r
    \<and> nearest_event_spec tm flt direction events r"
proof -
  let ?fs = "filter flt events" and ?cs = "map tm (filter flt events)"
  have "\<forall>e. \<exists>s. e \<in> set events \<longrightarrow> flt e \<longrightarrow> mapEventToSpecSchedule env e (fst lo) = Ok s
      \<and> shiftedTime env direction now (snd lo) s = Ok (tm e)"
    using ok by (auto simp: event_time_def outcome_eqs)
  then obtain sch where sch: "\<And>e. e \<in> set events \<Longrightarrow> flt e \<Longrightarrow> mapEventToSpecSchedule env e (fst lo) = Ok (sch e)"
    "\<And>e. e \<in> set events \<Longrightarrow> flt e \<Longrightarrow> shiftedTime env direction now (snd lo) (sch e) = Ok (tm e)"
    by metis
  have "list_all2 (\<lambda>s c. shiftedTime env direction now (snd lo) s = Ok c) (map sch ?fs) ?cs"
    using sch(2) by (auto simp: list_all2_conv_all_nth dest!: nth_mem)
  moreover have "\<forall>t. Some t \<in> set ?cs \<longrightarrow> \<not> time_is_zero t" using nz by (auto simp: image_iff)
  ultimately have time: "findNearestScheduleTime env (map sch ?fs) now direction (snd lo)
    = Ok (decode (pick (nearer_in direction) 0 None ?cs))"
    by (rule findNearestScheduleTime_pick)
  have coll: "collectSchedules env (fst lo) flt events = Ok (map sch ?fs, map esAction ?fs)"
    using sch(1) by (intro collectSchedules_ok) blast
  have p: "is_pick (nearer_in direction) ?cs (pick (nearer_in direction) 0 None ?cs)"
    by (rule nearest.pick_correct)
  show ?thesis
  proof (cases "pick (nearer_in direction) 0 None ?cs")
    case None
    with p have "\<forall>e \<in> set events. flt e \<longrightarrow> tm e = None" by (auto simp: is_pick_def)
    with None show ?thesis
      by (auto simp: findNearestEvent_def coll time nearest_event_spec_def)
  next
    case (Some q)
    obtain t i where q: "q = (t, i)" by force
    from p Some q have i: "i < length ?fs" "tm (?fs ! i) = Some t"
      and best: "\<And>j u. j < length ?fs \<Longrightarrow> tm (?fs ! j) = Some u \<Longrightarrow>
        \<not> nearer_in direction u t \<and> (j < i \<longrightarrow> nearer_in direction t u)"
      by (auto simp: is_pick_def)
    obtain pre e post where e: "events = pre @ e # post" "flt e" "length (filter flt pre) = i"
      using i(1) by (rule filter_split_nth)
    then have fs: "?fs = filter flt pre @ e # filter flt post" "?fs ! i = e" by (simp_all add: nth_append)
    have tme: "tm e = Some t" using i(2) fs(2) by simp
    have "\<not> time_is_zero t" using nz e tme by (metis in_set_conv_decomp)
    then have res: "findNearestEvent env events now lo direction flt
      = Ok (Some \<lparr>seType = esAction e, seScheduledTimeUTC = t\<rparr>)"
      using i(1) fs(2) by (simp add: findNearestEvent_def coll time Some q)
    have best1: "\<not> nearer_in direction u t" if "e' \<in> set events" "flt e'" "tm e' = Some u" for e' u
    proof -
      have "e' \<in> set ?fs" using that by simp
      then obtain j where "j < length ?fs" "?fs ! j = e'" by (metis in_set_conv_nth)
      then show ?thesis using best [of j u] that(3) by simp
    qed
    have best2: "nearer_in direction t u" if "e' \<in> set pre" "flt e'" "tm e' = Some u" for e' u
    proof -
      have "e' \<in> set (filter flt pre)" using that by simp
      then obtain j where "j < i" "filter flt pre ! j = e'" using e(3) by (metis in_set_conv_nth)
      then show ?thesis using best [of j u] fs e(3) that i(1) by (simp add: nth_append)
    qed
    have "\<forall>e' \<in> set events. \<forall>u. flt e' \<longrightarrow> tm e' = Some u \<longrightarrow> \<not> nearer_in direction u t"
      "\<forall>e' \<in> set pre. \<forall>u. flt e' \<longrightarrow> tm e' = Some u \<longrightarrow> nearer_in direction t u"
      using best1 best2 by blast+
    then have "nearest_event_spec tm flt direction events (Some \<lparr>seType = esAction e, seScheduledTimeUTC = t\<rparr>)"
      unfolding nearest_event_spec_def option.case scheduled_event.simps using e(1,2) tme by blast
    with res show ?thesis by blast
  qed
qed

lemma nearestLoop_nil: "None \<in> set ss \<Longrightarrow> nearestLoop env directionNext t offs i best ss = Panic"
  by (induction ss arbitrary: i best) (auto simp: adjacentEventTime_def Let_def split: option.split)

section \<open>Properties\<close>

text \<open>
  C22: \<^verbatim>\<open>findNearestEvent\<close>, in either direction and for any filter, when the search of every
  event that passes the filter answers (with a time other than the zero time, or with
  none): the call returns, and the result is nothing if no event has a time, and otherwise
  the action and the time of an event that passes the filter such that no other one is
  nearer, and that is strictly nearer than every such event before it in the list.
\<close>

theorem findNearestEvent_correct:
  assumes "\<forall>e \<in> set events. flt e \<longrightarrow> event_time env direction now lo e = Ok (tm e)"
    and "\<forall>e \<in> set events. \<forall>t. flt e \<longrightarrow> tm e = Some t \<longrightarrow> \<not> time_is_zero t"
  shows "(findNearestEvent env events now lo direction flt = Ok None
      \<and> (\<forall>e \<in> set events. flt e \<longrightarrow> tm e = None))
    \<or> (\<exists>pre e post t. events = pre @ e # post \<and> flt e \<and> tm e = Some t
      \<and> findNearestEvent env events now lo direction flt
          = Ok (Some \<lparr>seType = esAction e, seScheduledTimeUTC = t\<rparr>)
      \<and> (\<forall>e' \<in> set events. \<forall>u. flt e' \<longrightarrow> tm e' = Some u \<longrightarrow>
           (if direction = directionNext then instant t \<le> instant u else instant u \<le> instant t))
      \<and> (\<forall>e' \<in> set pre. \<forall>u. flt e' \<longrightarrow> tm e' = Some u \<longrightarrow> instant u \<noteq> instant t))"
proof -
  obtain r where r: "findNearestEvent env events now lo direction flt = Ok r"
    "nearest_event_spec tm flt direction events r"
    using findNearestEvent_spec [OF assms] by blast
  show ?thesis
  proof (cases r)
    case None
    then show ?thesis using r by (simp add: nearest_event_spec_def)
  next
    case (Some ev)
    with r(2) obtain pre e post where e: "events = pre @ e # post" "flt e" "seType ev = esAction e"
      "tm e = Some (seScheduledTimeUTC ev)"
      "\<forall>e' \<in> set events. \<forall>t. flt e' \<longrightarrow> tm e' = Some t \<longrightarrow> \<not> nearer_in direction t (seScheduledTimeUTC ev)"
      "\<forall>e' \<in> set pre. \<forall>t. flt e' \<longrightarrow> tm e' = Some t \<longrightarrow> nearer_in direction (seScheduledTimeUTC ev) t"
      by (auto simp: nearest_event_spec_def)
    have "ev = \<lparr>seType = esAction e, seScheduledTimeUTC = seScheduledTimeUTC ev\<rparr>" using e(3) by simp
    then have "findNearestEvent env events now lo direction flt
      = Ok (Some \<lparr>seType = esAction e, seScheduledTimeUTC = seScheduledTimeUTC ev\<rparr>)"
      using r(1) Some by simp
    moreover have "if direction = directionNext then instant (seScheduledTimeUTC ev) \<le> instant u
      else instant u \<le> instant (seScheduledTimeUTC ev)" if "e' \<in> set events" "flt e'" "tm e' = Some u" for e' u
      using e(5) that by (force simp: nearer_in_def time_before_def time_after_def)
    moreover have "instant u \<noteq> instant (seScheduledTimeUTC ev)" if "e' \<in> set pre" "flt e'" "tm e' = Some u" for e' u
      using e(6) that by (force simp: nearer_in_def time_before_def time_after_def split: if_splits)
    ultimately show ?thesis using e(1,2,4) by blast
  qed
qed

text \<open>
  A schedule expression that the cron library accepts but that is not a \<^verbatim>\<open>SpecSchedule\<close>
  (\<^verbatim>\<open>@every 1h\<close>) is not reported as an error: its search panics on the nil schedule. If all
  events parse, the forward search for the nearest event panics as soon as one of the events
  is of this kind.
\<close>

theorem findNearestEvent_nil_schedule:
  assumes "\<forall>e \<in> set events. flt e \<longrightarrow> mapEventToSpecSchedule env e (fst lo) = Ok (sch e)"
    and "e \<in> set events" "flt e" "AsCronSpec e = Ok spec" "ParseStandard env spec = Ok None"
  shows "findNearestEvent env events now lo directionNext flt = Panic"
proof -
  have "mapEventToSpecSchedule env e (fst lo) = Ok None"
    using assms(4,5) by (simp add: mapEventToSpecSchedule_def)
  then have "None \<in> set (map sch (filter flt events))"
    using assms(1,2,3) by (force simp: image_iff)
  then have "nearestLoop env directionNext t offs i best (map sch (filter flt events)) = Panic" for t offs i best
    by (rule nearestLoop_nil)
  then show ?thesis
    by (simp add: findNearestEvent_def collectSchedules_ok [of events flt env "fst lo" sch] assms(1)
        findNearestScheduleTime_def)
qed

end
