(* ===== verification/ScheduleState.thy ===== *)
theory ScheduleState
  imports NearestEvent
begin

text \<open>
  \<^verbatim>\<open>pkg/schedule/state.go\<close>: the surrounding events of a time in the schedule of a
  ControlledJob. \<open>sched_state\<close> is the struct \<^verbatim>\<open>state\<close>, its four accessors are the methods of the
  \<^verbatim>\<open>State\<close> interface.
\<close>

record sched_state =
  sdLastStopTime :: "gotime option"
  sdStartOfCurrentRunPeriod :: "gotime option"
  sdPreviousEvent :: "scheduled_event option"
  sdNextEvent :: "scheduled_event option"

definition is_start :: "event_spec \<Rightarrow> bool" where
  "is_start e \<longleftrightarrow> esAction e = EventTypeStart"

definition is_stop :: "event_spec \<Rightarrow> bool" where
  "is_stop e \<longleftrightarrow> esAction e = EventTypeStop"

definition findMostRecentStopTime ::
  "cron_env \<Rightarrow> event_spec list \<Rightarrow> location \<times> 32 word \<Rightarrow> gotime \<Rightarrow> gotime option outcome" where
  "findMostRecentStopTime env events lo now =
     obind (findNearestEvent env events now lo directionPrevious is_stop) (\<lambda>lastStopEvent.
       Ok (map_option seScheduledTimeUTC lastStopEvent))"

definition start_only_error :: go_error where
  "start_only_error = GoErr (''No previous stop events found, only start events. We don'' @ [CHR 39] @
     ''t currently support start-only schedules (as it'' @ [CHR 39] @ ''s not clear what the semantics should be)'')"

definition findStartOfCurrentRunPeriod ::
  "cron_env \<Rightarrow> event_spec list \<Rightarrow> location \<times> 32 word \<Rightarrow> gotime \<Rightarrow> gotime option outcome" where
  "findStartOfCurrentRunPeriod env events lo now =
     obind (findMostRecentStopTime env events lo now) (\<lambda>lastStopTime.
       case lastStopTime of
         None \<Rightarrow> if list_ex is_start events then Err start_only_error else Ok None
       | Some t \<Rightarrow>
           obind (findNearestEvent env events t lo directionNext is_start) (\<lambda>nextStartEvent.
             Ok (map_option seScheduledTimeUTC nextStartEvent)))"

definition StateFor :: "cron_env \<Rightarrow> 'p controlled_job \<Rightarrow> gotime \<Rightarrow> sched_state outcome" where
  "StateFor env c now =
     (let tz = csTimezone (cjSpec c); events = csEvents (cjSpec c) in
      obind (wrap_err (''failed to resolve timezone named '' @ tzName tz) (LoadLocation env (tzName tz)))
        (\<lambda>loc. let lo = (loc, tzOffsetSeconds tz) in
      obind (wrap_err ''failed to find previous event in the schedule''
        (findNearestEvent env events now lo directionPrevious (\<lambda>_. True))) (\<lambda>previousEvent.
      obind (wrap_err ''failed to find next event in the schedule''
        (findNearestEvent env events now lo directionNext (\<lambda>_. True))) (\<lambda>nextEvent.
      obind (wrap_err ''failed to find most recent stop time''
        (findMostRecentStopTime env events lo now)) (\<lambda>lastStopTime.
      obind (wrap_err ''failed to find start of current run period''
        (findStartOfCurrentRunPeriod env events lo now)) (\<lambda>startOfCurrentRunPeriod.
      Ok \<lparr>sdLastStopTime = lastStopTime, sdStartOfCurrentRunPeriod = startOfCurrentRunPeriod,
          sdPreviousEvent = previousEvent, sdNextEvent = nextEvent\<rparr>))))))"

definition NextEventTime :: "sched_state \<Rightarrow> gotime option" where
  "NextEventTime s = map_option seScheduledTimeUTC (sdNextEvent s)"

definition ShouldBeRunning :: "sched_state \<Rightarrow> bool" where
  "ShouldBeRunning s \<longleftrightarrow>
     (case sdPreviousEvent s of None \<Rightarrow> False | Some e \<Rightarrow> seType e = EventTypeStart)"

definition LastStopTime :: "sched_state \<Rightarrow> gotime option" where
  "LastStopTime s = sdLastStopTime s"

definition StartOfCurrentRunPeriod :: "sched_state \<Rightarrow> gotime option" where
  "StartOfCurrentRunPeriod s = sdStartOfCurrentRunPeriod s"

section \<open>What the schedule search relies on\<close>

text \<open>
  \<open>acts e\<close> is the set of instants at which event \<open>e\<close> is scheduled. \<open>searches_exact\<close> states, at one
  time \<open>t\<close>, that the search in one direction finds the adjacent one: the last at or before \<open>t\<close>,
  the first after \<open>t\<close>.
\<close>

definition adjacent_in :: "eventDirection \<Rightarrow> int set \<Rightarrow> int \<Rightarrow> gotime option \<Rightarrow> bool" where
  "adjacent_in direction A t r \<longleftrightarrow>
     (case r of
        None \<Rightarrow> (\<forall>x \<in> A. if direction = directionNext then x \<le> t else t < x)
      | Some u \<Rightarrow> instant u \<noteq> 0 \<and> instant u \<in> A \<and>
          (if direction = directionNext
           then t < instant u \<and> (\<forall>x \<in> A. t < x \<longrightarrow> instant u \<le> x)
           else instant u \<le> t \<and> (\<forall>x \<in> A. x \<le> t \<longrightarrow> x \<le> instant u)))"

definition searches_exact ::
  "cron_env \<Rightarrow> eventDirection \<Rightarrow> location \<times> 32 word \<Rightarrow> (event_spec \<Rightarrow> int set) \<Rightarrow> event_spec list \<Rightarrow> gotime \<Rightarrow> bool" where
  "searches_exact env direction lo acts events t \<longleftrightarrow>
     (\<forall>e \<in> set events. \<exists>r. event_time env direction t lo e = Ok r \<and> adjacent_in direction (acts e) (instant t) r)"

text \<open>The nearest event of a kind, over the union of the activations of that kind.\<close>

definition acts_of :: "(event_spec \<Rightarrow> int set) \<Rightarrow> (event_spec \<Rightarrow> bool) \<Rightarrow> event_spec list \<Rightarrow> int set" where
  "acts_of acts flt events = (\<Union>e \<in> {e \<in> set events. flt e}. acts e)"

text \<open>If each event has the adjacent one of its activations, the nearest event has that of all.\<close>

lemma adjacent_reaches:
  assumes "adjacent_in direction A now r" "x \<in> A" "if direction = directionNext then now < x else x \<le> now"
  shows "\<exists>v. r = Some v \<and> (if direction = directionNext then instant v \<le> x else x \<le> instant v)"
  using assms by (auto simp: adjacent_in_def split: option.splits if_splits)

lemma nearest_adjacent:
  assumes tm: "\<And>e. e \<in> set events \<Longrightarrow> adjacent_in direction (acts e) (instant t) (tm e)"
    and spec: "nearest_event_spec tm flt direction events r"
  shows "adjacent_in direction (acts_of acts flt events) (instant t) (map_option seScheduledTimeUTC r)"
proof (cases r)
  case None
  with spec have "tm e = None" if "e \<in> set events" "flt e" for e
    using that by (simp add: nearest_event_spec_def)
  with tm have "adjacent_in direction (acts e) (instant t) None" if "e \<in> set events" "flt e" for e
    using that by metis
  then show ?thesis using None by (auto simp: adjacent_in_def acts_of_def)
next
  case (Some ev)
  let ?u = "seScheduledTimeUTC ev"
  from spec Some obtain pre e post where split: "events = pre @ e # post" and e: "flt e" "tm e = Some ?u"
    and near: "\<And>e' v. e' \<in> set events \<Longrightarrow> flt e' \<Longrightarrow> tm e' = Some v \<Longrightarrow> \<not> nearer_in direction v ?u"
    by (auto simp: nearest_event_spec_def)
  have "if direction = directionNext then instant ?u \<le> x else x \<le> instant ?u"
    if e': "e' \<in> set events" "flt e'" and x: "x \<in> acts e'" "if direction = directionNext then instant t < x else x \<le> instant t"
    for e' x
  proof -
    obtain v where v: "tm e' = Some v" "if direction = directionNext then instant v \<le> x else x \<le> instant v"
      using adjacent_reaches [OF tm [OF e'(1)] x] by blast
    from near [OF e' v(1)] v(2) show ?thesis
      by (auto simp: nearer_in_def time_before_def time_after_def split: if_splits)
  qed
  moreover have "instant ?u \<noteq> 0" "instant ?u \<in> acts e"
    "if direction = directionNext then instant t < instant ?u else instant ?u \<le> instant t"
    using tm [of e] split by (auto simp: e(2) adjacent_in_def split: if_splits)
  ultimately show ?thesis
    using e(1) split Some by (fastforce simp: adjacent_in_def acts_of_def split: if_splits)
qed

lemma nearest_first:
  assumes tm: "\<And>e. e \<in> set events \<Longrightarrow> adjacent_in directionPrevious (acts e) (instant t) (tm e)"
    and spec: "nearest_event_spec tm flt directionPrevious events (Some ev)"
  shows "\<exists>pre e post. events = pre @ e # post \<and> flt e \<and> seType ev = esAction e \<and> instant (seScheduledTimeUTC ev) \<in> acts e
    \<and> (\<forall>e' \<in> set pre. flt e' \<longrightarrow> (\<forall>x \<in> acts e'. x \<le> instant t \<longrightarrow> x < instant (seScheduledTimeUTC ev)))"
proof -
  let ?u = "seScheduledTimeUTC ev"
  from spec obtain pre e post where e: "events = pre @ e # post" "flt e" "seType ev = esAction e" "tm e = Some ?u"
    and first: "\<And>e' v. e' \<in> set pre \<Longrightarrow> flt e' \<Longrightarrow> tm e' = Some v \<Longrightarrow> nearer_in directionPrevious ?u v"
    by (auto simp: nearest_event_spec_def)
  have "x < instant ?u" if e': "e' \<in> set pre" "flt e'" and x: "x \<in> acts e'" "x \<le> instant t" for e' x
  proof -
    have "adjacent_in directionPrevious (acts e') (instant t) (tm e')" using tm e(1) e'(1) by simp
    from adjacent_reaches [OF this x(1)] x(2) obtain v where "tm e' = Some v" "x \<le> instant v" by auto
    then show ?thesis using first [OF e'] by (auto simp: nearer_in_def time_after_def)
  qed
  moreover have "instant ?u \<in> acts e" using tm [of e] e(1,4) by (auto simp: adjacent_in_def)
  ultimately show ?thesis using e(1-3) by blast
qed

lemma findNearestEvent_acts:
  assumes "searches_exact env direction lo acts events t"
  obtains r where "findNearestEvent env events t lo direction flt = Ok r"
    "adjacent_in direction (acts_of acts flt events) (instant t) (map_option seScheduledTimeUTC r)"
    "direction = directionPrevious \<longrightarrow> (\<forall>ev. r = Some ev \<longrightarrow> (\<exists>pre e post. events = pre @ e # post
       \<and> flt e \<and> seType ev = esAction e \<and> instant (seScheduledTimeUTC ev) \<in> acts e
       \<and> (\<forall>e' \<in> set pre. flt e' \<longrightarrow> (\<forall>x \<in> acts e'. x \<le> instant t \<longrightarrow> x < instant (seScheduledTimeUTC ev)))))"
proof -
  have "\<forall>e. \<exists>r. e \<in> set events \<longrightarrow> event_time env direction t lo e = Ok r
    \<and> adjacent_in direction (acts e) (instant t) r"
    using assms by (simp add: searches_exact_def)
  then obtain tm where tm: "\<And>e. e \<in> set events \<Longrightarrow> event_time env direction t lo e = Ok (tm e)"
    "\<And>e. e \<in> set events \<Longrightarrow> adjacent_in direction (acts e) (instant t) (tm e)"
    by metis
  have "\<forall>e \<in> set events. \<forall>u. flt e \<longrightarrow> tm e = Some u \<longrightarrow> \<not> time_is_zero u"
    using tm(2) by (fastforce simp: adjacent_in_def time_is_zero_def)
  then obtain r where r: "findNearestEvent env events t lo direction flt = Ok r"
    "nearest_event_spec tm flt direction events r"
    using findNearestEvent_spec [of events flt env direction t lo tm] tm(1) by blast
  show ?thesis
    by (rule that [OF r(1) nearest_adjacent [OF tm(2) r(2)]]) (use nearest_first [of events acts t tm flt] tm(2) r(2) in blast)+
qed

section \<open>The state of a schedule\<close>

text \<open>
  The event that decides whether the job should be running: the one with the latest
  activation up to now, the first of the list among simultaneous ones.
\<close>

definition deciding_event :: "(event_spec \<Rightarrow> int set) \<Rightarrow> event_spec list \<Rightarrow> int \<Rightarrow> event_spec \<Rightarrow> int \<Rightarrow> bool" where
  "deciding_event acts events t e x \<longleftrightarrow>
     (\<exists>pre post. events = pre @ e # post \<and> x \<in> acts e \<and> x \<le> t
        \<and> (\<forall>e' \<in> set events. \<forall>y \<in> acts e'. y \<le> t \<longrightarrow> y \<le> x)
        \<and> (\<forall>e' \<in> set pre. \<forall>y \<in> acts e'. y \<le> t \<longrightarrow> y < x))"

lemma split_point_unique:
  "pre @ e # post = pre' @ e' # post' \<Longrightarrow> e' \<notin> set pre \<Longrightarrow> e \<notin> set pre' \<Longrightarrow> e = e'"
proof (induction pre arbitrary: pre')
  case Nil
  then show ?case by (cases pre') auto
next
  case (Cons a pre)
  then show ?case by (cases pre') auto
qed

lemma deciding_event_unique:
  assumes "deciding_event acts events t e x" "deciding_event acts events t e' x'"
  shows "e = e'"
proof -
  obtain pre post where e: "events = pre @ e # post" "x \<in> acts e" "x \<le> t"
    "\<And>d y. d \<in> set events \<Longrightarrow> y \<in> acts d \<Longrightarrow> y \<le> t \<Longrightarrow> y \<le> x"
    "\<And>d y. d \<in> set pre \<Longrightarrow> y \<in> acts d \<Longrightarrow> y \<le> t \<Longrightarrow> y < x"
    using assms(1) unfolding deciding_event_def by blast
  obtain pre' post' where e': "events = pre' @ e' # post'" "x' \<in> acts e'" "x' \<le> t"
    "\<And>d y. d \<in> set events \<Longrightarrow> y \<in> acts d \<Longrightarrow> y \<le> t \<Longrightarrow> y \<le> x'"
    "\<And>d y. d \<in> set pre' \<Longrightarrow> y \<in> acts d \<Longrightarrow> y \<le> t \<Longrightarrow> y < x'"
    using assms(2) unfolding deciding_event_def by blast
  have "x = x'" using e(1-4) e'(1-4) by (metis in_set_conv_decomp order_antisym)
  then have "e' \<notin> set pre" "e \<notin> set pre'" using e e' by force+
  with split_point_unique show ?thesis using e(1) e'(1) by metis
qed

definition past_stop :: "(event_spec \<Rightarrow> int set) \<Rightarrow> event_spec list \<Rightarrow> int \<Rightarrow> bool" where
  "past_stop acts events t \<longleftrightarrow> (\<exists>x \<in> acts_of acts is_stop events. x \<le> t)"

definition schedule_exact ::
  "cron_env \<Rightarrow> 'p controlled_job \<Rightarrow> location \<Rightarrow> (event_spec \<Rightarrow> int set) \<Rightarrow> gotime \<Rightarrow> bool" where
  "schedule_exact env c loc acts now \<longleftrightarrow>
     LoadLocation env (tzName (csTimezone (cjSpec c))) = Ok loc \<and>
     (let lo = (loc, tzOffsetSeconds (csTimezone (cjSpec c))); events = csEvents (cjSpec c) in
      searches_exact env directionPrevious lo acts events now \<and>
      searches_exact env directionNext lo acts events now \<and>
      (\<forall>t. adjacent_in directionPrevious (acts_of acts is_stop events) (instant now) (Some t) \<longrightarrow>
           searches_exact env directionNext lo acts events t))"

lemma previous_decides:
  assumes "adjacent_in directionPrevious (acts_of acts (\<lambda>_. True) events) now (Some u)"
    and "events = pre @ e # post" "instant u \<in> acts e" "\<forall>e' \<in> set pre. \<forall>x \<in> acts e'. x \<le> now \<longrightarrow> x < instant u"
  shows "deciding_event acts events now e (instant u)"
proof -
  have "instant u \<le> now" "\<forall>e' \<in> set events. \<forall>x \<in> acts e'. x \<le> now \<longrightarrow> x \<le> instant u"
    using assms(1) by (auto simp: adjacent_in_def acts_of_def)
  then show ?thesis using assms(2-4) unfolding deciding_event_def by blast
qed

lemma StateFor_parts:
  assumes "schedule_exact env c loc acts now"
  defines "events \<equiv> csEvents (cjSpec c)"
  obtains stop p n where
    "findMostRecentStopTime env events (loc, tzOffsetSeconds (csTimezone (cjSpec c))) now = Ok stop"
    "adjacent_in directionPrevious (acts_of acts is_stop events) (instant now) stop"
    "stop = None \<Longrightarrow> list_ex is_start events \<Longrightarrow>
       StateFor env c now = Err (WrapErr start_only_error ''failed to find start of current run period'')"
    "stop = None \<Longrightarrow> \<not> list_ex is_start events \<Longrightarrow>
       StateFor env c now = Ok \<lparr>sdLastStopTime = None, sdStartOfCurrentRunPeriod = None,
         sdPreviousEvent = p, sdNextEvent = n\<rparr>"
    "\<And>t. stop = Some t \<Longrightarrow> \<exists>start. StateFor env c now = Ok \<lparr>sdLastStopTime = stop, sdStartOfCurrentRunPeriod = start,
         sdPreviousEvent = p, sdNextEvent = n\<rparr>
       \<and> adjacent_in directionNext (acts_of acts is_start events) (instant t) start"
    "adjacent_in directionNext (acts_of acts (\<lambda>_. True) events) (instant now) (map_option seScheduledTimeUTC n)"
    "p = None \<Longrightarrow> \<forall>x \<in> acts_of acts (\<lambda>_. True) events. instant now < x"
    "\<And>ev. p = Some ev \<Longrightarrow> \<exists>e. deciding_event acts events (instant now) e (instant (seScheduledTimeUTC ev))
       \<and> seType ev = esAction e"
proof -
  let ?lo = "(loc, tzOffsetSeconds (csTimezone (cjSpec c)))"
  have L: "LoadLocation env (tzName (csTimezone (cjSpec c))) = Ok loc"
    and prev: "searches_exact env directionPrevious ?lo acts events now"
    and nxt: "searches_exact env directionNext ?lo acts events now"
    and from_stop: "\<And>t. adjacent_in directionPrevious (acts_of acts is_stop events) (instant now) (Some t) \<Longrightarrow>
      searches_exact env directionNext ?lo acts events t"
    using assms by (auto simp: schedule_exact_def Let_def)
  obtain p where p: "findNearestEvent env events now ?lo directionPrevious (\<lambda>_. True) = Ok p"
    "adjacent_in directionPrevious (acts_of acts (\<lambda>_. True) events) (instant now) (map_option seScheduledTimeUTC p)"
    "directionPrevious = directionPrevious \<longrightarrow> (\<forall>ev. p = Some ev \<longrightarrow> (\<exists>pre e post. events = pre @ e # post
       \<and> True \<and> seType ev = esAction e \<and> instant (seScheduledTimeUTC ev) \<in> acts e
       \<and> (\<forall>e' \<in> set pre. True \<longrightarrow> (\<forall>x \<in> acts e'. x \<le> instant now \<longrightarrow> x < instant (seScheduledTimeUTC ev)))))"
    by (rule findNearestEvent_acts [OF prev, of "\<lambda>_. True"])
  obtain n where n: "findNearestEvent env events now ?lo directionNext (\<lambda>_. True) = Ok n"
    "adjacent_in directionNext (acts_of acts (\<lambda>_. True) events) (instant now) (map_option seScheduledTimeUTC n)"
    by (rule findNearestEvent_acts [OF nxt, of "\<lambda>_. True"])
  obtain s where s: "findNearestEvent env events now ?lo directionPrevious is_stop = Ok s"
    "adjacent_in directionPrevious (acts_of acts is_stop events) (instant now) (map_option seScheduledTimeUTC s)"
    by (rule findNearestEvent_acts [OF prev, of is_stop])
  let ?stop = "map_option seScheduledTimeUTC s"
  have stop: "findMostRecentStopTime env events ?lo now = Ok ?stop"
    using s(1) by (simp add: findMostRecentStopTime_def)
  have ev: "csEvents (cjSpec c) = events" by (simp add: events_def)
  note sf = StateFor_def [of env c now] Let_def L ev p(1) n(1) stop findStartOfCurrentRunPeriod_def
  show ?thesis
  proof (rule that [OF stop s(2)])
    show "StateFor env c now = Err (WrapErr start_only_error ''failed to find start of current run period'')"
      if "?stop = None" "list_ex is_start events"
      using that by (simp add: sf)
    show "StateFor env c now = Ok \<lparr>sdLastStopTime = None, sdStartOfCurrentRunPeriod = None,
         sdPreviousEvent = p, sdNextEvent = n\<rparr>" if "?stop = None" "\<not> list_ex is_start events"
      using that by (simp add: sf)
    show "\<exists>start. StateFor env c now = Ok \<lparr>sdLastStopTime = ?stop, sdStartOfCurrentRunPeriod = start,
         sdPreviousEvent = p, sdNextEvent = n\<rparr>
       \<and> adjacent_in directionNext (acts_of acts is_start events) (instant t) start" if t: "?stop = Some t" for t
    proof -
      obtain r where "findNearestEvent env events t ?lo directionNext is_start = Ok r"
        "adjacent_in directionNext (acts_of acts is_start events) (instant t) (map_option seScheduledTimeUTC r)"
        using findNearestEvent_acts [OF from_stop, of t is_start] s(2) t by metis
      then show ?thesis using t by (auto simp: sf)
    qed
    show "adjacent_in directionNext (acts_of acts (\<lambda>_. True) events) (instant now) (map_option seScheduledTimeUTC n)"
      by (rule n(2))
    show "\<forall>x \<in> acts_of acts (\<lambda>_. True) events. instant now < x" if "p = None"
      using p(2) that by (simp add: adjacent_in_def)
    show "\<exists>e. deciding_event acts events (instant now) e (instant (seScheduledTimeUTC ev)) \<and> seType ev = esAction e"
      if "p = Some ev" for ev
    proof -
      note pe = that
      obtain pre e post where e: "events = pre @ e # post" "seType ev = esAction e"
        "instant (seScheduledTimeUTC ev) \<in> acts e"
        "\<forall>e' \<in> set pre. \<forall>x \<in> acts e'. x \<le> instant now \<longrightarrow> x < instant (seScheduledTimeUTC ev)"
        using p(3) pe by blast
      have "adjacent_in directionPrevious (acts_of acts (\<lambda>_. True) events) (instant now) (Some (seScheduledTimeUTC ev))"
        using p(2) pe by simp
      then show ?thesis using previous_decides e by metis
    qed
  qed
qed

lemma StateFor_conclusions:
  assumes "schedule_exact env c loc acts now"
    and "past_stop acts (csEvents (cjSpec c)) (instant now)"
  obtains st stop e x where "StateFor env c now = Ok st" "LastStopTime st = Some stop"
    "adjacent_in directionPrevious (acts_of acts is_stop (csEvents (cjSpec c))) (instant now) (Some stop)"
    "adjacent_in directionNext (acts_of acts (\<lambda>_. True) (csEvents (cjSpec c))) (instant now) (NextEventTime st)"
    "adjacent_in directionNext (acts_of acts is_start (csEvents (cjSpec c))) (instant stop) (StartOfCurrentRunPeriod st)"
    "deciding_event acts (csEvents (cjSpec c)) (instant now) e x" "ShouldBeRunning st \<longleftrightarrow> is_start e"
  using assms(1)
proof (rule StateFor_parts)
  fix stop p n
  let ?events = "csEvents (cjSpec c)"
  assume s: "adjacent_in directionPrevious (acts_of acts is_stop ?events) (instant now) stop"
    and st: "\<And>t. stop = Some t \<Longrightarrow> \<exists>start. StateFor env c now = Ok \<lparr>sdLastStopTime = stop,
         sdStartOfCurrentRunPeriod = start, sdPreviousEvent = p, sdNextEvent = n\<rparr>
       \<and> adjacent_in directionNext (acts_of acts is_start ?events) (instant t) start"
    and n: "adjacent_in directionNext (acts_of acts (\<lambda>_. True) ?events) (instant now) (map_option seScheduledTimeUTC n)"
    and none: "p = None \<Longrightarrow> \<forall>x \<in> acts_of acts (\<lambda>_. True) ?events. instant now < x"
    and some: "\<And>ev. p = Some ev \<Longrightarrow> \<exists>e. deciding_event acts ?events (instant now) e (instant (seScheduledTimeUTC ev))
       \<and> seType ev = esAction e"
  obtain t where t: "stop = Some t" using s assms(2) by (cases stop) (auto simp: adjacent_in_def past_stop_def)
  obtain ev where ev: "p = Some ev"
    using none assms(2) by (cases p) (force simp: past_stop_def acts_of_def)+
  obtain e where e: "deciding_event acts ?events (instant now) e (instant (seScheduledTimeUTC ev))"
    "seType ev = esAction e" using some [OF ev] by blast
  obtain start where start: "StateFor env c now = Ok \<lparr>sdLastStopTime = stop,
      sdStartOfCurrentRunPeriod = start, sdPreviousEvent = p, sdNextEvent = n\<rparr>"
    "adjacent_in directionNext (acts_of acts is_start ?events) (instant t) start" using st [OF t] by blast
  show thesis
    by (rule that [OF start(1) _ _ _ _ e(1), of t])
      (use s n t ev e start(2) in \<open>simp_all add: LastStopTime_def NextEventTime_def StartOfCurrentRunPeriod_def
        ShouldBeRunning_def is_start_def\<close>)
qed

section \<open>Properties\<close>

text \<open>
  C9: \<^verbatim>\<open>StateFor\<close>, for any list of events whose searches are exact at the times the code asks
  for, and with some stop at or before \<open>now\<close>: it returns; \<^verbatim>\<open>LastStopTime\<close> is the last stop
  at or before \<open>now\<close>; \<^verbatim>\<open>NextEventTime\<close> is the first activation of any event after \<open>now\<close>;
  \<^verbatim>\<open>StartOfCurrentRunPeriod\<close> is the first start after the last stop; and \<^verbatim>\<open>ShouldBeRunning\<close>
  holds exactly if the event with the latest activation up to now, the first in the list
  among simultaneous ones, is a start.
\<close>

theorem StateFor_correct:
  assumes "schedule_exact env c loc acts now"
    and "past_stop acts (csEvents (cjSpec c)) (instant now)"
  shows "\<exists>st stop. StateFor env c now = Ok st \<and> LastStopTime st = Some stop
    \<and> adjacent_in directionPrevious (acts_of acts is_stop (csEvents (cjSpec c))) (instant now) (Some stop)
    \<and> adjacent_in directionNext (acts_of acts (\<lambda>_. True) (csEvents (cjSpec c))) (instant now) (NextEventTime st)
    \<and> adjacent_in directionNext (acts_of acts is_start (csEvents (cjSpec c))) (instant stop) (StartOfCurrentRunPeriod st)
    \<and> (ShouldBeRunning st \<longleftrightarrow>
        (\<exists>e x. deciding_event acts (csEvents (cjSpec c)) (instant now) e x \<and> is_start e))"
proof -
  obtain st stop e x where "StateFor env c now = Ok st" "LastStopTime st = Some stop"
    "adjacent_in directionPrevious (acts_of acts is_stop (csEvents (cjSpec c))) (instant now) (Some stop)"
    "adjacent_in directionNext (acts_of acts (\<lambda>_. True) (csEvents (cjSpec c))) (instant now) (NextEventTime st)"
    "adjacent_in directionNext (acts_of acts is_start (csEvents (cjSpec c))) (instant stop) (StartOfCurrentRunPeriod st)"
    "deciding_event acts (csEvents (cjSpec c)) (instant now) e x" "ShouldBeRunning st \<longleftrightarrow> is_start e"
    using assms by (rule StateFor_conclusions)
  then show ?thesis using deciding_event_unique by blast
qed

text \<open>
  C23: The run period, for a schedule whose searches are exact and that has a stop at or before
  \<open>now\<close>. While the schedule says the job should be running, \<^verbatim>\<open>StartOfCurrentRunPeriod\<close> is a start
  after the last stop and not after \<open>now\<close>, the first one since that stop, unless the last stop
  coincides with a start and no other has followed: then it is a time after \<open>now\<close>, or nil. While
  it should not be running, and the schedule has no events but starts and stops, it is a time
  after \<open>now\<close>, or nil: the start of the next period, where the comment on the interface
  promises the most recent completed one.
\<close>

theorem StateFor_run_period:
  assumes "schedule_exact env c loc acts now"
    and "past_stop acts (csEvents (cjSpec c)) (instant now)"
  shows "\<exists>st stop. StateFor env c now = Ok st \<and> LastStopTime st = Some stop
    \<and> adjacent_in directionPrevious (acts_of acts is_stop (csEvents (cjSpec c))) (instant now) (Some stop)
    \<and> (ShouldBeRunning st \<longrightarrow>
        (\<exists>p. StartOfCurrentRunPeriod st = Some p \<and> instant stop < instant p \<and> instant p \<le> instant now
          \<and> instant p \<in> acts_of acts is_start (csEvents (cjSpec c))
          \<and> (\<forall>x \<in> acts_of acts is_start (csEvents (cjSpec c)). instant stop < x \<longrightarrow> instant p \<le> x))
        \<or> instant stop \<in> acts_of acts is_start (csEvents (cjSpec c))
          \<and> (\<forall>p. StartOfCurrentRunPeriod st = Some p \<longrightarrow> instant now < instant p))
    \<and> (\<not> ShouldBeRunning st \<longrightarrow> (\<forall>e \<in> set (csEvents (cjSpec c)). is_start e \<or> is_stop e) \<longrightarrow>
        (\<forall>p. StartOfCurrentRunPeriod st = Some p \<longrightarrow> instant now < instant p))"
proof -
  let ?events = "csEvents (cjSpec c)"
  let ?starts = "acts_of acts is_start ?events" and ?stops = "acts_of acts is_stop ?events"
  obtain st stop e x where st: "StateFor env c now = Ok st" "LastStopTime st = Some stop"
    and stop: "adjacent_in directionPrevious ?stops (instant now) (Some stop)"
    and start: "adjacent_in directionNext ?starts (instant stop) (StartOfCurrentRunPeriod st)"
    and e: "deciding_event acts ?events (instant now) e x" "ShouldBeRunning st \<longleftrightarrow> is_start e"
    using assms by (rule StateFor_conclusions)
  have x: "x \<in> acts e" "e \<in> set ?events" "x \<le> instant now"
    "\<And>d y. d \<in> set ?events \<Longrightarrow> y \<in> acts d \<Longrightarrow> y \<le> instant now \<Longrightarrow> y \<le> x"
    using e(1) by (auto simp: deciding_event_def)
  have later: "\<forall>p. StartOfCurrentRunPeriod st = Some p \<longrightarrow> instant now < instant p" if "x \<le> instant stop"
    using start that x(4) by (force simp: adjacent_in_def acts_of_def)
  show ?thesis
  proof (cases "is_start e")
    case True
    then have "x \<in> ?starts" using x by (auto simp: acts_of_def)
    moreover have "instant stop \<le> x" using stop x(4) by (auto simp: adjacent_in_def acts_of_def)
    ultimately consider "instant stop < x" | "instant stop \<in> ?starts" "x \<le> instant stop" by force
    then show ?thesis
    proof cases
      case 1
      then show ?thesis
        using True st e(2) stop start x(3) \<open>x \<in> ?starts\<close>
        by (auto simp: adjacent_in_def split: option.splits intro: order_trans)
    next
      case 2
      then show ?thesis using True st e(2) stop later by simp
    qed
  next
    case False
    have "\<forall>e \<in> set ?events. is_start e \<or> is_stop e \<Longrightarrow> x \<le> instant stop"
      using False x stop by (force simp: adjacent_in_def acts_of_def)
    then show ?thesis using False st e(2) stop later by simp
  qed
qed

text \<open>
  A schedule with start events and no stop at or before \<open>now\<close> is refused: \<^verbatim>\<open>StateFor\<close> returns
  the error that start-only schedules are not supported.
\<close>

theorem StateFor_start_only:
  assumes "schedule_exact env c loc acts now"
    and "\<not> past_stop acts (csEvents (cjSpec c)) (instant now)" "list_ex is_start (csEvents (cjSpec c))"
  shows "StateFor env c now = Err (WrapErr start_only_error ''failed to find start of current run period'')"
  using assms(1)
proof (rule StateFor_parts)
  fix stop
  assume "adjacent_in directionPrevious (acts_of acts is_stop (csEvents (cjSpec c))) (instant now) stop"
    and err: "stop = None \<Longrightarrow> list_ex is_start (csEvents (cjSpec c)) \<Longrightarrow> StateFor env c now
      = Err (WrapErr start_only_error ''failed to find start of current run period'')"
  then have "stop = None" using assms(2) by (cases stop) (auto simp: adjacent_in_def past_stop_def)
  then show ?thesis using err assms(3) by blast
qed

text \<open>
  A start and a stop at the same instant, the start first in the list: from that instant
  until the next event the schedule says the job should be running, and
  \<^verbatim>\<open>StartOfCurrentRunPeriod\<close> is a time after \<open>now\<close> (or nil), because the search goes forward from
  the stop and does not see the start that coincides with it.
\<close>

theorem StateFor_simultaneous:
  assumes "schedule_exact env c loc acts now"
    and "deciding_event acts (csEvents (cjSpec c)) (instant now) e x" "is_start e"
    and "x \<in> acts_of acts is_stop (csEvents (cjSpec c))"
  shows "\<exists>st. StateFor env c now = Ok st \<and> ShouldBeRunning st
    \<and> (\<forall>p. StartOfCurrentRunPeriod st = Some p \<longrightarrow> instant now < instant p)"
proof -
  have x: "x \<le> instant now"
    "\<And>d y. d \<in> set (csEvents (cjSpec c)) \<Longrightarrow> y \<in> acts d \<Longrightarrow> y \<le> instant now \<Longrightarrow> y \<le> x"
    using assms(2) by (auto simp: deciding_event_def)
  then have "past_stop acts (csEvents (cjSpec c)) (instant now)" using assms(4) by (auto simp: past_stop_def)
  with assms(1) obtain st stop e' x' where st: "StateFor env c now = Ok st" "LastStopTime st = Some stop"
    "adjacent_in directionPrevious (acts_of acts is_stop (csEvents (cjSpec c))) (instant now) (Some stop)"
    "adjacent_in directionNext (acts_of acts is_start (csEvents (cjSpec c))) (instant stop) (StartOfCurrentRunPeriod st)"
    "deciding_event acts (csEvents (cjSpec c)) (instant now) e' x'" "ShouldBeRunning st \<longleftrightarrow> is_start e'"
    by (rule StateFor_conclusions)
  have "x \<le> instant stop" using st(3) assms(4) x(1) by (simp add: adjacent_in_def)
  then have "instant now < instant p" if "StartOfCurrentRunPeriod st = Some p" for p
    using st(4) that x(2) by (force simp: adjacent_in_def acts_of_def)
  then show ?thesis using st deciding_event_unique [OF assms(2) st(5)] assms(3) by blast
qed

end
