(* ===== verification/NineToFive.thy ===== *)
theory NineToFive
  imports CronCorrect ScheduleState
begin

text \<open>
  A concrete schedule in UTC, every day from 09:00 to 17:00, on which the hypotheses of the
  schedule theorems are discharged: the activations of \<open>daily_at h\<close> are known in closed form,
  backward by the correctness of \<^verbatim>\<open>cronPrev\<close>, forward by the instance \<open>daily_next\<close> of the cron
  library.
\<close>

section \<open>Daily activations\<close>

lemma bit_words [simp]:
  "bit (1 :: u64) n \<longleftrightarrow> n = 0"
  by (simp add: bit_1_iff)

lemma bit_hour: "h < 24 \<Longrightarrow> bit (2 ^ h :: u64) n \<longleftrightarrow> n = h"
  by (auto simp: bit_exp_iff possible_bit_def)

definition months_mask :: u64 where "months_mask = star_bit + 8190"
definition doms_mask :: u64 where "doms_mask = star_bit + 4294967294"
definition dows_mask :: u64 where "dows_mask = star_bit + 127"

lemma masks:
  "1 \<le> m \<Longrightarrow> m \<le> 12 \<Longrightarrow> bit months_mask m"
  "1 \<le> d \<Longrightarrow> d \<le> 31 \<Longrightarrow> bit doms_mask d"
  "w \<le> 6 \<Longrightarrow> bit dows_mask w"
  "bit doms_mask 63" "bit dows_mask 63"
proof -
  have "list_all (bit months_mask) [1..<13]" "list_all (bit doms_mask) [1..<32]" "list_all (bit dows_mask) [0..<7]"
    by code_simp+
  then show "1 \<le> m \<Longrightarrow> m \<le> 12 \<Longrightarrow> bit months_mask m" "1 \<le> d \<Longrightarrow> d \<le> 31 \<Longrightarrow> bit doms_mask d"
    "w \<le> 6 \<Longrightarrow> bit dows_mask w"
    by (auto simp: list_all_iff simp del: upt_rec_numeral)
  show "bit doms_mask 63" "bit dows_mask 63" by code_simp+
qed

lemma cron_matches_daily:
  assumes "h < 24"
  shows "cron_matches (daily_at h l) x \<longleftrightarrow> x mod 86400 = int h * 3600"
proof -
  have "1 \<le> nat (l_month x)" "nat (l_month x) \<le> 12" "1 \<le> nat (l_day x)" "nat (l_day x) \<le> 31"
    using month_day_bounds [of x] l_day_le [of x] by auto
  moreover have "nat (l_weekday x) \<le> 6" by (simp add: l_weekday_def nat_le_iff)
  ultimately have "cron_matches (daily_at h l) x \<longleftrightarrow>
      nat (l_hour x) = h \<and> nat (l_minute x) = 0 \<and> nat (l_second x) = 0"
    using masks assms
    by (simp add: cron_matches_def day_ok_def daily_at_def bit_hour months_mask_def doms_mask_def dows_mask_def)
  also have "\<dots> \<longleftrightarrow> l_hour x = int h \<and> l_minute x = 0 \<and> l_second x = 0"
    using hour_bounds [of x] minute_bounds [of x] by auto
  also have "\<dots> \<longleftrightarrow> x mod 86400 = int h * 3600"
  proof -
    have "x mod 3600 = l_minute x * 60 + l_second x"
      using minute_split [of x] hour_start_eq [of x] by (simp add: minus_div_mult_eq_mod)
    then have x: "x mod 86400 = l_hour x * 3600 + (l_minute x * 60 + l_second x)"
      using time_of_day_split [of x] by simp
    show ?thesis
    proof
      assume h: "x mod 86400 = int h * 3600"
      then have "l_hour x \<le> int h" "int h \<le> l_hour x" using x minute_bounds [of x] by linarith+
      then have "l_hour x = int h" by simp
      moreover from this have "l_minute x * 60 + l_second x = 0"
        using x h by simp
      ultimately show "l_hour x = int h \<and> l_minute x = 0 \<and> l_second x = 0"
        using minute_bounds [of x] by (intro conjI; linarith)
    qed (use x in simp)
  qed
  finally show ?thesis .
qed

lemma l_year_day_before: "l_year x - 1 \<le> l_year (x - 86400)"
proof (rule ccontr)
  assume "\<not> ?thesis"
  then have "days_before_year (l_year (x - 86400) + 1 + 1) \<le> days_before_year (l_year x)"
    by (intro days_before_year_mono) simp
  moreover have "(x - 86400) div 86400 = x div 86400 - 1"
    by (intro int_div_eqI [of _ _ _ "x mod 86400"]) (simp_all add: algebra_simps)
  ultimately show False
    using year_yday [of x] year_yday [of "x - 86400"] year_len_ge [of "l_year (x - 86400) + 1"]
      days_before_year_Suc [of "l_year (x - 86400) + 1"] days_before_year_Suc [of "l_year (x - 86400)"] 
    by simp
qed

lemma l_year_near: "x - 86400 \<le> y \<Longrightarrow> l_year x - 5 \<le> l_year y"
  using l_year_day_before [of x] l_year_mono [of "x - 86400" y] by simp

text \<open>The last second of the time of day \<open>h\<close>:00:00 at or before \<open>x\<close>, and the first one after it.\<close>

definition last_at :: "nat \<Rightarrow> int \<Rightarrow> int" where
  "last_at h x = x - (x - int h * 3600) mod 86400"

lemma last_at:
  assumes "h < 24"
  shows "last_at h x \<le> x" "x - 86400 < last_at h x" "last_at h x mod 86400 = int h * 3600"
    "\<And>y. y \<le> x \<Longrightarrow> y mod 86400 = int h * 3600 \<Longrightarrow> y \<le> last_at h x"
proof -
  show "last_at h x \<le> x" "x - 86400 < last_at h x"
    by (simp_all add: last_at_def)
  have l: "last_at h x = (x - int h * 3600) div 86400 * 86400 + int h * 3600"
    by (simp add: last_at_def minus_mod_eq_div_mult [symmetric])
  show "last_at h x mod 86400 = int h * 3600"
    using assms by (intro int_mod_eqI [OF l]) simp_all
  fix y assume "y \<le> x" "y mod 86400 = int h * 3600"
  then have "y - int h * 3600 = y div 86400 * 86400" by (metis minus_mod_eq_div_mult)
  then have "(y - int h * 3600) div 86400 = y div 86400" by simp
  moreover have "(y - int h * 3600) div 86400 \<le> (x - int h * 3600) div 86400"
    using \<open>y \<le> x\<close> by (intro zdiv_mono1) simp_all
  ultimately show "y \<le> last_at h x"
    using \<open>y - int h * 3600 = _\<close> by (simp add: l)
qed

lemma cronPrev_daily:
  assumes "h < 24"
  shows "cronPrev (daily_at h UTC) t = Some \<lparr>instant =
    (if last_at h (time_sec t) = time_sec t then instant t else last_at h (time_sec t) * nano), locOf = locOf t\<rparr>"
proof -
  note L = last_at(1-3) [OF assms, of "time_sec t"]
  have m: "latest_match 0 (daily_at h UTC) (l_year (time_sec t) - 5) (time_sec t) B
    \<longleftrightarrow> B = last_at h (time_sec t)" for B
  proof
    assume "latest_match 0 (daily_at h UTC) (l_year (time_sec t) - 5) (time_sec t) B"
    then have B: "B \<le> time_sec t" "B mod 86400 = int h * 3600"
      "\<And>x. B < x \<Longrightarrow> x \<le> time_sec t \<Longrightarrow> x mod 86400 \<noteq> int h * 3600"
      by (auto simp: latest_match_def cron_matches_daily [OF assms])
    have "B \<le> last_at h (time_sec t)" by (rule last_at(4) [OF assms B(1,2)])
    moreover have "\<not> B < last_at h (time_sec t)" using B(3) L by blast
    ultimately show "B = last_at h (time_sec t)" by simp
  next
    assume B: "B = last_at h (time_sec t)"
    have "y mod 86400 \<noteq> int h * 3600" if "B < y" "y \<le> time_sec t" for y
      using last_at(4) [OF assms that(2)] that(1) B by auto
    then show "latest_match 0 (daily_at h UTC) (l_year (time_sec t) - 5) (time_sec t) B"
      using L B l_year_near [of "time_sec t" B]
      by (simp add: latest_match_def cron_matches_daily [OF assms])
  qed
  have "spLocation (daily_at h UTC) = fixed_zone ''UTC'' 0" by (simp add: daily_at_def UTC_def)
  from cronPrev_fixed [OF this, of t] show ?thesis by (simp add: m)
qed

section \<open>An instance of the environment\<close>

definition at_hour :: "nat \<Rightarrow> string" where
  "at_hour h = (if h = 9 then ''0 9 * * *'' else ''0 17 * * *'')"

definition daily_next :: "nat \<Rightarrow> gotime \<Rightarrow> gotime" where
  "daily_next h t = \<lparr>instant = (last_at h (time_sec t) + 86400) * nano, locOf = locOf t\<rparr>"

definition nine_env :: cron_env where
  "nine_env = \<lparr>LoadLocation = (\<lambda>name. Ok UTC),
     ParseStandard = (\<lambda>spec. if spec = at_hour 9 then Ok (Some (daily_at 9 UTC))
        else if spec = at_hour 17 then Ok (Some (daily_at 17 UTC))
        else if spec = ''@every 1h'' then Ok None else Err (GoErr ''bad spec'')),
     NextActivation = (\<lambda>s t. if bit (spHour s) 9 then daily_next 9 t else daily_next 17 t)\<rparr>"

definition daily_event :: "string \<Rightarrow> nat \<Rightarrow> event_spec" where
  "daily_event action h = \<lparr>esAction = action, esCronSchedule = at_hour h, esSchedule = None\<rparr>"

definition nine_to_five :: "event_spec list" where
  "nine_to_five = [daily_event EventTypeStart 9, daily_event EventTypeStop 17]"

definition nine_cj :: "unit controlled_job" where
  "nine_cj = blank_cj\<lparr>cjSpec := (cjSpec blank_cj)\<lparr>csEvents := nine_to_five\<rparr>\<rparr>"

definition event_hour :: "event_spec \<Rightarrow> nat" where
  "event_hour e = (if esCronSchedule e = at_hour 9 then 9 else 17)"

definition daily_acts :: "event_spec \<Rightarrow> int set" where
  "daily_acts e = {x * nano |x. x mod 86400 = int (event_hour e) * 3600}"

lemma at_hour_neq [simp]: "at_hour 17 \<noteq> at_hour 9" "at_hour 9 \<noteq> at_hour 17" "at_hour 9 \<noteq> []" "at_hour 17 \<noteq> []"
  by (simp_all add: at_hour_def)

lemma event_hour_daily [simp]: "h = 9 \<or> h = 17 \<Longrightarrow> event_hour (daily_event action h) = h"
  by (auto simp: event_hour_def daily_event_def)

lemma map_daily:
  assumes "h = 9 \<or> h = 17"
  shows "mapEventToSpecSchedule nine_env (daily_event action h) UTC = Ok (Some (daily_at h UTC))"
  using assms by (auto simp: mapEventToSpecSchedule_def AsCronSpec_def daily_event_def nine_env_def daily_at_def)

lemma time_add_0 [simp]: "time_add t (seconds 0) = t"
  by (simp add: time_add_def seconds_def)

lemma spHour_daily [simp]: "spHour (daily_at h l) = push_bit h 1"
  by (simp add: daily_at_def)

definition daily_prev :: "nat \<Rightarrow> gotime \<Rightarrow> gotime" where
  "daily_prev h t = \<lparr>instant = (if last_at h (time_sec t) = time_sec t then instant t
     else last_at h (time_sec t) * nano), locOf = locOf t\<rparr>"

lemma last_at_nonzero: "h = 9 \<or> h = 17 \<Longrightarrow> last_at h x \<noteq> 0 \<and> last_at h x + 86400 \<noteq> 0"
proof -
  assume h: "h = 9 \<or> h = 17"
  then have "last_at h x mod 86400 \<noteq> 0" using last_at(3) [of h x] by auto
  then show ?thesis by (metis mod_0 mod_add_self2)
qed

lemma daily_nonzero:
  assumes "h = 9 \<or> h = 17"
  shows "\<not> time_is_zero (daily_next h t)" "\<not> time_is_zero (daily_prev h t)"
proof -
  note nz = last_at_nonzero [OF assms, of "time_sec t"]
  from nz have "(last_at h (time_sec t) + 86400) * nano \<noteq> 0" by (simp only: mult_eq_0_iff) simp
  then show "\<not> time_is_zero (daily_next h t)" unfolding time_is_zero_def daily_next_def gotime.simps .
  have "instant t \<noteq> 0" if "last_at h (time_sec t) = time_sec t"
    using nz that by (auto simp: time_sec_def)
  then show "\<not> time_is_zero (daily_prev h t)" using nz by (simp add: time_is_zero_def daily_prev_def)
qed

lemma daily_time:
  assumes "h = 9 \<or> h = 17"
  shows "event_time nine_env direction t (UTC, 0) (daily_event action h) = Ok (Some
    (if direction = directionNext then daily_next h t else daily_prev h t))"
proof -
  have h: "h < 24" using assms by auto
  have "NextActivation nine_env (daily_at h UTC) t = daily_next h t"
    using assms by (auto simp: nine_env_def bit_hour)
  then show ?thesis
    using map_daily [OF assms, of action] cronPrev_daily [OF h, of t, folded daily_prev_def]
      daily_nonzero [OF assms, of t]
    by (simp add: event_time_def shiftedTime_def adjacentEventTime_def)
qed

lemma daily_exact:
  assumes "h = 9 \<or> h = 17" "instant t mod nano = 0"
  shows "\<exists>r. event_time nine_env direction t (UTC, 0) (daily_event action h) = Ok r
    \<and> adjacent_in direction (daily_acts (daily_event action h)) (instant t) r"
proof -
  have h: "h < 24" using assms(1) by auto
  define T where "T = time_sec t"
  have t: "instant t = T * nano" using assms(2) by (simp add: T_def time_sec_def minus_mod_eq_div_mult [symmetric])
  note L = last_at(1-3) [OF h, of T]
  have prev: "daily_prev h t = \<lparr>instant = last_at h T * nano, locOf = locOf t\<rparr>"
    by (simp add: daily_prev_def T_def [symmetric] t)
  define N where "N = last_at h T + 86400"
  have nxt: "daily_next h t = \<lparr>instant = N * nano, locOf = locOf t\<rparr>"
    by (simp only: daily_next_def T_def [symmetric] N_def)
  have N: "N mod 86400 = int h * 3600" "T < N" using L by (simp_all add: N_def)
  have "N \<le> y" if "T < y" "y mod 86400 = int h * 3600" for y
  proof -
    have "(y - last_at h T) mod 86400 = 0" using that(2) L(3) by (metis mod_diff_cong mod_0 diff_self)
    then obtain k where k: "y - last_at h T = 86400 * k" by blast
    moreover have "0 < y - last_at h T" using that(1) L(1) by simp
    ultimately have "1 \<le> k" by simp
    then show ?thesis using k by (simp add: N_def)
  qed
  moreover have "y \<le> last_at h T" if "y \<le> T" "y mod 86400 = int h * 3600" for y
    using last_at(4) [OF h that] .
  ultimately have "adjacent_in direction (daily_acts (daily_event action h)) (instant t)
    (Some (if direction = directionNext then daily_next h t else daily_prev h t))"
    using L N daily_nonzero [OF assms(1), of t] assms(1)
    by (auto simp: adjacent_in_def daily_acts_def t prev nxt time_is_zero_def)
  then show ?thesis using daily_time [OF assms(1)] by blast
qed

lemma nine_exact:
  assumes "instant now mod nano = 0"
  shows "schedule_exact nine_env nine_cj UTC daily_acts now"
proof -
  have "searches_exact nine_env direction (UTC, 0) daily_acts nine_to_five t" if "instant t mod nano = 0" for direction t
    using daily_exact [of 9 t direction EventTypeStart] daily_exact [of 17 t direction EventTypeStop] that
    by (simp add: searches_exact_def nine_to_five_def)
  moreover have "instant t mod nano = 0" if "instant t \<in> acts_of daily_acts is_stop nine_to_five" for t
    using that by (auto simp: acts_of_def daily_acts_def)
  ultimately show ?thesis
    using assms by (auto simp: schedule_exact_def nine_cj_def blank_cj_def nine_env_def adjacent_in_def Let_def)
qed

section \<open>The schedule theorems at noon\<close>

definition noon :: gotime where
  "noon = utc_at 1657627200"

definition restart_cj :: "unit controlled_job" where
  "restart_cj = blank_cj\<lparr>cjSpec := (cjSpec blank_cj)\<lparr>csEvents :=
     [daily_event EventTypeStart 9, daily_event EventTypeStop 9]\<rparr>\<rparr>"

definition start_only_cj :: "unit controlled_job" where
  "start_only_cj = blank_cj\<lparr>cjSpec := (cjSpec blank_cj)\<lparr>csEvents := [daily_event EventTypeStart 9]\<rparr>\<rparr>"

definition every_event :: event_spec where
  "every_event = \<lparr>esAction = EventTypeStart, esCronSchedule = ''@every 1h'', esSchedule = None\<rparr>"

lemma noon_whole: "instant noon mod nano = 0"
  by (simp add: noon_def utc_at_def)

lemma events_of [simp]:
  "csEvents (cjSpec nine_cj) = nine_to_five"
  "csEvents (cjSpec restart_cj) = [daily_event EventTypeStart 9, daily_event EventTypeStop 9]"
  "csEvents (cjSpec start_only_cj) = [daily_event EventTypeStart 9]"
  by (simp_all add: nine_cj_def restart_cj_def start_only_cj_def)

lemma esAction_daily [simp]: "esAction (daily_event action h) = action"
  by (simp add: daily_event_def)

lemma daily_act: "h = 9 \<or> h = 17 \<Longrightarrow> x mod 86400 = int h * 3600 \<Longrightarrow> x * nano \<in> daily_acts (daily_event action h)"
  by (auto simp: daily_acts_def)

lemma nine_past_stop: "past_stop daily_acts nine_to_five (instant noon)"
  unfolding past_stop_def acts_of_def nine_to_five_def
  using daily_act [of 17 "1657558800 + unix_epoch" EventTypeStop]
  by (intro bexI [of _ "(1657558800 + unix_epoch) * nano"])
    (auto simp: is_stop_def noon_def utc_at_def)

lemma nine_disjoint: "acts_of daily_acts is_start nine_to_five \<inter> acts_of daily_acts is_stop nine_to_five = {}"
  by (auto simp: acts_of_def nine_to_five_def daily_acts_def is_start_def is_stop_def)

lemma daily_prev_noon:
  "instant (daily_prev 9 noon) = (1657616400 + unix_epoch) * nano"
  "instant (daily_prev 17 noon) = (1657558800 + unix_epoch) * nano"
  by (simp_all add: daily_prev_def noon_def utc_at_def time_sec_def last_at_def)

theorem findNearestEvent_correct_witness:
  "findNearestEvent nine_env nine_to_five noon (UTC, 0) directionPrevious (\<lambda>_. True)
     = Ok (Some \<lparr>seType = EventTypeStart, seScheduledTimeUTC = daily_prev 9 noon\<rparr>)"
proof -
  let ?tm = "\<lambda>e. Some (daily_prev (event_hour e) noon)"
  have "\<forall>e \<in> set nine_to_five. True \<longrightarrow> event_time nine_env directionPrevious noon (UTC, 0) e = Ok (?tm e)"
    by (simp add: nine_to_five_def daily_time)
  moreover have "\<forall>e \<in> set nine_to_five. \<forall>t. True \<longrightarrow> ?tm e = Some t \<longrightarrow> \<not> time_is_zero t"
    by (simp add: nine_to_five_def daily_nonzero)
  moreover have "\<not> (\<forall>e \<in> set nine_to_five. True \<longrightarrow> ?tm e = None)" by (simp add: nine_to_five_def) blast
  ultimately obtain pre e post t where e: "nine_to_five = pre @ e # post" "?tm e = Some t"
    "findNearestEvent nine_env nine_to_five noon (UTC, 0) directionPrevious (\<lambda>_. True)
       = Ok (Some \<lparr>seType = esAction e, seScheduledTimeUTC = t\<rparr>)"
    "\<forall>e' \<in> set nine_to_five. \<forall>u. True \<longrightarrow> ?tm e' = Some u \<longrightarrow>
      (if directionPrevious = directionNext then instant t \<le> instant u else instant u \<le> instant t)"
    using findNearestEvent_correct [of nine_to_five "\<lambda>_. True" nine_env directionPrevious noon "(UTC, 0)" ?tm]
    by blast
  have "e \<in> set nine_to_five" unfolding e(1) by simp
  then have "e = daily_event EventTypeStart 9"
    using e(2,4) by (auto simp: nine_to_five_def daily_prev_noon)
  then show ?thesis using e(2,3) by simp
qed

theorem findNearestEvent_nil_schedule_witness:
  "findNearestEvent nine_env [daily_event EventTypeStop 17, every_event] noon (UTC, 0) directionNext (\<lambda>_. True) = Panic"
  by (rule findNearestEvent_nil_schedule [where e = every_event and spec = "''@every 1h''"
      and sch = "\<lambda>e. if e = every_event then None else Some (daily_at 17 UTC)"])
    (auto simp: map_daily every_event_def daily_event_def AsCronSpec_def nine_env_def at_hour_def
      mapEventToSpecSchedule_def daily_at_def)

theorem StateFor_correct_witness:
  "\<exists>st stop. StateFor nine_env nine_cj noon = Ok st \<and> LastStopTime st = Some stop
    \<and> instant stop \<in> acts_of daily_acts is_stop nine_to_five"
  using StateFor_correct [OF nine_exact [OF noon_whole]] nine_past_stop
  by (auto simp: adjacent_in_def)

theorem StateFor_run_period_witness:
  "\<exists>st stop. StateFor nine_env nine_cj noon = Ok st \<and> LastStopTime st = Some stop
     \<and> (ShouldBeRunning st \<longrightarrow> (\<exists>p. StartOfCurrentRunPeriod st = Some p \<and> instant stop < instant p \<and> instant p \<le> instant noon))"
proof -
  have "instant stop \<notin> acts_of daily_acts is_start nine_to_five"
    if "adjacent_in directionPrevious (acts_of daily_acts is_stop nine_to_five) (instant noon) (Some stop)" for stop
    using that nine_disjoint by (auto simp: adjacent_in_def)
  then show ?thesis
    using StateFor_run_period [OF nine_exact [OF noon_whole]] nine_past_stop by simp blast
qed

lemma daily_schedule_exact:
  assumes "csEvents (cjSpec c) = map (\<lambda>a. daily_event a 9) actions" "cjSpec c = (cjSpec blank_cj)\<lparr>csEvents := csEvents (cjSpec c)\<rparr>"
    "instant now mod nano = 0"
  shows "schedule_exact nine_env c UTC daily_acts now"
proof -
  have "searches_exact nine_env direction (UTC, 0) daily_acts (csEvents (cjSpec c)) t"
    if "instant t mod nano = 0" for direction t
    using daily_exact [of 9 t direction] that by (auto simp: searches_exact_def assms(1))
  moreover have "instant t mod nano = 0" if "instant t \<in> acts_of daily_acts is_stop (csEvents (cjSpec c))" for t
    using that by (auto simp: acts_of_def daily_acts_def)
  moreover have "csTimezone (cjSpec c) = csTimezone (cjSpec blank_cj)"
    by (subst assms(2)) simp
  ultimately show ?thesis
    using assms(3) by (auto simp: schedule_exact_def blank_cj_def nine_env_def adjacent_in_def Let_def)
qed

theorem StateFor_start_only_witness:
  "StateFor nine_env start_only_cj noon = Err (WrapErr start_only_error ''failed to find start of current run period'')"
  by (rule StateFor_start_only [OF daily_schedule_exact [where actions = "[EventTypeStart]"]])
    (auto simp: noon_whole start_only_cj_def past_stop_def acts_of_def is_stop_def is_start_def)

theorem StateFor_simultaneous_witness:
  "\<exists>st. StateFor nine_env restart_cj noon = Ok st \<and> ShouldBeRunning st
    \<and> (\<forall>p. StartOfCurrentRunPeriod st = Some p \<longrightarrow> instant noon < instant p)"
proof (rule StateFor_simultaneous [where x = "(1657616400 + unix_epoch) * nano" and e = "daily_event EventTypeStart 9"])
  let ?x = "(1657616400 + unix_epoch) * nano"
  show "schedule_exact nine_env restart_cj UTC daily_acts noon"
    by (rule daily_schedule_exact [where actions = "[EventTypeStart, EventTypeStop]"])
      (simp_all add: noon_whole restart_cj_def)
  have "y \<le> ?x" if "y \<in> daily_acts (daily_event a 9)" "y \<le> instant noon" for y a
  proof -
    note y = that
    obtain z where z: "y = z * nano" "z mod 86400 = 32400" using y(1) by (auto simp: daily_acts_def)
    then have "z \<le> 1657627200 + unix_epoch" using y(2) by (simp add: noon_def utc_at_def)
    then have "z \<le> last_at 9 (1657627200 + unix_epoch)" using z(2) by (intro last_at(4)) simp_all
    then show ?thesis using z(1) by (simp add: last_at_def)
  qed
  moreover have "?x \<in> daily_acts (daily_event a 9)" for a by (rule daily_act) simp_all
  ultimately show "deciding_event daily_acts (csEvents (cjSpec restart_cj)) (instant noon) (daily_event EventTypeStart 9) ?x"
    unfolding deciding_event_def
    by (intro exI [of _ "[]"] exI [of _ "[daily_event EventTypeStop 9]"]) (auto simp: noon_def utc_at_def)
  show "?x \<in> acts_of daily_acts is_stop (csEvents (cjSpec restart_cj))"
    using daily_act [of 9 "1657616400 + unix_epoch" EventTypeStop] by (auto simp: acts_of_def is_stop_def)
qed (simp add: is_start_def)

end
