(* ===== verification/GoText.thy ===== *)
theory GoText
  imports ApiTypes "HOL-Library.Monad_Syntax"
begin

text \<open>
  The text functions of the Go standard library that the program uses: \<^verbatim>\<open>%d\<close>, \<^verbatim>\<open>strconv.Atoi\<close>
  (on 64-bit ints), \<^verbatim>\<open>strconv.ParseBool\<close>, \<^verbatim>\<open>strings.EqualFold\<close> and \<^verbatim>\<open>ToLower\<close> (on ASCII letters;
  the strings they are compared with have no letter that a non-ASCII letter folds to), and
  \<^verbatim>\<open>Format\<close> and \<^verbatim>\<open>Parse\<close> for \<^verbatim>\<open>time.RFC3339\<close>. A failed parse is \<open>None\<close>: the text of library errors
  is not modelled.
\<close>

section \<open>Decimal numbers\<close>

definition digit :: "nat \<Rightarrow> char" where
  "digit d = char_of (48 + d)"

definition digit_value :: "char \<Rightarrow> nat" where
  "digit_value c = of_char c - 48"

fun digits_of :: "nat \<Rightarrow> string" where
  "digits_of n = (if n < 10 then [digit n] else digits_of (n div 10) @ [digit (n mod 10)])"

declare digits_of.simps [simp del]

definition value_of :: "string \<Rightarrow> nat" where
  "value_of s = foldl (\<lambda>n c. n * 10 + digit_value c) 0 s"

definition itoa :: "int \<Rightarrow> string" where
  "itoa i = (if i < 0 then CHR ''-'' # digits_of (nat (- i)) else digits_of (nat i))"

definition atoi :: "string \<Rightarrow> int option" where
  "atoi s =
     (let (neg, ds) = (case s of c # r \<Rightarrow> if c = CHR ''-'' then (True, r)
                                        else if c = CHR ''+'' then (False, r) else (False, s)
                       | [] \<Rightarrow> (False, []));
          v = (if neg then - int (value_of ds) else int (value_of ds))
      in if ds = [] \<or> \<not> list_all is_digit ds then None
         else if v < - (2 ^ 63) \<or> 2 ^ 63 \<le> v then None
         else Some v)"

lemma of_char_digit: "d < 10 \<Longrightarrow> of_char (digit d) = 48 + d"
  by (simp add: digit_def)

lemma digit_props [simp]:
  assumes "d < 10"
  shows "is_digit (digit d)" "digit_value (digit d) = d"
  using assms by (simp_all add: is_digit_def digit_value_def of_char_digit)

lemma value_of_snoc [simp]: "value_of (s @ [c]) = value_of s * 10 + digit_value c"
  by (simp add: value_of_def)

lemma digits_of: "digits_of n \<noteq> [] \<and> list_all is_digit (digits_of n) \<and> value_of (digits_of n) = n"
proof (induction n rule: digits_of.induct)
  case (1 n)
  then show ?case
    by (subst (1 2 3) digits_of.simps) (simp add: value_of_def [of "[_]"])
qed

lemma is_digit_not_sign: "is_digit c \<Longrightarrow> c \<noteq> CHR ''-'' \<and> c \<noteq> CHR ''+'' \<and> c \<noteq> CHR '':''"
  by (auto simp: is_digit_def)

lemma atoi_itoa:
  assumes "- (2 ^ 63) \<le> i" "i < 2 ^ 63"
  shows "atoi (itoa i) = Some i"
proof (cases "i < 0")
  case True
  then show ?thesis using digits_of [of "nat (- i)"] assms by (simp add: atoi_def itoa_def)
next
  case False
  obtain c r where c: "digits_of (nat i) = c # r" "is_digit c"
    using digits_of [of "nat i"] by (cases "digits_of (nat i)") auto
  then show ?thesis using False digits_of [of "nat i"] assms is_digit_not_sign [OF c(2)]
    by (simp add: atoi_def itoa_def)
qed

lemma itoa_inject: "itoa i = itoa j \<Longrightarrow> i = j"
proof -
  assume eq: "itoa i = itoa j"
  have neg: "itoa i = CHR ''-'' # ds \<Longrightarrow> i < 0" for i ds
    using digits_of [of "nat i"] is_digit_not_sign [of "CHR ''-''"] by (auto simp: itoa_def split: if_splits)
  have "j < 0" if "i < 0" using neg [of j "digits_of (nat (- i))"] eq that by (simp add: itoa_def [of i])
  moreover have "i < 0" if "j < 0" using neg [of i "digits_of (nat (- j))"] eq that by (simp add: itoa_def [of j])
  ultimately have "i < 0 \<longleftrightarrow> j < 0" by blast
  then have "digits_of (nat \<bar>i\<bar>) = digits_of (nat \<bar>j\<bar>)"
    using eq by (simp add: itoa_def split: if_splits)
  then have "nat \<bar>i\<bar> = nat \<bar>j\<bar>" using digits_of by metis
  with \<open>i < 0 \<longleftrightarrow> j < 0\<close> show "i = j" by linarith
qed

section \<open>Booleans and letter case\<close>

definition parse_bool :: "string \<Rightarrow> bool option" where
  "parse_bool s =
     (if s \<in> {''1'', ''t'', ''T'', ''TRUE'', ''true'', ''True''} then Some True
      else if s \<in> {''0'', ''f'', ''F'', ''FALSE'', ''false'', ''False''} then Some False
      else None)"

definition ascii_lower :: "char \<Rightarrow> char" where
  "ascii_lower c = (if (65::nat) \<le> of_char c \<and> of_char c \<le> (90::nat) then char_of (of_char c + (32::nat)) else c)"

definition to_lower :: "string \<Rightarrow> string" where
  "to_lower s = map ascii_lower s"

definition equal_fold :: "string \<Rightarrow> string \<Rightarrow> bool" where
  "equal_fold s t \<longleftrightarrow> to_lower s = to_lower t"

definition has_prefix :: "string \<Rightarrow> string \<Rightarrow> bool" where
  "has_prefix s p \<longleftrightarrow> take (length p) s = p"

section \<open>RFC 3339\<close>

definition append_int :: "int \<Rightarrow> nat \<Rightarrow> string" where
  "append_int x width =
     (let ds = digits_of (nat \<bar>x\<bar>); z = replicate (width - length ds) (CHR ''0'')
      in if x < 0 then CHR ''-'' # z @ ds else z @ ds)"

definition format_zone :: "int \<Rightarrow> string" where
  "format_zone off =
     (if off = 0 then ''Z''
      else let zone = (if off < 0 then - ((- off) div 60) else off div 60)
           in (if zone < 0 then CHR ''-'' else CHR ''+'') # append_int (\<bar>zone\<bar> div 60) 2
              @ CHR '':'' # append_int (\<bar>zone\<bar> mod 60) 2)"

definition format_rfc3339 :: "gotime \<Rightarrow> string" where
  "format_rfc3339 t =
     append_int (time_year t) 4 @ CHR ''-'' # append_int (time_month t) 2 @ CHR ''-'' # append_int (time_day t) 2
     @ CHR ''T'' # append_int (time_hour t) 2 @ CHR '':'' # append_int (time_minute t) 2
     @ CHR '':'' # append_int (time_second t) 2 @ format_zone (zone_offset (locOf t) (time_unix t))"

text \<open>
  The parser: a year of four digits, two-digit fields (the hour may have one digit), an
  optional fraction of a second (after a period or a comma, nine digits at most are used),
  and \<^verbatim>\<open>Z\<close> or an offset of at most 24 hours and 60 minutes.
\<close>

definition lit :: "char \<Rightarrow> string \<Rightarrow> string option" where
  "lit c s = (case s of x # r \<Rightarrow> if x = c then Some r else None | [] \<Rightarrow> None)"

definition getnum :: "bool \<Rightarrow> string \<Rightarrow> (int \<times> string) option" where
  "getnum fixed s =
     (case s of
        a # b # r \<Rightarrow> if \<not> is_digit a then None
          else if is_digit b then Some (int (digit_value a * 10 + digit_value b), r)
          else if fixed then None else Some (int (digit_value a), b # r)
      | [a] \<Rightarrow> if is_digit a \<and> \<not> fixed then Some (int (digit_value a), []) else None
      | [] \<Rightarrow> None)"

definition get_year :: "string \<Rightarrow> (int \<times> string) option" where
  "get_year s =
     (case s of a # b # c # d # r \<Rightarrow>
        if list_all is_digit [a, b, c, d] then Some (int (value_of [a, b, c, d]), r) else None
      | _ \<Rightarrow> None)"

definition get_fraction :: "string \<Rightarrow> int \<times> string" where
  "get_fraction s =
     (case s of x # d # r \<Rightarrow>
        if (x = CHR ''.'' \<or> x = CHR '','') \<and> is_digit d
        then let ds = takeWhile is_digit (d # r); used = take 9 ds
             in (int (value_of used) * 10 ^ (9 - length used), dropWhile is_digit (d # r))
        else (0, s)
      | _ \<Rightarrow> (0, s))"

definition get_zone :: "string \<Rightarrow> (int \<times> string) option" where
  "get_zone s =
     (case s of [] \<Rightarrow> None
      | x # r \<Rightarrow>
          if x = CHR ''Z'' then Some (0, r)
          else if x = CHR ''+'' \<or> x = CHR ''-'' then
            do { (hr, r) \<leftarrow> getnum True r;
                 r \<leftarrow> lit (CHR '':'') r;
                 (mm, r) \<leftarrow> getnum True r;
                 if hr > 24 \<or> mm > 60 then None
                 else Some (if x = CHR ''-'' then - ((hr * 60 + mm) * 60) else (hr * 60 + mm) * 60, r) }
          else None)"

definition days_in :: "int \<Rightarrow> int \<Rightarrow> int" where
  "days_in month year = days_before (is_leap year) (month + 1) - days_before (is_leap year) month"

definition parse_rfc3339 :: "string \<Rightarrow> gotime option" where
  "parse_rfc3339 s =
     do { (year, s) \<leftarrow> get_year s;
          s \<leftarrow> lit (CHR ''-'') s;
          (month, s) \<leftarrow> getnum True s;
          s \<leftarrow> lit (CHR ''-'') s;
          (day, s) \<leftarrow> getnum True s;
          s \<leftarrow> lit (CHR ''T'') s;
          (hour, s) \<leftarrow> getnum False s;
          s \<leftarrow> lit (CHR '':'') s;
          (minute, s) \<leftarrow> getnum True s;
          s \<leftarrow> lit (CHR '':'') s;
          (second, s) \<leftarrow> getnum True s;
          (nsec, s) \<leftarrow> Some (get_fraction s);
          (off, s) \<leftarrow> get_zone s;
          if s \<noteq> [] \<or> month < 1 \<or> 12 < month \<or> day < 1 \<or> days_in month year < day
             \<or> 24 \<le> hour \<or> 60 \<le> minute \<or> 60 \<le> second then None
          else Some \<lparr>instant = (date_days year month day * 86400 + hour * 3600 + minute * 60 + second - off) * nano
                       + nsec,
                     locOf = fixed_zone [] off\<rparr> }"

section \<open>Parsing what was formatted\<close>

lemma digits_of_small: "n < 10 \<Longrightarrow> digits_of n = [digit n]"
  by (subst digits_of.simps) simp

lemma digits_of_two: "10 \<le> n \<Longrightarrow> n < 100 \<Longrightarrow> digits_of n = [digit (n div 10), digit (n mod 10)]"
  by (subst digits_of.simps) (simp add: digits_of_small)

lemma zero_digit: "CHR ''0'' = digit 0"
  using char_of_char [where 'a = nat, of "CHR ''0''"] by (simp add: digit_def)

lemma append_int_2:
  assumes "0 \<le> x" "x < 100"
  shows "append_int x 2 = [digit (nat x div 10), digit (nat x mod 10)]"
proof -
  have "nat \<bar>x\<bar> = nat x" "nat x < 100" using assms by simp_all
  then show ?thesis using assms
    by (cases "nat x < 10") (simp_all add: append_int_def digits_of_small digits_of_two zero_digit)
qed

lemma getnum_append_int [simp]:
  assumes "0 \<le> x" "x < 100"
  shows "getnum fixed (append_int x 2 @ r) = Some (x, r)"
proof -
  have "nat x div 10 < 10" "nat x mod 10 < 10" using assms by auto
  then have "int (digit_value (digit (nat x div 10)) * 10 + digit_value (digit (nat x mod 10))) = x"
    using assms by simp
  then show ?thesis using assms \<open>nat x div 10 < 10\<close> \<open>nat x mod 10 < 10\<close>
    by (simp add: append_int_2 getnum_def)
qed

lemma value_of_Cons: "value_of (c # s) = digit_value c * 10 ^ length s + value_of s"
proof (induction s rule: rev_induct)
  case Nil
  then show ?case by (simp add: value_of_def)
next
  case (snoc d s)
  have "value_of (c # s @ [d]) = value_of (c # s) * 10 + digit_value d"
    using value_of_snoc [of "c # s" d] by simp
  then show ?case by (simp add: snoc algebra_simps)
qed

lemma value_of_zeros [simp]: "value_of (replicate k (CHR ''0'') @ s) = value_of s"
  by (induction k) (simp_all add: value_of_Cons digit_value_def)

lemma length_digits_of: "n < 10 ^ k \<Longrightarrow> 0 < k \<Longrightarrow> length (digits_of n) \<le> k"
proof (induction n arbitrary: k rule: digits_of.induct)
  case (1 n)
  show ?case
  proof (cases "n < 10")
    case True
    then show ?thesis using 1 by (simp add: digits_of_small)
  next
    case False
    obtain j where j: "k = Suc j" using 1(3) by (cases k) auto
    with 1(2) False have "0 < j" by (cases j) auto
    then have "n div 10 < 10 ^ j" using 1(2) j by (simp add: less_mult_imp_div_less mult.commute)
    then have "length (digits_of (n div 10)) \<le> j" using 1(1) False \<open>0 < j\<close> by blast
    then show ?thesis using False j by (subst digits_of.simps) simp
  qed
qed

lemma length_4: "length xs = 4 \<Longrightarrow> \<exists>a b c d. xs = [a, b, c, d]"
  by (auto simp: numeral_eq_Suc length_Suc_conv)

lemma get_year_append_int:
  assumes "0 \<le> y" "y \<le> 9999"
  shows "get_year (append_int y 4 @ r) = Some (y, r)"
proof -
  let ?ds = "digits_of (nat y)" and ?z = "\<lambda>ds. replicate (4 - length ds) (CHR ''0'')"
  have "length ?ds \<le> 4" using length_digits_of [of "nat y" 4] assms by simp
  then have "length (?z ?ds @ ?ds) = 4" by simp
  then obtain a b c d where abcd: "?z ?ds @ ?ds = [a, b, c, d]"
    using length_4 by blast
  have "list_all is_digit (?z ?ds)" by (simp add: list_all_iff is_digit_def)
  then have "list_all is_digit (?z ?ds @ ?ds)" using digits_of [of "nat y"] by simp
  moreover have "value_of (?z ?ds @ ?ds) = nat y" using digits_of [of "nat y"] by simp
  ultimately show ?thesis using assms abcd by (simp add: append_int_def get_year_def)
qed

lemma lit_Cons [simp]: "lit c (c # r) = Some r"
  by (simp add: lit_def)

lemma get_fraction_other: "x \<noteq> CHR ''.'' \<Longrightarrow> x \<noteq> CHR '','' \<Longrightarrow> get_fraction (x # r) = (0, x # r)"
  by (simp add: get_fraction_def split: list.split)

lemma get_fraction_zone [simp]: "get_fraction (format_zone off) = (0, format_zone off)"
  by (simp add: format_zone_def get_fraction_other Let_def)

lemma get_zone_format:
  assumes "off mod 60 = 0" "\<bar>off\<bar> \<le> 86400"
  shows "get_zone (format_zone off) = Some (off, [])"
proof (cases "off = 0")
  case True
  then show ?thesis by (simp add: format_zone_def get_zone_def)
next
  case False
  obtain k where k: "off = 60 * k" using assms(1) by blast
  have "(60 * - k) div 60 = - k" by (rule nonzero_mult_div_cancel_left) simp
  with k have zone: "(if off < 0 then - ((- off) div 60) else off div 60) = k" by simp
  have b: "0 \<le> \<bar>k\<bar> div 60" "\<bar>k\<bar> div 60 \<le> 24" "0 \<le> \<bar>k\<bar> mod 60" "\<bar>k\<bar> mod 60 < 60" using k assms(2) by auto
  have v: "\<bar>k\<bar> div 60 * 60 + \<bar>k\<bar> mod 60 = \<bar>k\<bar>" by simp
  have "getnum True (append_int (\<bar>k\<bar> mod 60) 2) = Some (\<bar>k\<bar> mod 60, [])"
    using getnum_append_int [of "\<bar>k\<bar> mod 60" True "[]"] b by simp
  then show ?thesis
    using False b(1,2) b(3) order_less_imp_le [OF b(4)] v k unfolding format_zone_def zone Let_def
    by (simp add: get_zone_def)
qed

lemma parse_format:
  assumes "0 \<le> time_year t" "time_year t \<le> 9999"
    and "off = zone_offset (locOf t) (time_unix t)" "off mod 60 = 0" "\<bar>off\<bar> \<le> 86400"
  shows "parse_rfc3339 (format_rfc3339 t) =
    Some \<lparr>instant = time_sec t * nano, locOf = fixed_zone [] off\<rparr>"
proof -
  let ?x = "local_sec t"
  have f: "0 \<le> time_month t" "time_month t < 100" "0 \<le> time_day t" "time_day t < 100"
    "0 \<le> time_hour t" "time_hour t < 100" "0 \<le> time_minute t" "time_minute t < 100"
    "0 \<le> time_second t" "time_second t < 100"
    using month_day_bounds [of ?x] l_day_le [of ?x] hour_bounds [of ?x] minute_bounds [of ?x]
    by (simp_all add: time_month_def time_day_def time_hour_def time_minute_def time_second_def)
  have valid: "1 \<le> time_month t" "time_month t \<le> 12" "1 \<le> time_day t" "time_day t \<le> days_in (time_month t) (time_year t)"
    "time_hour t < 24" "time_minute t < 60" "time_second t < 60"
    using month_day_bounds [of ?x] hour_bounds [of ?x] minute_bounds [of ?x]
    by (simp_all add: time_month_def time_day_def time_hour_def time_minute_def time_second_def
        time_year_def days_in_def)
  have "?x mod 3600 = l_minute ?x * 60 + l_second ?x"
    using minute_split [of ?x] hour_start_eq [of ?x] by (simp add: minus_div_mult_eq_mod)
  then have "date_days (time_year t) (time_month t) (time_day t) * 86400 + time_hour t * 3600
      + time_minute t * 60 + time_second t = ?x"
    using date_days_civil [of ?x] time_of_day_split [of ?x] div_mult_mod_eq [of ?x 86400]
    by (simp add: time_month_def time_day_def time_hour_def time_minute_def time_second_def time_year_def)
  then have sec: "date_days (time_year t) (time_month t) (time_day t) * 86400 + time_hour t * 3600
      + time_minute t * 60 + time_second t - off = time_sec t"
    by (simp add: local_sec_def assms(3))
  show ?thesis
    unfolding parse_rfc3339_def format_rfc3339_def assms(3) [symmetric]
    using f valid sec by (simp add: get_year_append_int [OF assms(1,2)] get_zone_format [OF assms(4,5)])
qed

end
