(* ===== verification/Metadata.thy ===== *)
theory Metadata
  imports GoText
begin

text \<open>
  \<^verbatim>\<open>pkg/metadata\<close>: the Kubernetes Job as far as the operator reads it (the rest of its spec is
  the type parameter), the annotations and labels the operator puts on it, the predicates on
  its state, and the names of jobs. A missing map key reads as the empty string, as in Go.
\<close>

section \<open>Jobs\<close>

record job_condition =
  jcType :: string
  jcStatus :: condition_status

record owner_reference =
  orAPIVersion :: string
  orKind :: string
  orName :: string
  orUID :: string
  orController :: "bool option"
  orBlockOwnerDeletion :: "bool option"

record 'p job =
  jobName :: string
  jobNamespace :: string
  jobLabels :: "string \<rightharpoonup> string"
  jobAnnotations :: "string \<rightharpoonup> string"
  jobOwnerReferences :: "owner_reference list"
  jobDeletionTimestamp :: "gotime option"
  jobSpec :: "'p job_spec"
  jobConditions :: "job_condition list"
  jobReady :: "32 word option"
  jobActive :: "32 word"

abbreviation JobComplete :: string where "JobComplete \<equiv> ''Complete''"
abbreviation JobFailed :: string where "JobFailed \<equiv> ''Failed''"

section \<open>Constants\<close>

definition group_name :: string where "group_name = ''batch.gresearch.co.uk''"
definition ApiGVStr :: string where "ApiGVStr = group_name @ ''/v1''"
definition ScheduledTimeAnnotation :: string where "ScheduledTimeAnnotation = group_name @ ''/scheduled-at''"
definition JobRunIdAnnotation :: string where "JobRunIdAnnotation = group_name @ ''/job-run-id''"
definition ControlledJobLabel :: string where "ControlledJobLabel = group_name @ ''/controlled-job''"
definition ManualJobAnnotation :: string where "ManualJobAnnotation = group_name @ ''/is-manually-scheduled''"
definition TemplateHashAnnotation :: string where "TemplateHashAnnotation = group_name @ ''/job-template-hash''"
definition SuspendReason :: string where "SuspendReason = group_name @ ''/suspend-reason''"
definition ApplyMutationsAnnotation :: string where "ApplyMutationsAnnotation = group_name @ ''/apply-mutations''"
definition TimeZoneAnnotation :: string where "TimeZoneAnnotation = group_name @ ''/timezone''"
definition TimeZoneOffsetSecondsAnnotation :: string where
  "TimeZoneOffsetSecondsAnnotation = group_name @ ''/timezone-offset-seconds''"

lemmas annotation_keys = ScheduledTimeAnnotation_def JobRunIdAnnotation_def ManualJobAnnotation_def
  TemplateHashAnnotation_def SuspendReason_def TimeZoneAnnotation_def TimeZoneOffsetSecondsAnnotation_def

lemma annotation_keys_distinct:
  "distinct [ScheduledTimeAnnotation, JobRunIdAnnotation, ManualJobAnnotation, TemplateHashAnnotation,
     SuspendReason, TimeZoneAnnotation, TimeZoneOffsetSecondsAnnotation]"
  by (simp add: annotation_keys)

section \<open>Predicates\<close>

definition annotation :: "'p job \<Rightarrow> string \<Rightarrow> string" where
  "annotation job key = (case jobAnnotations job key of None \<Rightarrow> [] | Some v \<Rightarrow> v)"

text \<open>\<open>hash\<close> is the SHA-256 of the JSON encoding, in hexadecimal.\<close>

definition CalculateHashFor :: "('p job_template_spec \<Rightarrow> string) \<Rightarrow> 'p job_template_spec \<Rightarrow> string" where
  "CalculateHashFor hash spec = hash (spec\<lparr>jtSpec := (jtSpec spec)\<lparr>jsSuspend := None\<rparr>\<rparr>)"

definition IsManuallyScheduledJob :: "'p job \<Rightarrow> bool" where
  "IsManuallyScheduledJob job =
     (case jobAnnotations job ManualJobAnnotation of
        None \<Rightarrow> False
      | Some v \<Rightarrow> (case parse_bool v of None \<Rightarrow> False | Some b \<Rightarrow> b))"

definition GetJobCondition :: "'p job \<Rightarrow> string \<Rightarrow> job_condition option" where
  "GetJobCondition job conditionType =
     find (\<lambda>c. jcType c = conditionType \<and> jcStatus c = ConditionTrue) (jobConditions job)"

definition JobHasCondition :: "'p job \<Rightarrow> string \<Rightarrow> bool" where
  "JobHasCondition job conditionType =
     (case GetJobCondition job conditionType of None \<Rightarrow> False | Some c \<Rightarrow> jcStatus c = ConditionTrue)"

definition IsJobCompleted :: "'p job \<Rightarrow> bool" where
  "IsJobCompleted job \<longleftrightarrow> JobHasCondition job JobComplete \<or> JobHasCondition job JobFailed"

definition IsJobPotentiallyRunning :: "'p job \<Rightarrow> bool" where
  "IsJobPotentiallyRunning job \<longleftrightarrow> \<not> IsJobCompleted job"

definition IsJobBeingDeleted :: "'p job \<Rightarrow> bool" where
  "IsJobBeingDeleted job \<longleftrightarrow> jobDeletionTimestamp job \<noteq> None"

definition IsJobSuspended :: "'p job \<Rightarrow> bool" where
  "IsJobSuspended job \<longleftrightarrow> jsSuspend (jobSpec job) = Some True"

definition WasJobStoppedByTheUser :: "'p job \<Rightarrow> bool" where
  "WasJobStoppedByTheUser job \<longleftrightarrow> IsJobSuspended job \<and> annotation job SuspendReason = ''user-stop''"

definition JobHasReadyStatus :: "'p job \<Rightarrow> bool" where
  "JobHasReadyStatus job \<longleftrightarrow> jobReady job \<noteq> None"

definition IsJobRunning :: "'p job \<Rightarrow> bool" where
  "IsJobRunning job \<longleftrightarrow>
     (if IsJobCompleted job then False
      else case jobReady job of Some n \<Rightarrow> 0 < sint n | None \<Rightarrow> 0 < sint (jobActive job))"

definition GetScheduledTime :: "'p job \<Rightarrow> gotime outcome" where
  "GetScheduledTime job =
     (let timeRaw = annotation job ScheduledTimeAnnotation in
      if timeRaw = [] then Err (GoErr (''No '' @ ScheduledTimeAnnotation @ '' annotation found on job '' @ jobName job))
      else case parse_rfc3339 timeRaw of
             None \<Rightarrow> Err (GoErr ''time.Parse'')
           | Some t \<Rightarrow> Ok t)"

definition GetJobRunId :: "'p job \<Rightarrow> int outcome" where
  "GetJobRunId job =
     (let idxRaw = annotation job JobRunIdAnnotation in
      if idxRaw = [] then Err (GoErr (''No '' @ JobRunIdAnnotation @ '' annotation found on job '' @ jobName job))
      else case atoi idxRaw of
             None \<Rightarrow> Err (GoErr ''strconv.Atoi'')
           | Some n \<Rightarrow> Ok n)"

section \<open>Job names\<close>

definition JobName :: "string \<Rightarrow> gotime \<Rightarrow> int \<Rightarrow> string" where
  "JobName controlledJobName scheduledTime jobRunId =
     controlledJobName @ CHR ''-'' # itoa (time_unix scheduledTime) @ CHR ''-'' # itoa jobRunId"

text \<open>
  \<^verbatim>\<open>^(.+)-(\d+)-(\d+)$\<close>: the last two dash-separated parts must be digits, the rest is not
  empty and has no newline. \<open>split_dash\<close> cuts at the last dash.
\<close>

definition split_dash :: "string \<Rightarrow> (string \<times> string) option" where
  "split_dash s =
     (case dropWhile (\<lambda>c. c \<noteq> CHR ''-'') (rev s) of
        [] \<Rightarrow> None
      | _ # p \<Rightarrow> Some (rev p, rev (takeWhile (\<lambda>c. c \<noteq> CHR ''-'') (rev s))))"

definition digits1 :: "string \<Rightarrow> bool" where
  "digits1 s \<longleftrightarrow> s \<noteq> [] \<and> list_all is_digit s"

definition jobNameMatches :: "string \<Rightarrow> (string \<times> string \<times> string) option" where
  "jobNameMatches s =
     do { (front, runId) \<leftarrow> split_dash s;
          (name, unix) \<leftarrow> split_dash front;
          if digits1 runId \<and> digits1 unix \<and> name \<noteq> [] \<and> list_all (\<lambda>c. c \<noteq> CHR 0x0A) name
          then Some (name, unix, runId) else None }"

definition ParseJobName ::
  "location \<Rightarrow> string \<Rightarrow> string \<times> gotime option \<times> int option \<times> go_error option" where
  "ParseJobName local s =
     (case jobNameMatches s of
        None \<Rightarrow> ([], None, None, Some (GoErr (''Failed to parse '' @ s @ '' as a valid job name'')))
      | Some (name, unix, runId) \<Rightarrow>
          case atoi unix of
            None \<Rightarrow> (name, None, None, Some (GoErr ''strconv.Atoi''))
          | Some u \<Rightarrow>
              let t = \<lparr>instant = (u + unix_epoch) * nano, locOf = local\<rparr> in
              case atoi runId of
                None \<Rightarrow> (name, Some t, None, Some (GoErr ''strconv.Atoi''))
              | Some n \<Rightarrow> (name, Some t, Some n, None))"

section \<open>Lemmas\<close>

lemma split_dash_append:
  assumes "CHR ''-'' \<notin> set t"
  shows "split_dash (s @ CHR ''-'' # t) = Some (s, t)"
proof -
  have "takeWhile (\<lambda>c. c \<noteq> CHR ''-'') (rev t @ CHR ''-'' # rev s) = rev t"
    "dropWhile (\<lambda>c. c \<noteq> CHR ''-'') (rev t @ CHR ''-'' # rev s) = CHR ''-'' # rev s"
    using assms by (simp_all add: takeWhile_append dropWhile_append)
  then show ?thesis by (simp add: split_dash_def)
qed

lemma digits1_itoa: "0 \<le> i \<Longrightarrow> digits1 (itoa i)"
  using digits_of [of "nat i"] by (simp add: digits1_def itoa_def)

lemma no_dash_digits: "digits1 s \<Longrightarrow> CHR ''-'' \<notin> set s"
  using is_digit_not_sign by (auto simp: digits1_def list_all_iff)

lemma no_dash_itoa: "0 \<le> i \<Longrightarrow> CHR ''-'' \<notin> set (itoa i)"
  by (rule no_dash_digits [OF digits1_itoa])

lemma split_JobName:
  assumes "0 \<le> time_unix t" "0 \<le> i"
  shows "split_dash (JobName n t i) = Some (n @ CHR ''-'' # itoa (time_unix t), itoa i)"
    "split_dash (n @ CHR ''-'' # itoa (time_unix t)) = Some (n, itoa (time_unix t))"
  using split_dash_append [OF no_dash_itoa [OF assms(2)], of "n @ CHR ''-'' # itoa (time_unix t)"]
    split_dash_append [OF no_dash_itoa [OF assms(1)], of n]
  by (simp_all add: JobName_def)

section \<open>Properties\<close>

text \<open>
  C32: Job names are parsed back: for a ControlledJob name that is not empty and has no
  newline, a start time in the int64 range not before 1970 and a run id that is not
  negative, \<^verbatim>\<open>ParseJobName\<close> returns the name, the start time to the second, the run id and no
  error.
\<close>

theorem ParseJobName_JobName:
  assumes "n \<noteq> []" "CHR 0x0A \<notin> set n" "0 \<le> time_unix t" "time_unix t < 2 ^ 63" "0 \<le> i" "i < 2 ^ 63"
  shows "ParseJobName local (JobName n t i) =
    (n, Some \<lparr>instant = time_sec t * nano, locOf = local\<rparr>, Some i, None)"
proof -
  have "list_all (\<lambda>c. c \<noteq> CHR 0x0A) n" using assms(2) by (auto simp: list_all_iff)
  then have "jobNameMatches (JobName n t i) = Some (n, itoa (time_unix t), itoa i)"
    using assms by (simp add: jobNameMatches_def split_JobName digits1_itoa)
  then show ?thesis
    using assms by (simp add: ParseJobName_def atoi_itoa time_unix_def)
qed

theorem ParseJobName_JobName_witness:
  "ParseJobName UTC (JobName ''my-job'' \<lparr>instant = (1657616400 + unix_epoch) * nano, locOf = UTC\<rparr> 7) =
    (''my-job'', Some \<lparr>instant = (1657616400 + unix_epoch) * nano, locOf = UTC\<rparr>, Some 7, None)"
  by (subst ParseJobName_JobName) (simp_all add: time_unix_def time_sec_def)

text \<open>
  Job names identify what they name: two jobs of any two ControlledJobs, with start times
  not before 1970 and run ids that are not negative, have the same name only if the names
  of the ControlledJobs, the start times (to the second) and the run ids are the same.
\<close>

theorem JobName_inject:
  assumes "0 \<le> time_unix t" "0 \<le> i" "0 \<le> time_unix t'" "0 \<le> i'"
  shows "JobName n t i = JobName n' t' i' \<longleftrightarrow> n = n' \<and> time_sec t = time_sec t' \<and> i = i'"
proof
  assume eq: "JobName n t i = JobName n' t' i'"
  have 1: "n @ CHR ''-'' # itoa (time_unix t) = n' @ CHR ''-'' # itoa (time_unix t') \<and> itoa i = itoa i'"
    using split_JobName(1) [OF assms(1,2), of n] split_JobName(1) [OF assms(3,4), of n']
    unfolding eq by (metis option.inject prod.inject)
  then have "n = n' \<and> itoa (time_unix t) = itoa (time_unix t')"
    using split_JobName(2) [OF assms(1,2), of n] split_JobName(2) [OF assms(3,4), of n']
    by (metis option.inject prod.inject)
  then have "n = n'" "time_unix t = time_unix t'" "i = i'" using itoa_inject 1 by blast+
  then show "n = n' \<and> time_sec t = time_sec t' \<and> i = i'" by (simp add: time_unix_def)
qed (simp add: JobName_def time_unix_def)

theorem JobName_inject_witness:
  "JobName ''a'' \<lparr>instant = (1657616400 + unix_epoch) * nano, locOf = UTC\<rparr> 0 \<noteq>
   JobName ''a'' \<lparr>instant = (1657616400 + unix_epoch) * nano, locOf = UTC\<rparr> 1"
  by (subst JobName_inject) (simp_all add: time_unix_def time_sec_def)

end
