(* ===== verification/JobBuilder.thy ===== *)
theory JobBuilder
  imports Metadata
begin

text \<open>
  \<^verbatim>\<open>pkg/mutators/registry.go\<close> and \<^verbatim>\<open>pkg/job/builder.go\<close>: the registry of job mutators, and
  building a Job from the template of a ControlledJob. Parameters of the model, the fields of
  \<open>job_env\<close>: the hash of a template, controller-runtime's \<^verbatim>\<open>SetControllerReference\<close>, and the
  registered mutators with the order in which the \<^verbatim>\<open>range\<close> loop visits their names (Go leaves
  this order open).
\<close>

section \<open>Mutators\<close>

text \<open>\<open>mutId\<close> is the identity of the mutator, which \<^verbatim>\<open>Unregister\<close> compares.\<close>

record 'p mutator =
  mutId :: nat
  mutName :: string
  mutApply :: "'p job \<Rightarrow> 'p job outcome"

type_synonym 'p registry = "string \<rightharpoonup> 'p mutator"

definition Register :: "'p mutator \<Rightarrow> 'p registry \<Rightarrow> 'p registry outcome" where
  "Register m reg =
     (case reg (mutName m) of
        Some _ \<Rightarrow> Err (GoErr ''mutator with that name already exists'')
      | None \<Rightarrow> Ok (reg(mutName m \<mapsto> m)))"

definition Unregister :: "'p mutator \<Rightarrow> 'p registry \<Rightarrow> 'p registry outcome" where
  "Unregister m reg =
     (case reg (mutName m) of
        None \<Rightarrow> Err (GoErr ''mutator with that name could not be found'')
      | Some existing \<Rightarrow>
          if mutId existing \<noteq> mutId m then Err (GoErr ''mutator does not match'')
          else Ok (reg(mutName m := None)))"

fun applyMutators :: "'p registry \<Rightarrow> string list \<Rightarrow> 'p job \<Rightarrow> 'p job outcome" where
  "applyMutators reg [] job = Ok job"
| "applyMutators reg (name # names) job =
     (case reg name of
        None \<Rightarrow> applyMutators reg names job
      | Some m \<Rightarrow>
          obind (wrap_err (''mutator '' @ name @ '' failed'') (mutApply m job)) (applyMutators reg names))"

section \<open>Building a job\<close>

record 'p job_env =
  jeHash :: "'p job_template_spec \<Rightarrow> string"
  jeSetControllerReference :: "'p controlled_job \<Rightarrow> 'p job \<Rightarrow> 'p job outcome"
  jeMutators :: "'p registry"
  jeMutatorOrder :: "string list"

definition jobAnnotationsFor ::
  "'p job_env \<Rightarrow> 'p controlled_job \<Rightarrow> gotime \<Rightarrow> int \<Rightarrow> bool \<Rightarrow> (string \<rightharpoonup> string)" where
  "jobAnnotationsFor env c scheduledTime jobRunId isManuallyScheduled =
     (let template = csJobTemplate (cjSpec c); tz = csTimezone (cjSpec c);
          a1 = (jtAnnotations template)
                 (ScheduledTimeAnnotation \<mapsto> format_rfc3339 scheduledTime,
                  JobRunIdAnnotation \<mapsto> itoa jobRunId,
                  TemplateHashAnnotation \<mapsto> CalculateHashFor (jeHash env) template);
          a2 = (if tzName tz \<noteq> [] then a1(TimeZoneAnnotation \<mapsto> tzName tz) else a1);
          a3 = (if tzOffsetSeconds tz \<noteq> 0
                then a2(TimeZoneOffsetSecondsAnnotation \<mapsto> itoa (sint (tzOffsetSeconds tz))) else a2)
      in if isManuallyScheduled then a3(ManualJobAnnotation \<mapsto> ''true'') else a3)"

definition newJobFor ::
  "'p job_env \<Rightarrow> 'p controlled_job \<Rightarrow> gotime \<Rightarrow> int \<Rightarrow> bool \<Rightarrow> bool \<Rightarrow> 'p job" where
  "newJobFor env c scheduledTime jobRunId isManuallyScheduled startSuspended =
     (let template = csJobTemplate (cjSpec c); spec = jtSpec template in
      \<lparr>jobName = JobName (cjName c) scheduledTime jobRunId,
       jobNamespace = cjNamespace c,
       jobLabels = (jtLabels template)(ControlledJobLabel \<mapsto> cjName c),
       jobAnnotations = jobAnnotationsFor env c scheduledTime jobRunId isManuallyScheduled,
       jobOwnerReferences = [],
       jobDeletionTimestamp = None,
       jobSpec = (if startSuspended then spec\<lparr>jsSuspend := Some True\<rparr> else spec),
       jobConditions = [],
       jobReady = None,
       jobActive = 0\<rparr>)"

definition wantsMutations :: "'p controlled_job \<Rightarrow> bool" where
  "wantsMutations c =
     (case cjAnnotations c ApplyMutationsAnnotation of
        None \<Rightarrow> False | Some v \<Rightarrow> to_lower v = ''true'')"

definition buildJob ::
  "'p job_env \<Rightarrow> 'p controlled_job \<Rightarrow> gotime \<Rightarrow> int \<Rightarrow> bool \<Rightarrow> bool \<Rightarrow> 'p job outcome" where
  "buildJob env c scheduledTime jobRunId isManuallyScheduled startSuspended =
     obind (jeSetControllerReference env c
       (newJobFor env c scheduledTime jobRunId isManuallyScheduled startSuspended)) (\<lambda>job.
       if wantsMutations c then applyMutators (jeMutators env) (jeMutatorOrder env) job else Ok job)"

definition BuildForControlledJob ::
  "'p job_env \<Rightarrow> 'p controlled_job \<Rightarrow> gotime \<Rightarrow> int \<Rightarrow> bool \<Rightarrow> bool \<Rightarrow> 'p job outcome" where
  "BuildForControlledJob = buildJob"

definition RecreateJobWithNewSpec ::
  "'p job_env \<Rightarrow> 'p job \<Rightarrow> 'p controlled_job \<Rightarrow> int \<Rightarrow> bool \<Rightarrow> 'p job outcome" where
  "RecreateJobWithNewSpec env existingJob c jobRunIdx startSuspended =
     (let wasManuallyScheduled = IsManuallyScheduledJob existingJob in
      obind (GetScheduledTime existingJob) (\<lambda>oldScheduledTime.
        buildJob env c oldScheduledTime jobRunIdx wasManuallyScheduled startSuspended))"

section \<open>What the builder relies on\<close>

text \<open>
  Documented of \<^verbatim>\<open>SetControllerReference\<close>: it only touches the owner references. Assumed of
  the mutators: each keeps what the operator itself reads back from the job.
\<close>

definition same_operator_view :: "'p job \<Rightarrow> 'p job \<Rightarrow> bool" where
  "same_operator_view job job' \<longleftrightarrow>
     jobName job' = jobName job \<and> jobNamespace job' = jobNamespace job
     \<and> (\<forall>k \<in> {ScheduledTimeAnnotation, JobRunIdAnnotation, ManualJobAnnotation, TemplateHashAnnotation, SuspendReason}.
          jobAnnotations job' k = jobAnnotations job k)
     \<and> jobDeletionTimestamp job' = jobDeletionTimestamp job
     \<and> jsSuspend (jobSpec job') = jsSuspend (jobSpec job)
     \<and> jobConditions job' = jobConditions job"

definition only_owner_references :: "'p job_env \<Rightarrow> bool" where
  "only_owner_references env \<longleftrightarrow>
     (\<forall>c job job'. jeSetControllerReference env c job = Ok job' \<longrightarrow>
        job' = job\<lparr>jobOwnerReferences := jobOwnerReferences job'\<rparr>)"

definition benign_mutators :: "'p job_env \<Rightarrow> bool" where
  "benign_mutators env \<longleftrightarrow>
     (\<forall>name m job job'. jeMutators env name = Some m \<longrightarrow> mutApply m job = Ok job' \<longrightarrow> same_operator_view job job')"

lemma same_operator_view_refl [simp]: "same_operator_view job job"
  by (simp add: same_operator_view_def)

lemma same_operator_view_trans:
  "same_operator_view a b \<Longrightarrow> same_operator_view b c \<Longrightarrow> same_operator_view a c"
  by (auto simp: same_operator_view_def)

lemma same_operator_view_owner: "same_operator_view job (job\<lparr>jobOwnerReferences := refs\<rparr>)"
  by (simp add: same_operator_view_def)

lemma applyMutators_view:
  assumes "\<And>name m job job'. reg name = Some m \<Longrightarrow> mutApply m job = Ok job' \<Longrightarrow> same_operator_view job job'"
    and "applyMutators reg names job = Ok job'"
  shows "same_operator_view job job'"
  using assms(2)
proof (induction names arbitrary: job)
  case Nil
  then show ?case by simp
next
  case (Cons name names)
  show ?case
  proof (cases "reg name")
    case None
    then show ?thesis using Cons by simp
  next
    case (Some m)
    with Cons.prems obtain j where "mutApply m job = Ok j" "applyMutators reg names j = Ok job'"
      by (auto simp: outcome_eqs)
    then show ?thesis using Cons.IH assms(1) [OF Some] same_operator_view_trans by blast
  qed
qed

lemma buildJob_view:
  assumes "only_owner_references env" "benign_mutators env"
    and "buildJob env c t i manual susp = Ok job"
  shows "same_operator_view (newJobFor env c t i manual susp) job"
proof -
  obtain j where j: "jeSetControllerReference env c (newJobFor env c t i manual susp) = Ok j"
    "if wantsMutations c then applyMutators (jeMutators env) (jeMutatorOrder env) j = Ok job else job = j"
    using assms(3) by (auto simp: buildJob_def outcome_eqs split: if_splits)
  have "j = (newJobFor env c t i manual susp)\<lparr>jobOwnerReferences := jobOwnerReferences j\<rparr>"
    using assms(1) j(1) by (simp add: only_owner_references_def)
  then have 1: "same_operator_view (newJobFor env c t i manual susp) j"
    by (metis same_operator_view_owner)
  have "same_operator_view j job"
    using j(2) applyMutators_view [of "jeMutators env" "jeMutatorOrder env" j job] assms(2)
    by (auto simp: benign_mutators_def split: if_splits)
  with 1 show ?thesis by (rule same_operator_view_trans)
qed

text \<open>Each reader of a job depends only on this view.\<close>

lemma view_readers:
  assumes "same_operator_view job job'"
  shows "GetScheduledTime job' = GetScheduledTime job" "GetJobRunId job' = GetJobRunId job"
    "IsManuallyScheduledJob job' = IsManuallyScheduledJob job"
    "annotation job' TemplateHashAnnotation = annotation job TemplateHashAnnotation"
    "IsJobSuspended job' = IsJobSuspended job" "WasJobStoppedByTheUser job' = WasJobStoppedByTheUser job"
    "IsJobBeingDeleted job' = IsJobBeingDeleted job" "IsJobCompleted job' = IsJobCompleted job"
    "jobName job' = jobName job" "jobNamespace job' = jobNamespace job"
  using assms
  by (simp_all add: same_operator_view_def GetScheduledTime_def GetJobRunId_def IsManuallyScheduledJob_def
      annotation_def IsJobSuspended_def WasJobStoppedByTheUser_def IsJobBeingDeleted_def IsJobCompleted_def
      JobHasCondition_def GetJobCondition_def Let_def)

lemma format_not_empty: "format_rfc3339 t \<noteq> []"
  by (simp add: format_rfc3339_def)

lemma itoa_not_empty [simp]: "itoa i \<noteq> []"
  using digits_of by (simp add: itoa_def)

lemma newJobFor_readers:
  "annotation (newJobFor env c t i manual susp) ScheduledTimeAnnotation = format_rfc3339 t"
  "annotation (newJobFor env c t i manual susp) JobRunIdAnnotation = itoa i"
  "annotation (newJobFor env c t i manual susp) TemplateHashAnnotation
     = CalculateHashFor (jeHash env) (csJobTemplate (cjSpec c))"
  "manual \<Longrightarrow> IsManuallyScheduledJob (newJobFor env c t i manual susp)"
  "susp \<Longrightarrow> IsJobSuspended (newJobFor env c t i manual susp)"
  "\<not> IsJobBeingDeleted (newJobFor env c t i manual susp)"
  "\<not> IsJobCompleted (newJobFor env c t i manual susp)"
  "jobName (newJobFor env c t i manual susp) = JobName (cjName c) t i"
  "jobNamespace (newJobFor env c t i manual susp) = cjNamespace c"
  using annotation_keys_distinct
  by (auto simp: annotation_def newJobFor_def jobAnnotationsFor_def Let_def IsManuallyScheduledJob_def
      parse_bool_def IsJobSuspended_def IsJobBeingDeleted_def IsJobCompleted_def JobHasCondition_def GetJobCondition_def)

lemma newJobFor_read_back:
  assumes "0 \<le> time_year t" "time_year t \<le> 9999"
    and "off = zone_offset (locOf t) (time_unix t)" "off mod 60 = 0" "\<bar>off\<bar> \<le> 86400"
  shows "GetScheduledTime (newJobFor env c t i manual susp) = Ok \<lparr>instant = time_sec t * nano, locOf = fixed_zone [] off\<rparr>"
    and "- (2 ^ 63) \<le> i \<Longrightarrow> i < 2 ^ 63 \<Longrightarrow> GetJobRunId (newJobFor env c t i manual susp) = Ok i"
  using parse_format [OF assms] atoi_itoa [of i]
  by (simp_all add: GetScheduledTime_def GetJobRunId_def newJobFor_readers format_not_empty)

section \<open>Properties\<close>

text \<open>
  C24: What the operator writes on a job it reads back: a job built for start time \<open>t\<close> (in
  years 0 to 9999, in a zone with an offset of whole minutes of at most a day) and run id
  \<open>i\<close> has the deterministic name of \<open>t\<close> and \<open>i\<close>; \<^verbatim>\<open>GetScheduledTime\<close> returns \<open>t\<close> cut to the
  second and \<^verbatim>\<open>GetJobRunId\<close> returns \<open>i\<close>; its hash annotation is the hash of the template, so the
  job is up to date; it is suspended and manually scheduled if this was asked for, is not
  being deleted and not completed. Mutators may run, as long as they keep these parts.
\<close>

theorem buildJob_correct:
  assumes "only_owner_references env" "benign_mutators env"
    and "buildJob env c t i manual susp = Ok job"
    and "0 \<le> time_year t" "time_year t \<le> 9999"
    and "off = zone_offset (locOf t) (time_unix t)" "off mod 60 = 0" "\<bar>off\<bar> \<le> 86400"
    and "- (2 ^ 63) \<le> i" "i < 2 ^ 63"
  shows "jobName job = JobName (cjName c) t i \<and> jobNamespace job = cjNamespace c
    \<and> GetScheduledTime job = Ok \<lparr>instant = time_sec t * nano, locOf = fixed_zone [] off\<rparr>
    \<and> GetJobRunId job = Ok i
    \<and> annotation job TemplateHashAnnotation = CalculateHashFor (jeHash env) (csJobTemplate (cjSpec c))
    \<and> (susp \<longrightarrow> IsJobSuspended job) \<and> (manual \<longrightarrow> IsManuallyScheduledJob job)
    \<and> \<not> IsJobBeingDeleted job \<and> \<not> IsJobCompleted job"
proof -
  note view = view_readers [OF buildJob_view [OF assms(1-3)]]
  note read = newJobFor_readers [where env = env and c = c and t = t and i = i and manual = manual and susp = susp]
  show ?thesis
    using read newJobFor_read_back [OF assms(4-8), where env = env and c = c and i = i and manual = manual and susp = susp] assms(9,10) by (simp add: view)
qed

text \<open>
  Recreating a job keeps its start time and its manual flag, and takes the new run id:
  with \<open>t\<close> the start time read from the old job, the new job has the name of \<open>t\<close> and the new
  run id, and the same start time (to the second) is read from it. Without a readable start
  time the call fails with the error of \<^verbatim>\<open>GetScheduledTime\<close>.
\<close>

theorem RecreateJobWithNewSpec_correct:
  assumes "only_owner_references env" "benign_mutators env"
    and "GetScheduledTime old = Ok t" "RecreateJobWithNewSpec env old c i susp = Ok job"
    and "0 \<le> time_year t" "time_year t \<le> 9999"
    and "off = zone_offset (locOf t) (time_unix t)" "off mod 60 = 0" "\<bar>off\<bar> \<le> 86400"
    and "- (2 ^ 63) \<le> i" "i < 2 ^ 63"
  shows "jobName job = JobName (cjName c) t i
    \<and> GetScheduledTime job = Ok \<lparr>instant = time_sec t * nano, locOf = fixed_zone [] off\<rparr>
    \<and> GetJobRunId job = Ok i \<and> (IsManuallyScheduledJob old \<longrightarrow> IsManuallyScheduledJob job)
    \<and> annotation job TemplateHashAnnotation = CalculateHashFor (jeHash env) (csJobTemplate (cjSpec c))"
proof -
  have b: "buildJob env c t i (IsManuallyScheduledJob old) susp = Ok job"
    using assms(3,4) by (simp add: RecreateJobWithNewSpec_def)
  note view = view_readers [OF buildJob_view [OF assms(1,2) b]]
  note read = newJobFor_readers [where env = env and c = c and t = t and i = i
      and manual = "IsManuallyScheduledJob old" and susp = susp]
  show ?thesis
    using read newJobFor_read_back [OF assms(5-9), where env = env and c = c and i = i and manual = "IsManuallyScheduledJob old" and susp = susp] assms(10,11) by (simp add: view)
qed

text \<open>
  The registry: registering a mutator under a free name succeeds, the same name cannot be
  registered again, unregistering it gives back the registry as it was, and unregistering
  another mutator of the same name is refused.
\<close>

theorem Register_Unregister:
  assumes "reg (mutName m) = None" "mutName m' = mutName m" "mutId m' \<noteq> mutId m"
  shows "\<exists>reg'. Register m reg = Ok reg' \<and> Unregister m reg' = Ok reg
    \<and> Register m' reg' = Err (GoErr ''mutator with that name already exists'')
    \<and> Unregister m' reg' = Err (GoErr ''mutator does not match'')
    \<and> Unregister m reg = Err (GoErr ''mutator with that name could not be found'')"
  using assms by (auto simp: Register_def Unregister_def fun_upd_idem)

section \<open>Instances\<close>

definition plain_env :: "unit job_env" where
  "plain_env = \<lparr>jeHash = jtOther,
     jeSetControllerReference = (\<lambda>c job. Ok (job\<lparr>jobOwnerReferences :=
       [\<lparr>orAPIVersion = ApiGVStr, orKind = ''ControlledJob'', orName = cjName c, orUID = cjUID c,
         orController = Some True, orBlockOwnerDeletion = Some True\<rparr>]\<rparr>)),
     jeMutators = Map.empty, jeMutatorOrder = []\<rparr>"

lemma plain_env_ok: "only_owner_references plain_env" "benign_mutators plain_env"
  by (auto simp: only_owner_references_def benign_mutators_def plain_env_def)

definition nine_oclock :: gotime where
  "nine_oclock = \<lparr>instant = (1657616400 + unix_epoch) * nano, locOf = UTC\<rparr>"

lemma nine_oclock_props: "time_year nine_oclock = 2022" "zone_offset (locOf nine_oclock) (time_unix nine_oclock) = 0"
  by code_simp+

definition built_job :: "unit job" where
  "built_job = (newJobFor plain_env blank_cj nine_oclock 0 False True)\<lparr>jobOwnerReferences :=
     [\<lparr>orAPIVersion = ApiGVStr, orKind = ''ControlledJob'', orName = ''cj'', orUID = ''uid'',
       orController = Some True, orBlockOwnerDeletion = Some True\<rparr>]\<rparr>"

lemma plain_build:
  "\<exists>refs. buildJob plain_env blank_cj t i manual susp
     = Ok ((newJobFor plain_env blank_cj t i manual susp)\<lparr>jobOwnerReferences := refs\<rparr>)"
proof -
  have "\<not> wantsMutations blank_cj" by (simp add: wantsMutations_def blank_cj_def)
  moreover have "\<exists>refs. jeSetControllerReference plain_env c job = Ok (job\<lparr>jobOwnerReferences := refs\<rparr>)" for c job
    by (auto simp: plain_env_def)
  ultimately show ?thesis by (auto simp: buildJob_def) (metis obind.simps(1))
qed

lemma built_job: "buildJob plain_env blank_cj nine_oclock 0 False True = Ok built_job"
  by (simp add: buildJob_def plain_env_def built_job_def wantsMutations_def blank_cj_def)

theorem buildJob_correct_witness:
  "GetScheduledTime built_job = Ok \<lparr>instant = (1657616400 + unix_epoch) * nano, locOf = fixed_zone [] 0\<rparr>
   \<and> GetJobRunId built_job = Ok 0 \<and> IsJobSuspended built_job"
  using buildJob_correct [OF plain_env_ok built_job _ _ nine_oclock_props(2) [symmetric]] nine_oclock_props(1)
  by (simp add: nine_oclock_def time_sec_def)

theorem RecreateJobWithNewSpec_correct_witness:
  "\<exists>job. RecreateJobWithNewSpec plain_env built_job blank_cj 1 True = Ok job \<and> GetJobRunId job = Ok 1"
proof -
  let ?t = "\<lparr>instant = (1657616400 + unix_epoch) * nano, locOf = fixed_zone [] 0\<rparr>"
  have "parse_rfc3339 (format_rfc3339 nine_oclock) = Some ?t"
    using parse_format [OF _ _ nine_oclock_props(2) [symmetric]] nine_oclock_props(1)
    by (simp add: nine_oclock_def time_sec_def)
  then have t: "GetScheduledTime built_job = Ok ?t"
    using newJobFor_readers(1) [of plain_env blank_cj nine_oclock 0 False True] format_not_empty
    by (simp add: GetScheduledTime_def built_job_def annotation_def)
  then have "RecreateJobWithNewSpec plain_env built_job blank_cj 1 True
    = buildJob plain_env blank_cj ?t 1 (IsManuallyScheduledJob built_job) True"
    by (simp only: RecreateJobWithNewSpec_def Let_def obind.simps)
  then obtain job where job: "RecreateJobWithNewSpec plain_env built_job blank_cj 1 True = Ok job"
    using plain_build [of ?t 1 "IsManuallyScheduledJob built_job" True] by metis
  have "time_year ?t = 2022" by code_simp
  then show ?thesis
    using RecreateJobWithNewSpec_correct [OF plain_env_ok t job, of 0] job by simp
qed

definition mutator_a :: "unit mutator" where
  "mutator_a = \<lparr>mutId = 0, mutName = ''remote'', mutApply = Ok\<rparr>"

theorem Register_Unregister_witness:
  "\<exists>reg'. Register mutator_a Map.empty = Ok reg' \<and> Unregister mutator_a reg' = Ok Map.empty"
  using Register_Unregister [of Map.empty mutator_a "mutator_a\<lparr>mutId := 1\<rparr>"]
  by (auto simp: mutator_a_def)

end
