(* ===== verification/Decision.thy ===== *)
theory Decision
  imports JobBuilder ScheduleState "HOL-Library.Char_ord" "HOL-Library.List_Lexorder"
begin

text \<open>
  \<^verbatim>\<open>pkg/reconciliation/state.go\<close> and \<^verbatim>\<open>pkg/reconciliation/decision.go\<close>: from a ControlledJob, its
  jobs and a time to the jobs to create, delete and unsuspend. Jobs are Go pointers: the
  listed jobs and the one the decision may create are cells of a store (a list of jobs), a
  pointer is an index into it, so \<^verbatim>\<open>job == chosenJob\<close> compares indices and
  \<^verbatim>\<open>chosenJob.Spec.Suspend = nil\<close> updates a cell. \<open>decision_state\<close> has the locals of
  \<^verbatim>\<open>makeDecision\<close> and its result.
\<close>

record 'p op_env =
  opCron :: cron_env
  opJobs :: "'p job_env"
  opGetReference :: "'p job \<Rightarrow> object_reference option"
  opClock :: "nat \<Rightarrow> gotime"

section \<open>The state a decision is based on\<close>

record rec_state =
  rsIsSuspended :: bool
  rsShouldBeRunning :: "bool option"
  rsStartOfCurrentRunPeriod :: "gotime option"
  rsLastStopTime :: "gotime option"
  rsNextEventTime :: "gotime option"
  rsAllJobs :: "nat list"
  rsDesiredHash :: string
  rsAutoRestartIsEnabled :: bool

definition buildState :: "'p op_env \<Rightarrow> 'p controlled_job \<Rightarrow> 'p job list \<Rightarrow> gotime \<Rightarrow> rec_state outcome" where
  "buildState env c childJobs now =
     obind (wrap_event ''FailedToCalculateSchedule''
       (''Failed to calculate schedule for controlled job '' @ cjName c @ '' in namespace '' @ cjNamespace c)
       (StateFor (opCron env) c now)) (\<lambda>scheduleState.
     let startOfCurrentRunPeriod = StartOfCurrentRunPeriod scheduleState in
     Ok \<lparr>rsIsSuspended = (csSuspend (cjSpec c) = Some True),
         rsShouldBeRunning = (case startOfCurrentRunPeriod of
            None \<Rightarrow> None | Some _ \<Rightarrow> Some (ShouldBeRunning scheduleState)),
         rsStartOfCurrentRunPeriod = startOfCurrentRunPeriod,
         rsLastStopTime = LastStopTime scheduleState,
         rsNextEventTime = NextEventTime scheduleState,
         rsAllJobs = [0..<length childJobs],
         rsDesiredHash = CalculateHashFor (jeHash (opJobs env)) (csJobTemplate (cjSpec c)),
         rsAutoRestartIsEnabled = equal_fold (csSpecChangePolicy (cjSpec c)) RecreateSpecChangePolicy\<rparr>)"

section \<open>Comparisons\<close>

definition isOutOfDate :: "'p job \<Rightarrow> rec_state \<Rightarrow> bool" where
  "isOutOfDate job st \<longleftrightarrow>
     (let actualHash = annotation job TemplateHashAnnotation
      in actualHash \<noteq> [] \<and> actualHash \<noteq> rsDesiredHash st)"

definition isBetterCandidateJob :: "'p job \<Rightarrow> 'p job \<Rightarrow> rec_state \<Rightarrow> bool" where
  "isBetterCandidateJob job currentCandidate st =
     (if IsJobBeingDeleted job \<noteq> IsJobBeingDeleted currentCandidate then \<not> IsJobBeingDeleted job
      else let jobHash = annotation job TemplateHashAnnotation;
               currentCandidateHash = annotation currentCandidate TemplateHashAnnotation;
               desiredHash = rsDesiredHash st
           in if (jobHash = desiredHash) \<noteq> (currentCandidateHash = desiredHash) then jobHash = desiredHash
              else jobName currentCandidate < jobName job)"

definition startingDeadlineSecondsExceeded ::
  "'p controlled_job \<Rightarrow> gotime option \<Rightarrow> gotime \<Rightarrow> bool" where
  "startingDeadlineSecondsExceeded c scheduledStartTime now =
     (case csStartingDeadlineSeconds (cjSpec c) of
        None \<Rightarrow> False
      | Some secs \<Rightarrow>
          if sint secs < 1 then False
          else case scheduledStartTime of
                 None \<Rightarrow> False
               | Some startTime \<Rightarrow>
                   let deadline = time_add startTime (seconds (sint secs))
                   in time_after now deadline)"

section \<open>Conditions\<close>

definition setShouldBeRunningStatus :: "(nat \<Rightarrow> gotime) \<Rightarrow> rec_state \<Rightarrow> 'p cjw \<Rightarrow> 'p cjw" where
  "setShouldBeRunningStatus clock st w =
     (case rsShouldBeRunning st of
        Some b \<Rightarrow>
          let w1 = upd_status (\<lambda>s. s\<lparr>stShouldBeRunning := Some b\<rparr>) w in
          if b then SetCondition clock ConditionTypeShouldBeRunning ConditionTrue ''InsideRunPeriod''
                 ''Currently between a start and stop time in the schedule'' w1
          else SetCondition clock ConditionTypeShouldBeRunning ConditionFalse ''OutsideRunPeriod''
                 ''Currently outside of a start and stop time in the schedule'' w1
      | None \<Rightarrow>
          SetCondition clock ConditionTypeShouldBeRunning ConditionUnknown ''NoStartEvent''
            ''No start events defined'' (upd_status (\<lambda>s. s\<lparr>stShouldBeRunning := Some False\<rparr>) w))"

definition setConditionIfTrueForAnyJob ::
  "(nat \<Rightarrow> gotime) \<Rightarrow> condition_type \<Rightarrow> 'p job list \<Rightarrow> ('p job \<Rightarrow> bool) \<Rightarrow> string \<Rightarrow> string \<Rightarrow> string \<Rightarrow> string
   \<Rightarrow> 'p cjw \<Rightarrow> 'p cjw" where
  "setConditionIfTrueForAnyJob clock ty jobs test reasonT messageT reasonF messageF =
     SetConditionBasedOnFlag clock ty (list_ex test jobs) reasonT messageT reasonF messageF"

definition setConditionsForAllJobs :: "(nat \<Rightarrow> gotime) \<Rightarrow> 'p job list \<Rightarrow> 'p cjw \<Rightarrow> 'p cjw" where
  "setConditionsForAllJobs clock allJobs w =
     (if allJobs = [] then
        SetCondition clock ConditionTypeJobBeingDeleted ConditionUnknown ''NoCurrentJob'' ''No jobs''
       (SetCondition clock ConditionTypeJobManuallyScheduled ConditionUnknown ''NoCurrentJob'' ''No jobs'' w)
      else
        setConditionIfTrueForAnyJob clock ConditionTypeJobBeingDeleted allJobs IsJobBeingDeleted
          ''JobBeingDeleted'' ''A job is being deleted''
          ''JobNotBeingDeleted'' ''No jobs are being deleted''
       (setConditionIfTrueForAnyJob clock ConditionTypeJobManuallyScheduled allJobs IsManuallyScheduledJob
          ''CreatedByUser'' ''The user has scheduled a job manually''
          ''NoManuallyScheduledJobs'' ''There are no manually scheduled jobs'' w))"

text \<open>A condition that relays one of the job's own conditions.\<close>

definition relayCondition ::
  "(nat \<Rightarrow> gotime) \<Rightarrow> condition_type \<Rightarrow> 'p job \<Rightarrow> string \<Rightarrow> string \<Rightarrow> string \<Rightarrow> string \<Rightarrow> string \<Rightarrow> 'p cjw \<Rightarrow> 'p cjw" where
  "relayCondition clock ty job jobCondition prefix message unknownReason unknownMessage =
     (case GetJobCondition job jobCondition of
        Some c \<Rightarrow> SetCondition clock ty (jcStatus c) (JobConditionToReason (jcStatus c) prefix) message
      | None \<Rightarrow> SetCondition clock ty ConditionUnknown unknownReason unknownMessage)"

definition setJobConditions :: "(nat \<Rightarrow> gotime) \<Rightarrow> 'p job option \<Rightarrow> 'p cjw \<Rightarrow> 'p cjw" where
  "setJobConditions clock jobOpt w =
     (case jobOpt of
        None \<Rightarrow>
          fold (\<lambda>ty. SetCondition clock ty ConditionUnknown ''NoCurrentJob'' ''No jobs'')
            [ConditionTypeJobRunning, ConditionTypeJobComplete, ConditionTypeJobFailed,
             ConditionTypeJobSuspended, ConditionTypeJobStoppedByUser]
            (SetCondition clock ConditionTypeJobExists ConditionFalse ''NoCurrentJob'' ''No jobs'' w)
      | Some job \<Rightarrow>
          let w1 = SetCondition clock ConditionTypeJobExists ConditionTrue ''JobExists'' ''At least one job exists'' w;
              w2 = (if JobHasReadyStatus job
                    then SetConditionBasedOnFlag clock ConditionTypeJobRunning (IsJobRunning job)
                      ''ReadyCountSufficient'' ''Job has the expected number of ready pods and hasn't completed''
                      ''ReadyCountNotSufficient'' ''Job does not yet have the expected number of ready pods (or it's completed). It could be struggling to start'' w1
                    else SetCondition clock ConditionTypeJobRunning ConditionUnknown ''CannotDetermine''
                      ''Job has no ready status, so we can't determine if it's running'' w1);
              w3 = relayCondition clock ConditionTypeJobComplete job JobComplete ''JobComplete''
                     ''Relaying JobComplete status from the Job''
                     ''JobCompleteUnkown'' ''Job has not reported a complete condition yet'' w2;
              w4 = relayCondition clock ConditionTypeJobFailed job JobFailed ''JobFailed''
                     ''Relaying JobFailed status from the Job''
                     ''JobFailedUnkown'' ''Job has not reported a failed condition yet'' w3;
              w5 = SetConditionBasedOnFlag clock ConditionTypeJobSuspended (IsJobSuspended job)
                     ''JobSuspended'' ''The current job is suspended''
                     ''JobNotSuspended'' ''The current job is not suspended'' w4
          in SetConditionBasedOnFlag clock ConditionTypeJobStoppedByUser (WasJobStoppedByTheUser job)
               ''JobStoppedByUser'' ''The current job was manually stopped by a user''
               ''JobNotStoppedByUser'' ''The current job was not stopped by a user'' w5)"

section \<open>The steps of a decision\<close>

record 'p decision_state =
  dW :: "'p cjw"
  dStore :: "'p job list"
  dChosen :: "nat option"
  dCount :: nat
  dExpired :: "nat list"
  dNonExpired :: "nat list"
  dCreate :: "nat list"
  dDelete :: "nat list"
  dSuspend :: "nat list"
  dUnsuspend :: "nat list"
  dRequeueAt :: gotime

text \<open>
  Control: fall through to the next statement, return (with an error or none), panic (in the
  state reached, which deferred calls still see), hang.
\<close>

datatype 'd ctl = Continue 'd | Return 'd "go_error option" | Crash 'd | Stuck

primrec cbind :: "'d ctl \<Rightarrow> ('d \<Rightarrow> 'd ctl) \<Rightarrow> 'd ctl" where
  "cbind (Continue d) f = f d"
| "cbind (Return d e) f = Return d e"
| "cbind (Crash d) f = Crash d"
| "cbind Stuck f = Stuck"

definition initial_decision :: "'p cjw \<Rightarrow> 'p job list \<Rightarrow> 'p decision_state" where
  "initial_decision w childJobs =
     \<lparr>dW = w, dStore = childJobs, dChosen = None, dCount = 0, dExpired = [], dNonExpired = [],
      dCreate = [], dDelete = [], dSuspend = [], dUnsuspend = [], dRequeueAt = zero_time\<rparr>"

text \<open>The first loop: the highest run id, and the job whose conditions are reported.\<close>

fun runIdLoop :: "rec_state \<Rightarrow> 'p job list \<Rightarrow> nat list \<Rightarrow> int \<Rightarrow> nat option \<Rightarrow> int \<times> nat option" where
  "runIdLoop st store [] maxJobRunId metricsJob = (maxJobRunId, metricsJob)"
| "runIdLoop st store (a # as) maxJobRunId metricsJob =
     (case GetJobRunId (store ! a) of
        Ok runId \<Rightarrow>
          runIdLoop st store as (if maxJobRunId < runId then runId else maxJobRunId)
            (case metricsJob of
               None \<Rightarrow> Some a
             | Some b \<Rightarrow> if isBetterCandidateJob (store ! a) (store ! b) st then Some a else metricsJob)
      | _ \<Rightarrow> runIdLoop st store as maxJobRunId metricsJob)"

text \<open>The second loop: running jobs are counted, jobs are split into expired and candidates.\<close>

definition countIfRunning :: "'p op_env \<Rightarrow> nat \<Rightarrow> 'p decision_state \<Rightarrow> 'p decision_state" where
  "countIfRunning env a d =
     (if IsJobPotentiallyRunning (dStore d ! a)
      then let d1 = d\<lparr>dCount := dCount d + 1\<rparr> in
           (case opGetReference env (dStore d ! a) of
              None \<Rightarrow> d1
            | Some ref \<Rightarrow> d1\<lparr>dW := upd_status (\<lambda>s. s\<lparr>stActive := stActive s @ [ref]\<rparr>) (dW d1)\<rparr>)
      else d)"

definition isExpired :: "rec_state \<Rightarrow> 'p job \<Rightarrow> bool" where
  "isExpired st job =
     (case rsLastStopTime st of
        None \<Rightarrow> False
      | Some stop \<Rightarrow>
          (case GetScheduledTime job of
             Ok jobStartTime \<Rightarrow> time_before jobStartTime stop
           | _ \<Rightarrow> True))"

definition scanJob :: "'p op_env \<Rightarrow> rec_state \<Rightarrow> nat \<Rightarrow> 'p decision_state \<Rightarrow> 'p decision_state" where
  "scanJob env st a d0 =
     (let d = countIfRunning env a d0; job = dStore d ! a in
      if isExpired st job then d\<lparr>dExpired := dExpired d @ [a]\<rparr>
      else d\<lparr>dNonExpired := dNonExpired d @ [a],
             dChosen := (case dChosen d of
               None \<Rightarrow> Some a
             | Some b \<Rightarrow> if isBetterCandidateJob job (dStore d ! b) st then Some a else dChosen d)\<rparr>)"

definition scanJobs :: "'p op_env \<Rightarrow> rec_state \<Rightarrow> 'p decision_state \<Rightarrow> 'p decision_state" where
  "scanJobs env st d =
     fold (scanJob env st) (rsAllJobs st) (d\<lparr>dW := upd_status (\<lambda>s. s\<lparr>stActive := []\<rparr>) (dW d)\<rparr>)"

definition stopStep :: "bool \<Rightarrow> 'p decision_state \<Rightarrow> 'p decision_state" where
  "stopStep shouldBeRunning d =
     (case dChosen d of
        None \<Rightarrow> d
      | Some a \<Rightarrow> if \<not> shouldBeRunning \<and> \<not> IsManuallyScheduledJob (dStore d ! a)
                  then d\<lparr>dChosen := None\<rparr> else d)"

text \<open>A job that was built is a new cell of the store.\<close>

definition addNewJob :: "'p job \<Rightarrow> 'p decision_state \<Rightarrow> 'p decision_state" where
  "addNewJob job d =
     (let a = length (dStore d)
      in d\<lparr>dStore := dStore d @ [job], dCreate := dCreate d @ [a], dCount := dCount d + 1,
           dNonExpired := dNonExpired d @ [a], dChosen := Some a\<rparr>)"

definition createWith :: "'p job outcome \<Rightarrow> 'p decision_state \<Rightarrow> 'p decision_state ctl" where
  "createWith built d =
     (case built of
        Ok job \<Rightarrow> Continue (addNewJob job d)
      | Err e \<Rightarrow> Return d (Some (WrapErr e ''Failed to create job''))
      | Panic \<Rightarrow> Crash d
      | Hang \<Rightarrow> Stuck)"

definition setOutOfDate ::
  "(nat \<Rightarrow> gotime) \<Rightarrow> bool \<Rightarrow> string \<Rightarrow> string \<Rightarrow> 'p decision_state \<Rightarrow> 'p decision_state" where
  "setOutOfDate clock flag reason message d =
     d\<lparr>dW := SetCondition clock ConditionTypeOutOfDate (if flag then ConditionTrue else ConditionFalse)
               reason message (dW d)\<rparr>"

text \<open>\<^verbatim>\<open>maxJobRunId+1\<close> on Go's 64-bit ints.\<close>

definition wrap64 :: "int \<Rightarrow> int" where
  "wrap64 x = sint (word_of_int x :: 64 word)"

definition outOfDateStep ::
  "'p op_env \<Rightarrow> rec_state \<Rightarrow> bool \<Rightarrow> int \<Rightarrow> 'p decision_state \<Rightarrow> 'p decision_state ctl" where
  "outOfDateStep env st restartOnSpecChange maxJobRunId d =
     (case dChosen d of
        None \<Rightarrow> Continue (setOutOfDate (opClock env) False ''NoRunningJob'' ''Not currently running'' d)
      | Some a \<Rightarrow>
          let job = dStore d ! a in
          if \<not> isOutOfDate job st then
            Continue (setOutOfDate (opClock env) False ''NotOutOfDate'' ''Running job matches desired spec'' d)
          else if \<not> IsJobPotentiallyRunning job \<or> WasJobStoppedByTheUser job then
            Continue (setOutOfDate (opClock env) True ''JobIsNotRunning''
              ''Job is out of date, but is not running so ignoring'' d)
          else if IsJobBeingDeleted job then
            Continue (setOutOfDate (opClock env) True ''JobIsBeingDeleted''
              ''Job is out of date, but is being deleted so ignoring'' d)
          else if \<not> restartOnSpecChange then
            Continue (setOutOfDate (opClock env) True ''ShouldNotAutoRestart''
              ''Job is out of date, but auto-recreation is not enabled so will leave it running as is'' d)
          else
            cbind (createWith (RecreateJobWithNewSpec (opJobs env) job (cj (dW d)) (wrap64 (maxJobRunId + 1)) True) d)
              (\<lambda>d. Continue (setOutOfDate (opClock env) False ''NotOutOfDate'' ''Running job matches desired spec'' d)))"

definition setDeadline ::
  "(nat \<Rightarrow> gotime) \<Rightarrow> condition_status \<Rightarrow> string \<Rightarrow> string \<Rightarrow> 'p decision_state \<Rightarrow> 'p decision_state" where
  "setDeadline clock status reason message d =
     d\<lparr>dW := SetCondition clock ConditionTypeStartingDeadlineExceeded status reason message (dW d)\<rparr>"

definition ensureRunningStep ::
  "'p op_env \<Rightarrow> rec_state \<Rightarrow> bool \<Rightarrow> gotime \<Rightarrow> 'p decision_state \<Rightarrow> 'p decision_state ctl" where
  "ensureRunningStep env st shouldBeRunning now d =
     (if shouldBeRunning \<and> dChosen d = None then
        if startingDeadlineSecondsExceeded (cj (dW d)) (rsStartOfCurrentRunPeriod st) now then
          Return (setDeadline (opClock env) ConditionTrue ''StartingDeadlineExceeded''
              ''We expect to be running, but have exceeded the starting deadline'' d)
            (Some (GoErr ''Tried to create a job, but we have exceeded the specified StartingDeadlineSeconds after the scheduled start time''))
        else
          let d1 = setDeadline (opClock env) ConditionFalse ''StartingDeadlineNotExceeded''
                     ''Still in time to start a new job'' d in
          (case rsStartOfCurrentRunPeriod st of
             None \<Rightarrow> Return d1 (Some (GoErr ''Tried to create a job, but the StartOfCurrentRunPeriod is nil, which was unexpected''))
           | Some start \<Rightarrow> createWith (BuildForControlledJob (opJobs env) (cj (dW d1)) start 0 False True) d1)
      else Continue (setDeadline (opClock env) ConditionUnknown ''NoNewJobRequired''
             ''We're not trying to start a job at the moment'' d))"

definition deleteStep :: "'p decision_state \<Rightarrow> 'p decision_state" where
  "deleteStep d =
     d\<lparr>dDelete := dDelete d
         @ filter (\<lambda>a. \<not> IsJobBeingDeleted (dStore d ! a)) (dExpired d)
         @ filter (\<lambda>a. \<not> IsJobBeingDeleted (dStore d ! a) \<and>
             \<not> (Some a = dChosen d \<or> IsJobCompleted (dStore d ! a))) (dNonExpired d)\<rparr>"

definition unsuspendStep :: "'p decision_state \<Rightarrow> 'p decision_state" where
  "unsuspendStep d =
     (case dChosen d of
        None \<Rightarrow> d
      | Some a \<Rightarrow>
          let job = dStore d ! a in
          if dCount d = 1 \<and> IsJobSuspended job \<and> \<not> IsJobBeingDeleted job \<and> \<not> WasJobStoppedByTheUser job then
            if dCreate d = [a]
            then d\<lparr>dStore := (dStore d)[a := job\<lparr>jobSpec := (jobSpec job)\<lparr>jsSuspend := None\<rparr>\<rparr>]\<rparr>
            else d\<lparr>dUnsuspend := dUnsuspend d @ [a]\<rparr>
          else d)"

definition requeueStep :: "rec_state \<Rightarrow> 'p decision_state \<Rightarrow> 'p decision_state" where
  "requeueStep st d =
     (case rsNextEventTime st of None \<Rightarrow> d | Some t \<Rightarrow> d\<lparr>dRequeueAt := t\<rparr>)"

text \<open>The deferred assignment of \<^verbatim>\<open>IsRunning\<close>, which runs on every return after it.\<close>

definition setIsRunning :: "'p decision_state \<Rightarrow> 'p decision_state" where
  "setIsRunning d =
     d\<lparr>dW := upd_status (\<lambda>s. s\<lparr>stIsRunning := Some (dChosen d \<noteq> None)\<rparr>) (dW d)\<rparr>"

primrec onReturn :: "('d \<Rightarrow> 'd) \<Rightarrow> 'd ctl \<Rightarrow> 'd ctl" where
  "onReturn f (Continue d) = Return (f d) None"
| "onReturn f (Return d e) = Return (f d) e"
| "onReturn f (Crash d) = Crash (f d)"
| "onReturn f Stuck = Stuck"

definition recordScheduleStatus :: "(nat \<Rightarrow> gotime) \<Rightarrow> rec_state \<Rightarrow> 'p cjw \<Rightarrow> 'p cjw" where
  "recordScheduleStatus clock st w =
     setShouldBeRunningStatus clock st
       (upd_status (\<lambda>s. s\<lparr>stIsSuspended := Some (rsIsSuspended st),
                          stLastScheduledStartTime := rsStartOfCurrentRunPeriod st\<rparr>) w)"

definition reportJobs :: "(nat \<Rightarrow> gotime) \<Rightarrow> rec_state \<Rightarrow> 'p job list \<Rightarrow> nat option \<Rightarrow> 'p cjw \<Rightarrow> 'p cjw" where
  "reportJobs clock st store metricsJob w =
     setJobConditions clock (map_option ((!) store) metricsJob)
       (setConditionsForAllJobs clock (map ((!) store) (rsAllJobs st)) w)"

definition shouldRun :: "rec_state \<Rightarrow> bool" where
  "shouldRun st = (case rsShouldBeRunning st of None \<Rightarrow> False | Some b \<Rightarrow> b)"

text \<open>The part of \<^verbatim>\<open>makeDecision\<close> that runs when the ControlledJob is not suspended.\<close>

definition decideRunning ::
  "'p op_env \<Rightarrow> rec_state \<Rightarrow> gotime \<Rightarrow> bool \<Rightarrow> 'p decision_state \<Rightarrow> 'p decision_state ctl" where
  "decideRunning env st now enableAutoRecreateJobsOnSpecChange d =
     (let clock = opClock env;
          w1 = SetCondition clock ConditionTypeSuspended ConditionFalse ''NotSuspended'' ''IsSuspended flag not set'' (dW d);
          restartOnSpecChange = (enableAutoRecreateJobsOnSpecChange \<and> rsAutoRestartIsEnabled st);
          (maxJobRunId, metricsJob) = runIdLoop st (dStore d) (rsAllJobs st) (- 1) None;
          d1 = d\<lparr>dW := reportJobs clock st (dStore d) metricsJob w1\<rparr>;
          d2 = stopStep (shouldRun st) (scanJobs env st d1)
      in onReturn setIsRunning
           (cbind (outOfDateStep env st restartOnSpecChange maxJobRunId d2) (\<lambda>d3.
            cbind (ensureRunningStep env st (shouldRun st) now d3) (\<lambda>d4.
            Continue (requeueStep st (unsuspendStep (deleteStep d4)))))))"

definition decideSuspended :: "'p op_env \<Rightarrow> rec_state \<Rightarrow> 'p decision_state \<Rightarrow> 'p decision_state ctl" where
  "decideSuspended env st d =
     Return (d\<lparr>dDelete := rsAllJobs st,
               dW := SetCondition (opClock env) ConditionTypeSuspended ConditionTrue ''Suspended''
                       ''IsSuspended flag set'' (dW d)\<rparr>) None"

definition makeDecision ::
  "'p op_env \<Rightarrow> 'p cjw \<Rightarrow> 'p job list \<Rightarrow> gotime \<Rightarrow> bool \<Rightarrow> 'p decision_state ctl" where
  "makeDecision env w childJobs now enableAutoRecreateJobsOnSpecChange =
     (let d = initial_decision w childJobs in
      case buildState env (cj w) childJobs now of
        Err e \<Rightarrow> Return d (Some e)
      | Panic \<Rightarrow> Crash d
      | Hang \<Rightarrow> Stuck
      | Ok st \<Rightarrow>
          let d1 = d\<lparr>dW := recordScheduleStatus (opClock env) st w\<rparr> in
          if rsIsSuspended st then decideSuspended env st d1
          else decideRunning env st now enableAutoRecreateJobsOnSpecChange d1)"

end
