(* ===== verification/Events.thy ===== *)
theory Events
  imports Decision
begin

text \<open>
  \<^verbatim>\<open>pkg/events\<close>: the entries of the action history, the history itself (bounded, newest first,
  repeated errors recorded once) and the handler that sends an event to the Kubernetes event
  recorder and records the action. The recorder is a parameter: an operation on the state \<open>'s\<close>
  of the world outside. \<^verbatim>\<open>NowFunc\<close> reads the same clock as \<^verbatim>\<open>SetCondition\<close>.
\<close>

section \<open>Events\<close>

abbreviation EventJobStarted :: string where "EventJobStarted \<equiv> ''JobStarted''"
abbreviation EventJobStopped :: string where "EventJobStopped \<equiv> ''JobStopped''"
abbreviation EventJobSuspended :: string where "EventJobSuspended \<equiv> ''JobSuspended''"
abbreviation EventJobUnsuspended :: string where "EventJobUnsuspended \<equiv> ''JobUnsuspended''"
abbreviation FailedToReconcile :: string where "FailedToReconcile \<equiv> ''FailedToReconcile''"
abbreviation FailedToListJobs :: string where "FailedToListJobs \<equiv> ''FailedToListJobs''"
abbreviation FailedToCalculateSchedule :: string where "FailedToCalculateSchedule \<equiv> ''FailedToCalculateSchedule''"
abbreviation FailedToCreateJob :: string where "FailedToCreateJob \<equiv> ''FailedToCreateJob''"
abbreviation FailedToDeleteJob :: string where "FailedToDeleteJob \<equiv> ''FailedToDeleteJob''"
abbreviation FailedToSuspendJob :: string where "FailedToSuspendJob \<equiv> ''FailedToSuspendJob''"
abbreviation FailedToUnsuspendJob :: string where "FailedToUnsuspendJob \<equiv> ''FailedToUnsuspendJob''"

definition IsWarningEvent :: "string \<Rightarrow> bool" where
  "IsWarningEvent event = has_prefix event ''Failed''"

text \<open>\<^verbatim>\<open>WrapError\<close> on an error that is not nil.\<close>

definition WrapError :: "go_error \<Rightarrow> string \<Rightarrow> string \<Rightarrow> go_error" where
  "WrapError err event message = WithEvent (WrapErr err message) event"

section \<open>Entries\<close>

definition timeOrNilIfZero :: "gotime option \<Rightarrow> gotime option" where
  "timeOrNilIfZero t =
     (case t of None \<Rightarrow> None | Some t' \<Rightarrow> if time_is_zero t' then None else Some t')"

definition newActionForJob :: "gotime \<Rightarrow> string \<Rightarrow> string \<Rightarrow> string \<Rightarrow> action_history_entry" where
  "newActionForJob now eventType message name =
     \<lparr>ahType = eventType, ahTimestamp = timeOrNilIfZero (Some now), ahMessage = message,
      ahScheduledStartTime = None, ahJobIndex = None, ahJobName = name\<rparr>"

definition NewJobStartedAction :: "gotime \<Rightarrow> string \<Rightarrow> action_history_entry" where
  "NewJobStartedAction now name = newActionForJob now EventJobStarted (''Created job: '' @ name) name"

definition NewJobSuspendedAction :: "gotime \<Rightarrow> string \<Rightarrow> action_history_entry" where
  "NewJobSuspendedAction now name = newActionForJob now EventJobSuspended (''Suspended job: '' @ name) name"

definition NewJobUnsuspendedAction :: "gotime \<Rightarrow> string \<Rightarrow> action_history_entry" where
  "NewJobUnsuspendedAction now name = newActionForJob now EventJobUnsuspended (''Unsuspended job: '' @ name) name"

definition NewJobStoppedAction :: "gotime \<Rightarrow> string \<Rightarrow> action_history_entry" where
  "NewJobStoppedAction now name = newActionForJob now EventJobStopped (''Deleted job: '' @ name) name"

definition NewJobFailedAction :: "gotime \<Rightarrow> string \<Rightarrow> go_error \<Rightarrow> string \<Rightarrow> action_history_entry" where
  "NewJobFailedAction now event err name =
     newActionForJob now event (''Job '' @ name @ '' failed: '' @ error_message err) name"

definition NewFailedAction :: "gotime \<Rightarrow> string \<Rightarrow> go_error \<Rightarrow> action_history_entry" where
  "NewFailedAction now event err =
     \<lparr>ahType = event, ahTimestamp = timeOrNilIfZero (Some now), ahMessage = error_message err,
      ahScheduledStartTime = None, ahJobIndex = None, ahJobName = []\<rparr>"

section \<open>The history\<close>

abbreviation HistoryEntriesToKeep :: nat where "HistoryEntriesToKeep \<equiv> 16"

definition isSameAction :: "action_history_entry option \<Rightarrow> action_history_entry \<Rightarrow> bool" where
  "isSameAction existing proposed =
     (case existing of
        None \<Rightarrow> False
      | Some e \<Rightarrow> e\<lparr>ahTimestamp := ahTimestamp proposed\<rparr> = proposed)"

definition prependAndTruncateIfNeeded :: "'a list \<Rightarrow> 'a \<Rightarrow> nat \<Rightarrow> 'a list" where
  "prependAndTruncateIfNeeded existing newEntry maxLength =
     newEntry # take (min (length existing) (maxLength - 1)) existing"

definition addActionHistoryEntryImpl :: "action_history_entry \<Rightarrow> bool \<Rightarrow> controlled_job_status \<Rightarrow> controlled_job_status" where
  "addActionHistoryEntryImpl action ignoreDuplicates st =
     (if ignoreDuplicates \<and> isSameAction (stMostRecentAction st) action then st
      else st\<lparr>stMostRecentAction := Some action,
              stActionHistory := prependAndTruncateIfNeeded (stActionHistory st) action HistoryEntriesToKeep\<rparr>)"

definition addActionHistoryEntry :: "action_history_entry \<Rightarrow> controlled_job_status \<Rightarrow> controlled_job_status" where
  "addActionHistoryEntry action = addActionHistoryEntryImpl action False"

definition addActionHistoryEntryIgnoringDuplicates :: "action_history_entry \<Rightarrow> controlled_job_status \<Rightarrow> controlled_job_status" where
  "addActionHistoryEntryIgnoringDuplicates action = addActionHistoryEntryImpl action True"

section \<open>The handler\<close>

text \<open>\<open>recorder obj eventType reason message\<close> is \<^verbatim>\<open>EventRecorder.Event\<close>.\<close>

type_synonym ('p, 's) recorder = "'p controlled_job \<Rightarrow> string \<Rightarrow> string \<Rightarrow> string \<Rightarrow> 's \<Rightarrow> 's"

definition recordEvent :: "('p, 's) recorder \<Rightarrow> 'p controlled_job \<Rightarrow> string \<Rightarrow> string \<Rightarrow> string \<Rightarrow> 's \<Rightarrow> 's" where
  "recordEvent recorder obj eventType reason message = recorder obj eventType reason message"

definition recordWarningEvent :: "('p, 's) recorder \<Rightarrow> 'p controlled_job \<Rightarrow> string \<Rightarrow> string \<Rightarrow> 's \<Rightarrow> 's" where
  "recordWarningEvent recorder obj reason message = recordEvent recorder obj ''Warning'' reason message"

definition recordNormalEvent :: "('p, 's) recorder \<Rightarrow> 'p controlled_job \<Rightarrow> string \<Rightarrow> string \<Rightarrow> 's \<Rightarrow> 's" where
  "recordNormalEvent recorder obj reason message = recordEvent recorder obj ''Normal'' reason message"

definition RecordEvent :: "('p, 's) recorder \<Rightarrow> action_history_entry \<Rightarrow> 'p cjw \<times> 's \<Rightarrow> 'p cjw \<times> 's" where
  "RecordEvent recorder action ws =
     (let (w, s) = ws;
          s' = (if IsWarningEvent (ahType action)
                then recordWarningEvent recorder (cj w) (ahType action) (ahMessage action) s
                else recordNormalEvent recorder (cj w) (ahType action) (ahMessage action) s)
      in (upd_status (addActionHistoryEntryIgnoringDuplicates action) w, s'))"

text \<open>The current time is read when the action is made, before the event is recorded.\<close>

definition recordNow ::
  "(nat \<Rightarrow> gotime) \<Rightarrow> ('p, 's) recorder \<Rightarrow> (gotime \<Rightarrow> action_history_entry) \<Rightarrow> 'p cjw \<times> 's \<Rightarrow> 'p cjw \<times> 's" where
  "recordNow clock recorder action ws =
     (let (w, s) = ws in RecordEvent recorder (action (clock (ticks w))) (w\<lparr>ticks := ticks w + 1\<rparr>, s))"

section \<open>Lemmas\<close>

lemma prepend_length:
  "0 < n \<Longrightarrow> length (prependAndTruncateIfNeeded xs x n) = min (Suc (length xs)) n"
  by (simp add: prependAndTruncateIfNeeded_def)

lemma same_action_refl [simp]: "isSameAction (Some (e\<lparr>ahTimestamp := t\<rparr>)) e"
  by (simp add: isSameAction_def)

text \<open>\<open>entries_match\<close>: equal but for the time.\<close>

definition entries_match :: "action_history_entry \<Rightarrow> action_history_entry \<Rightarrow> bool" where
  "entries_match e f \<longleftrightarrow> e\<lparr>ahTimestamp := None\<rparr> = f\<lparr>ahTimestamp := None\<rparr>"

lemma isSameAction_match: "isSameAction (Some e) f \<longleftrightarrow> entries_match e f"
  by (cases e; cases f) (auto simp: isSameAction_def entries_match_def)

definition history_ok :: "controlled_job_status \<Rightarrow> bool" where
  "history_ok st \<longleftrightarrow> length (stActionHistory st) \<le> 16
     \<and> (case stMostRecentAction st of None \<Rightarrow> stActionHistory st = []
        | Some a \<Rightarrow> stActionHistory st \<noteq> [] \<and> hd (stActionHistory st) = a)
     \<and> (\<forall>i. Suc i < length (stActionHistory st) \<longrightarrow>
          \<not> entries_match (stActionHistory st ! Suc i) (stActionHistory st ! i))"

lemma hd_take: "xs \<noteq> [] \<Longrightarrow> 0 < n \<Longrightarrow> hd (take n xs) = hd xs"
  by (cases xs; cases n) auto

text \<open>Recording an action again and again: a fold over the actions.\<close>

definition record_all :: "action_history_entry list \<Rightarrow> controlled_job_status \<Rightarrow> controlled_job_status" where
  "record_all = fold addActionHistoryEntryIgnoringDuplicates"

lemma history_ok_step:
  assumes "history_ok st"
  shows "history_ok (addActionHistoryEntryIgnoringDuplicates a st)"
proof (cases "isSameAction (stMostRecentAction st) a")
  case True
  then show ?thesis using assms by (simp add: addActionHistoryEntryIgnoringDuplicates_def addActionHistoryEntryImpl_def)
next
  case False
  let ?h = "stActionHistory st"
  have "\<not> entries_match (?h ! 0) a" if "?h \<noteq> []"
  proof -
    note ne = that
    obtain b where "stMostRecentAction st = Some b" "hd ?h = b"
      using assms ne by (auto simp: history_ok_def split: option.splits)
    then show ?thesis using False ne by (simp add: isSameAction_match hd_conv_nth)
  qed
  then have "\<not> entries_match ((a # take (min (length ?h) 15) ?h) ! Suc i) ((a # take (min (length ?h) 15) ?h) ! i)"
    if "Suc i < length (a # take (min (length ?h) 15) ?h)" for i
    using that assms by (cases i) (auto simp: history_ok_def)
  then show ?thesis
    using False by (simp add: history_ok_def addActionHistoryEntryIgnoringDuplicates_def addActionHistoryEntryImpl_def
        prependAndTruncateIfNeeded_def)
qed

section \<open>Properties\<close>

text \<open>
  C27: The action history is bounded and holds no repetitions: recording any sequence of actions
  on a status whose history has at most 16 entries, starts with the most recent action and has
  no two adjacent entries that differ in their time only, gives such a status again.
\<close>

theorem action_history_invariant:
  assumes "history_ok st"
  shows "history_ok (record_all actions st)"
  using assms by (induction actions arbitrary: st) (simp_all add: record_all_def history_ok_step)

text \<open>
  What recording an action does to the history: an action equal to the most recent one but
  for its time leaves the status as it is; any other becomes the most recent action and the
  first entry, followed by the first 15 of the old entries; no other field changes.
\<close>

theorem addActionHistoryEntry_correct:
  "addActionHistoryEntryIgnoringDuplicates a st =
     (if \<exists>b. stMostRecentAction st = Some b \<and> entries_match b a then st
      else st\<lparr>stMostRecentAction := Some a, stActionHistory := a # take 15 (stActionHistory st)\<rparr>)"
proof -
  have "isSameAction (stMostRecentAction st) a \<longleftrightarrow> (\<exists>b. stMostRecentAction st = Some b \<and> entries_match b a)"
  proof (cases "stMostRecentAction st")
    case None
    then show ?thesis by (simp add: isSameAction_def)
  qed (simp add: isSameAction_match)
  moreover have "take (min (length xs) 15) xs = take 15 xs" for xs :: "action_history_entry list"
    by (simp add: min_def)
  ultimately show ?thesis
    by (auto simp: addActionHistoryEntryIgnoringDuplicates_def addActionHistoryEntryImpl_def prependAndTruncateIfNeeded_def)
qed

theorem action_history_invariant_witness:
  "history_ok (record_all [NewJobStartedAction zero_time ''a'', NewJobStartedAction zero_time ''a'',
     NewJobStoppedAction zero_time ''a''] blank_status)"
  by (rule action_history_invariant) (simp add: history_ok_def blank_status_def)

end
