(* ===== verification/Reconcile.thy ===== *)
theory Reconcile
  imports Events
begin

text \<open>
  \<^verbatim>\<open>pkg/reconciliation/reconcile.go\<close> and the reconciler of \<^verbatim>\<open>controllers/\<close>. The cluster is a state
  \<open>'s\<close>; the \<^verbatim>\<open>ControlledJobClient\<close> of \<^verbatim>\<open>pkg/clientadapter\<close> is a record of operations on it, each
  of which may fail and may change the state also when it fails. An error that is nil is
  \<open>None\<close>.
\<close>

section \<open>Results\<close>

record reconcile_result =
  rrRequeueAfter :: duration
  rrError :: "(go_error \<times> bool) option"

text \<open>\<open>ctrl_result\<close> is \<^verbatim>\<open>ctrl.Result\<close>.\<close>

record ctrl_result =
  crRequeue :: bool
  crRequeueAfter :: duration

definition AsControllerResultAndError :: "reconcile_result \<Rightarrow> ctrl_result \<times> go_error option" where
  "AsControllerResultAndError r =
     (case rrError r of
        Some (err, retryable) \<Rightarrow>
          if retryable then (\<lparr>crRequeue = False, crRequeueAfter = 0\<rparr>, Some err)
          else (\<lparr>crRequeue = False, crRequeueAfter = 0\<rparr>, None)
      | None \<Rightarrow> (\<lparr>crRequeue = False, crRequeueAfter = rrRequeueAfter r\<rparr>, None))"

definition TransientErrorResult :: "go_error \<Rightarrow> reconcile_result" where
  "TransientErrorResult err = \<lparr>rrRequeueAfter = 0, rrError = Some (err, True)\<rparr>"

definition NonRetryableErrorResult :: "go_error \<Rightarrow> reconcile_result" where
  "NonRetryableErrorResult err = \<lparr>rrRequeueAfter = 0, rrError = Some (err, False)\<rparr>"

section \<open>The client\<close>

type_synonym namespaced_name = "string \<times> string"

record ('p, 's) job_client =
  GetControlledJob :: "namespaced_name \<Rightarrow> 's \<Rightarrow> ('p controlled_job option \<times> bool \<times> go_error option) \<times> 's"
  UpdateControlledJob :: "'p controlled_job \<Rightarrow> 's \<Rightarrow> go_error option \<times> 's"
  UpdateStatus :: "'p controlled_job \<Rightarrow> 's \<Rightarrow> go_error option \<times> 's"
  ListJobsForControlledJob :: "namespaced_name \<Rightarrow> 's \<Rightarrow> ('p job list \<times> go_error option) \<times> 's"
  CreateJob :: "'p job \<Rightarrow> 's \<Rightarrow> go_error option \<times> 's"
  SuspendJob :: "'p job \<Rightarrow> 's \<Rightarrow> go_error option \<times> 's"
  UnsuspendJob :: "'p job \<Rightarrow> 's \<Rightarrow> go_error option \<times> 's"
  DeleteJob :: "'p job \<Rightarrow> string \<Rightarrow> 's \<Rightarrow> go_error option \<times> 's"

abbreviation DeletePropagationForeground :: string where
  "DeletePropagationForeground \<equiv> ''Foreground''"

text \<open>
  \<^verbatim>\<open>loadFromCluster\<close>: nothing (\<open>None\<close>, no error) if the ControlledJob cannot be found. If it is not
  \<^verbatim>\<open>ok\<close> and not nil, the error is wrapped, and wrapping a nil error gives nil.
\<close>

definition loadFromCluster ::
  "('p, 's) job_client \<Rightarrow> namespaced_name \<Rightarrow> 's \<Rightarrow> (('p controlled_job \<times> 'p job list) option \<times> go_error option) \<times> 's" where
  "loadFromCluster client target s =
     (let ((controlledJob, ok, err), s1) = GetControlledJob client target s in
      if \<not> ok then
        (case controlledJob of
           None \<Rightarrow> ((None, None), s1)
         | Some _ \<Rightarrow> ((None, map_option (\<lambda>e. WrapErr e (''failed to find target ControlledJob '' @ snd target
             @ '' in namespace '' @ fst target)) err), s1))
      else let ((jobs, err), s2) = ListJobsForControlledJob client target s1 in
        (case err of
           Some e \<Rightarrow> ((None, Some (WrapError e FailedToListJobs (''Failed to list jobs for controlled job ''
             @ (case controlledJob of None \<Rightarrow> [] | Some c \<Rightarrow> cjName c) @ '' in namespace ''
             @ (case controlledJob of None \<Rightarrow> [] | Some c \<Rightarrow> cjNamespace c)))), s2)
         | None \<Rightarrow> ((map_option (\<lambda>c. (c, jobs)) controlledJob, None), s2)))"

section \<open>The overall conditions\<close>

definition setUnknown :: "(nat \<Rightarrow> gotime) \<Rightarrow> condition_type \<Rightarrow> string \<Rightarrow> 'p cjw \<Rightarrow> 'p cjw" where
  "setUnknown clock ty message = SetCondition clock ty ConditionUnknown ''CannotDetermine'' message"

definition runningExpectedlyIsUnknown :: "(nat \<Rightarrow> gotime) \<Rightarrow> 'p cjw \<Rightarrow> 'p cjw" where
  "runningExpectedlyIsUnknown clock = setUnknown clock ConditionTypeRunningExpectedly
     ''Job either not running, or it is running and we don't expect it to be (see other conditions for details)''"

definition runningUnexpectedlyIsUnknown :: "(nat \<Rightarrow> gotime) \<Rightarrow> 'p cjw \<Rightarrow> 'p cjw" where
  "runningUnexpectedlyIsUnknown clock = setUnknown clock ConditionTypeRunningUnexpectedly
     ''Job either not running, or it is running and we expect it to be (see other conditions for details)''"

definition notRunningExpectedlyIsUnknown :: "(nat \<Rightarrow> gotime) \<Rightarrow> 'p cjw \<Rightarrow> 'p cjw" where
  "notRunningExpectedlyIsUnknown clock = setUnknown clock ConditionTypeNotRunningExpectedly
     ''Job either running, or it's not running but we expect it to be (see other conditions for details)''"

definition notRunningUnexpectedlyIsUnknown :: "(nat \<Rightarrow> gotime) \<Rightarrow> 'p cjw \<Rightarrow> 'p cjw" where
  "notRunningUnexpectedlyIsUnknown clock = setUnknown clock ConditionTypeNotRunningUnexpectedly
     ''Job either not running, or it is running and we expect it to be (see other conditions for details)''"

definition setBecause :: "(nat \<Rightarrow> gotime) \<Rightarrow> condition_type \<Rightarrow> string \<Rightarrow> string \<Rightarrow> 'p cjw \<Rightarrow> 'p cjw" where
  "setBecause clock ty reason message = SetCondition clock ty ConditionTrue reason message"

definition setErrorCondition :: "(nat \<Rightarrow> gotime) \<Rightarrow> go_error option \<Rightarrow> 'p cjw \<Rightarrow> 'p cjw" where
  "setErrorCondition clock err w =
     (case err of
        Some e \<Rightarrow> SetCondition clock ConditionTypeError ConditionTrue ''Error'' (error_message e) w
      | None \<Rightarrow> SetCondition clock ConditionTypeError ConditionFalse ''NoError'' ''No error encountered'' w)"

definition setOverallConditions :: "(nat \<Rightarrow> gotime) \<Rightarrow> 'p cjw \<Rightarrow> 'p cjw" where
  "setOverallConditions clock w =
     (let jobExists = cond_true w ConditionTypeJobExists;
          jobFailed = cond_true w ConditionTypeJobFailed;
          jobExistsAndNotFailed = (jobExists \<and> \<not> jobFailed);
          shouldBeRunning = cond_true w ConditionTypeShouldBeRunning;
          jobManuallyScheduled = cond_true w ConditionTypeJobManuallyScheduled;
          runningExpectedlyBecause = setBecause clock ConditionTypeRunningExpectedly;
          runningUnexpectedlyBecause = setBecause clock ConditionTypeRunningUnexpectedly;
          notRunningExpectedlyBecause = setBecause clock ConditionTypeNotRunningExpectedly;
          notRunningUnexpectedlyBecause = setBecause clock ConditionTypeNotRunningUnexpectedly
      in if jobExistsAndNotFailed then
           if shouldBeRunning then
             (notRunningUnexpectedlyIsUnknown clock \<circ> notRunningExpectedlyIsUnknown clock \<circ> runningUnexpectedlyIsUnknown clock
              \<circ> runningExpectedlyBecause ''RunningBasedOnSchedule''
                  ''Job is running, and that's expected because of the schedule'') w
           else if jobManuallyScheduled then
             (notRunningUnexpectedlyIsUnknown clock \<circ> notRunningExpectedlyIsUnknown clock \<circ> runningUnexpectedlyIsUnknown clock
              \<circ> runningExpectedlyBecause ''RunningManually''
                  ''Job is running, and that's expected because the user has manually scheduled a job'') w
           else
             (notRunningUnexpectedlyIsUnknown clock \<circ> notRunningExpectedlyIsUnknown clock
              \<circ> runningUnexpectedlyBecause ''RunningUnexpectedly''
                  ''Job is running, but it should not be - neither inside the scheduled times, nor manually scheduled''
              \<circ> runningExpectedlyIsUnknown clock) w
         else
           if shouldBeRunning then
             if jobFailed then
               (notRunningUnexpectedlyBecause ''JobFailed''
                  ''Job failed, but according to the schedule it should currently be running''
                \<circ> notRunningExpectedlyIsUnknown clock \<circ> runningUnexpectedlyIsUnknown clock \<circ> runningExpectedlyIsUnknown clock) w
             else
               (notRunningUnexpectedlyBecause ''NoJobExists''
                  ''No job currently exists, but according to the schedule it should currently be running''
                \<circ> notRunningExpectedlyIsUnknown clock \<circ> runningUnexpectedlyIsUnknown clock \<circ> runningExpectedlyIsUnknown clock) w
           else if jobManuallyScheduled then
             if jobFailed then
               (notRunningUnexpectedlyBecause ''JobFailed'' ''Job failed after the user scheduled it''
                \<circ> notRunningExpectedlyIsUnknown clock \<circ> runningUnexpectedlyIsUnknown clock \<circ> runningExpectedlyIsUnknown clock) w
             else
               (notRunningUnexpectedlyBecause ''NoJobExists''
                  ''The user requested to schedule a Job, but one hasn't been created''
                \<circ> notRunningExpectedlyIsUnknown clock \<circ> runningUnexpectedlyIsUnknown clock \<circ> runningExpectedlyIsUnknown clock) w
           else
             (notRunningUnexpectedlyIsUnknown clock
              \<circ> notRunningExpectedlyBecause ''NotRunningExpectedly''
                  ''No job exists, and that's expected as we're outside the scheduled times, and the user has not manually scheduled a job''
              \<circ> runningUnexpectedlyIsUnknown clock \<circ> runningExpectedlyIsUnknown clock) w)"

definition calculateOverallConditions :: "(nat \<Rightarrow> gotime) \<Rightarrow> go_error option \<Rightarrow> 'p cjw \<Rightarrow> 'p cjw" where
  "calculateOverallConditions clock err w = setOverallConditions clock (setErrorCondition clock err w)"

section \<open>Acting on the decision\<close>

record ('p, 's) rec_env =
  reOp :: "'p op_env"
  reClient :: "('p, 's) job_client"
  reRecorder :: "('p, 's) recorder"
  reEnableAutoRecreate :: bool

abbreviation re_clock :: "('p, 's) rec_env \<Rightarrow> nat \<Rightarrow> gotime" where
  "re_clock env \<equiv> opClock (reOp env)"

text \<open>
  One round of a loop over the jobs of a decision: the client call, and either the wrapped
  error with its condition, or the recorded action with its condition. \<open>actOnJobs\<close> is such a
  loop, which returns at the first error.
\<close>

definition actOnJob ::
  "('p, 's) rec_env \<Rightarrow> ('p job \<Rightarrow> 's \<Rightarrow> go_error option \<times> 's) \<Rightarrow> string \<Rightarrow> string \<Rightarrow> condition_type
   \<Rightarrow> (gotime \<Rightarrow> string \<Rightarrow> action_history_entry) \<Rightarrow> condition_status \<Rightarrow> string \<Rightarrow> string
   \<Rightarrow> 'p job \<Rightarrow> 'p cjw \<times> 's \<Rightarrow> go_error option \<times> 'p cjw \<times> 's" where
  "actOnJob env call event verb ty action okStatus okReason okMessage job ws =
     (let (w, s) = ws; (err, s1) = call job s in
      case err of
        Some e0 \<Rightarrow>
          let e = WrapError e0 event
                (''failed to '' @ verb @ '' job '' @ jobName job @ '' in namespace '' @ jobNamespace job)
          in (Some e, SetCondition (re_clock env) ty ConditionTrue event (error_message e) w, s1)
      | None \<Rightarrow>
          let (w1, s2) = recordNow (re_clock env) (reRecorder env) (\<lambda>now. action now (jobName job)) (w, s1)
          in (None, SetCondition (re_clock env) ty okStatus okReason okMessage w1, s2))"

fun actOnJobs ::
  "('p job \<Rightarrow> 'p cjw \<times> 's \<Rightarrow> go_error option \<times> 'p cjw \<times> 's) \<Rightarrow> 'p job list \<Rightarrow> 'p cjw \<times> 's
   \<Rightarrow> go_error option \<times> 'p cjw \<times> 's" where
  "actOnJobs act [] ws = (None, ws)"
| "actOnJobs act (job # jobs) ws =
     (case act job ws of
        (Some e, ws') \<Rightarrow> (Some e, ws')
      | (None, ws') \<Rightarrow> actOnJobs act jobs ws')"

definition deleteJobs :: "('p, 's) rec_env \<Rightarrow> 'p job list \<Rightarrow> 'p cjw \<times> 's \<Rightarrow> go_error option \<times> 'p cjw \<times> 's" where
  "deleteJobs env = actOnJobs (actOnJob env (\<lambda>job. DeleteJob (reClient env) job DeletePropagationForeground) FailedToDeleteJob ''delete''
     ConditionTypeFailedToDeleteJob NewJobStoppedAction ConditionFalse ''DeletedJob'' ''Successfully deleted job'')"

definition createJobs :: "('p, 's) rec_env \<Rightarrow> 'p job list \<Rightarrow> 'p cjw \<times> 's \<Rightarrow> go_error option \<times> 'p cjw \<times> 's" where
  "createJobs env = actOnJobs (actOnJob env (CreateJob (reClient env)) FailedToCreateJob ''create''
     ConditionTypeFailedToCreateJob NewJobStartedAction ConditionFalse ''CreatedJob'' ''Successfully created job'')"

definition suspendJobs :: "('p, 's) rec_env \<Rightarrow> 'p job list \<Rightarrow> 'p cjw \<times> 's \<Rightarrow> go_error option \<times> 'p cjw \<times> 's" where
  "suspendJobs env = actOnJobs (actOnJob env (SuspendJob (reClient env)) FailedToSuspendJob ''suspend''
     ConditionTypeFailedToSuspendJob NewJobSuspendedAction ConditionTrue ''SuspendedJob'' ''Successfully suspended job'')"

definition unsuspendJobs :: "('p, 's) rec_env \<Rightarrow> 'p job list \<Rightarrow> 'p cjw \<times> 's \<Rightarrow> go_error option \<times> 'p cjw \<times> 's" where
  "unsuspendJobs env = actOnJobs (actOnJob env (UnsuspendJob (reClient env)) FailedToUnsuspendJob ''unsuspend''
     ConditionTypeFailedToUnsuspendJob NewJobUnsuspendedAction ConditionTrue ''UnsuspendedJob'' ''Successfully unsuspended job'')"

text \<open>Return with the error, or go on with the next loop.\<close>

definition orElse ::
  "go_error option \<times> 'p cjw \<times> 's \<Rightarrow> ('p cjw \<times> 's \<Rightarrow> go_error option \<times> 'p cjw \<times> 's) \<Rightarrow> go_error option \<times> 'p cjw \<times> 's" where
  "orElse r f = (case r of (Some e, ws) \<Rightarrow> (Some e, ws) | (None, ws) \<Rightarrow> f ws)"

definition jobs_at :: "'p decision_state \<Rightarrow> nat list \<Rightarrow> 'p job list" where
  "jobs_at d as = map (\<lambda>a. dStore d ! a) as"

definition applyDecision ::
  "('p, 's) rec_env \<Rightarrow> 'p decision_state \<Rightarrow> 's \<Rightarrow> go_error option \<times> 'p cjw \<times> 's" where
  "applyDecision env d s =
     orElse (deleteJobs env (jobs_at d (dDelete d)) (dW d, s)) (\<lambda>ws.
     orElse (createJobs env (jobs_at d (dCreate d)) ws) (\<lambda>ws.
     orElse (suspendJobs env (jobs_at d (dSuspend d)) ws) (\<lambda>ws.
     unsuspendJobs env (jobs_at d (dUnsuspend d)) ws)))"

section \<open>\<open>Reconcile\<close>\<close>

definition recordFailedReconcile ::
  "('p, 's) rec_env \<Rightarrow> go_error option \<Rightarrow> 'p cjw \<times> 's \<Rightarrow> 'p cjw \<times> 's" where
  "recordFailedReconcile env err ws =
     (case err of
        None \<Rightarrow> ws
      | Some e \<Rightarrow>
          let event = (case error_event e of Some ev \<Rightarrow> ev | None \<Rightarrow> FailedToReconcile)
          in recordNow (re_clock env) (reRecorder env) (\<lambda>now. NewFailedAction now event e) ws)"

text \<open>
  The deferred calls, last one first: the status is completed and written (an error of the
  write is logged only), then the failure is recorded.
\<close>

definition writeStatus :: "('p, 's) rec_env \<Rightarrow> go_error option \<Rightarrow> 'p cjw \<times> 's \<Rightarrow> 'p cjw \<times> 's" where
  "writeStatus env err ws =
     (let (w, s) = ws; w1 = calculateOverallConditions (re_clock env) err w
      in (w1, snd (UpdateStatus (reClient env) (cj w1) s)))"

definition deferredCalls :: "('p, 's) rec_env \<Rightarrow> go_error option \<Rightarrow> 'p cjw \<times> 's \<Rightarrow> 'p cjw \<times> 's" where
  "deferredCalls env err ws = recordFailedReconcile env err (writeStatus env err ws)"

text \<open>A call returns, panics (in which case the deferred calls still run), or never returns.\<close>

datatype 's rec_outcome = Finished reconcile_result 's | Panicked 's | NeverReturns

definition Reconcile ::
  "('p, 's) rec_env \<Rightarrow> namespaced_name \<Rightarrow> gotime \<Rightarrow> 's \<Rightarrow> 's rec_outcome" where
  "Reconcile env target now s =
     (let ((loaded, err), s1) = loadFromCluster (reClient env) target s in
      case err of
        Some e \<Rightarrow> Finished (TransientErrorResult e) s1
      | None \<Rightarrow>
          (case loaded of
             None \<Rightarrow> Finished \<lparr>rrRequeueAfter = 0, rrError = None\<rparr> s1
           | Some (c, childJobs) \<Rightarrow>
               (case makeDecision (reOp env) \<lparr>cj = c, ticks = 0\<rparr> childJobs now (reEnableAutoRecreate env) of
                  Return d (Some e) \<Rightarrow>
                    Finished (NonRetryableErrorResult e) (snd (deferredCalls env (Some e) (dW d, s1)))
                | Return d None \<Rightarrow>
                    (case applyDecision env d s1 of
                       (Some e, ws) \<Rightarrow> Finished (TransientErrorResult e) (snd (deferredCalls env (Some e) ws))
                     | (None, ws) \<Rightarrow>
                         Finished \<lparr>rrRequeueAfter = time_sub (dRequeueAt d) now, rrError = None\<rparr>
                           (snd (deferredCalls env None ws)))
                | Crash d \<Rightarrow> Panicked (snd (deferredCalls env None (dW d, s1)))
                | Stuck \<Rightarrow> NeverReturns
                | Continue d \<Rightarrow> NeverReturns)))"

section \<open>The reconciler\<close>

text \<open>\<^verbatim>\<open>ControlledJobReconciler.Reconcile\<close>; \<open>now\<close> is what its clock reads.\<close>

definition reconcilerReconcile ::
  "('p, 's) rec_env \<Rightarrow> gotime \<Rightarrow> namespaced_name \<Rightarrow> 's \<Rightarrow> ((ctrl_result \<times> go_error option) \<times> 's) option" where
  "reconcilerReconcile env now req s =
     (case Reconcile env req now s of
        Finished result s' \<Rightarrow> Some (AsControllerResultAndError result, s')
      | _ \<Rightarrow> None)"

text \<open>\<^verbatim>\<open>handleError\<close>: record the action and ask for a requeue if the error can be retried.\<close>

definition handleError ::
  "('p, 's) recorder \<Rightarrow> action_history_entry \<Rightarrow> bool \<Rightarrow> 'p cjw \<times> 's \<Rightarrow> ctrl_result \<times> 'p cjw \<times> 's" where
  "handleError recorder failureAction retryable ws =
     (\<lparr>crRequeue = retryable, crRequeueAfter = 0\<rparr>, RecordEvent recorder failureAction ws)"

text \<open>
  The index function of \<^verbatim>\<open>SetupWithManager\<close>: the name of the ControlledJob that controls a job.
  \<^verbatim>\<open>GetControllerOf\<close> is the first owner reference with the controller flag.
\<close>

definition GetControllerOf :: "'p job \<Rightarrow> owner_reference option" where
  "GetControllerOf job = find (\<lambda>r. orController r = Some True) (jobOwnerReferences job)"

definition jobOwnerIndex :: "'p job \<Rightarrow> string list" where
  "jobOwnerIndex job =
     (case GetControllerOf job of
        None \<Rightarrow> []
      | Some owner \<Rightarrow>
          if orAPIVersion owner \<noteq> ApiGVStr \<or> orKind owner \<noteq> ''ControlledJob'' then [] else [orName owner])"

text \<open>\<open>since\<close> is the clock reading of \<^verbatim>\<open>time.Since\<close>.\<close>

definition missedStartingDeadline :: "gotime \<Rightarrow> gotime \<Rightarrow> 64 word option \<Rightarrow> bool" where
  "missedStartingDeadline since startOfCurrentPeriod startingDeadlineSeconds =
     (case startingDeadlineSeconds of
        None \<Rightarrow> False
      | Some secs \<Rightarrow> sint (seconds (sint secs)) < sint (time_sub since startOfCurrentPeriod))"

end
