(* ===== verification/DecisionCorrect.thy ===== *)
theory DecisionCorrect
  imports Decision
begin

text \<open>
  What \<^verbatim>\<open>makeDecision\<close> does, as lemmas on its loops and steps: the choice of the job that may
  run, the split into expired and current jobs, and what each step leaves unchanged.
\<close>

section \<open>The candidate order\<close>

text \<open>
  \<^verbatim>\<open>isBetterCandidateJob\<close> meets the contract of a nearest choice, so the loops that keep a
  best candidate return a job that no other one is better than.
\<close>

interpretation best: nearest_choice "\<lambda>job cand. isBetterCandidateJob job cand st" for st
  by unfold_locales
    (auto simp: isBetterCandidateJob_def Let_def split: if_splits)

section \<open>The loops\<close>

lemma runIdLoop_pick:
  assumes "metricsJob = map_option snd best" "\<forall>b k. best = Some (b, k) \<longrightarrow> store ! k = b" "i \<le> n"
  shows "snd (runIdLoop st store [i..<n] m metricsJob) =
    map_option snd (pick (\<lambda>job cand. isBetterCandidateJob job cand st) i best
      (map (\<lambda>a. if \<exists>r. GetJobRunId (store ! a) = Ok r then Some (store ! a) else None) [i..<n]))"
  using assms
proof (induction "n - i" arbitrary: i m metricsJob best)
  case 0
  then show ?case by simp
next
  case (Suc k)
  then have i: "[i..<n] = i # [Suc i..<n]" by (simp add: upt_conv_Cons)
  have IH: "metricsJob' = map_option snd best' \<Longrightarrow> \<forall>b k. best' = Some (b, k) \<longrightarrow> store ! k = b \<Longrightarrow>
    snd (runIdLoop st store [Suc i..<n] m' metricsJob') =
    map_option snd (pick (\<lambda>job cand. isBetterCandidateJob job cand st) (Suc i) best'
      (map (\<lambda>a. if \<exists>r. GetJobRunId (store ! a) = Ok r then Some (store ! a) else None) [Suc i..<n]))"
    for m' metricsJob' best' using Suc.hyps Suc.prems(3) by (intro Suc.hyps(1)) auto
  show ?case
  proof (cases "GetJobRunId (store ! i)")
    case (Ok r)
    show ?thesis
      unfolding i using Ok Suc.prems(1,2)
      by (cases best) (auto intro!: IH split: option.split)
  qed (use IH [OF Suc.prems(1,2)] in \<open>simp_all add: i\<close>)
qed

lemma runIdLoop_max:
  "fst (runIdLoop st store as m metricsJob) \<ge> m
   \<and> (\<forall>a \<in> set as. \<forall>r. GetJobRunId (store ! a) = Ok r \<longrightarrow> r \<le> fst (runIdLoop st store as m metricsJob))
   \<and> (fst (runIdLoop st store as m metricsJob) = m
      \<or> (\<exists>a \<in> set as. GetJobRunId (store ! a) = Ok (fst (runIdLoop st store as m metricsJob))))"
proof (induction as arbitrary: m metricsJob)
  case Nil
  then show ?case by simp
next
  case (Cons a as)
  show ?case
  proof (cases "GetJobRunId (store ! a)")
    case (Ok r)
    then show ?thesis
      using Cons [of "if m < r then r else m" "case metricsJob of None \<Rightarrow> Some a
             | Some b \<Rightarrow> if isBetterCandidateJob (store ! a) (store ! b) st then Some a else metricsJob"]
      by (auto split: if_splits)
  qed (use Cons [of m metricsJob] in auto)
qed

lemma countIfRunning_frame [simp]:
  "dStore (countIfRunning env a d) = dStore d" "dChosen (countIfRunning env a d) = dChosen d"
  "dExpired (countIfRunning env a d) = dExpired d" "dNonExpired (countIfRunning env a d) = dNonExpired d"
  "dCreate (countIfRunning env a d) = dCreate d" "dDelete (countIfRunning env a d) = dDelete d"
  "dSuspend (countIfRunning env a d) = dSuspend d" "dUnsuspend (countIfRunning env a d) = dUnsuspend d"
  "dRequeueAt (countIfRunning env a d) = dRequeueAt d"
  "dCount (countIfRunning env a d) = dCount d + (if IsJobPotentiallyRunning (dStore d ! a) then 1 else 0)"
  by (simp_all add: countIfRunning_def Let_def split: option.split)

definition scan_result ::
  "rec_state \<Rightarrow> 'p decision_state \<Rightarrow> nat \<Rightarrow> nat \<Rightarrow> ('p job \<times> nat) option \<Rightarrow> 'p decision_state \<Rightarrow> bool" where
  "scan_result st d i n best d' \<longleftrightarrow>
     dStore d' = dStore d
     \<and> dExpired d' = dExpired d @ filter (\<lambda>a. isExpired st (dStore d ! a)) [i..<n]
     \<and> dNonExpired d' = dNonExpired d @ filter (\<lambda>a. \<not> isExpired st (dStore d ! a)) [i..<n]
     \<and> dCount d' = dCount d + length (filter (\<lambda>a. IsJobPotentiallyRunning (dStore d ! a)) [i..<n])
     \<and> dChosen d' = map_option snd (pick (\<lambda>job cand. isBetterCandidateJob job cand st) i best
           (map (\<lambda>a. if isExpired st (dStore d ! a) then None else Some (dStore d ! a)) [i..<n]))
     \<and> dCreate d' = dCreate d \<and> dDelete d' = dDelete d \<and> dSuspend d' = dSuspend d
     \<and> dUnsuspend d' = dUnsuspend d \<and> dRequeueAt d' = dRequeueAt d"

lemma scanJob_fields [simp]:
  "dStore (scanJob env st a d) = dStore d"
  "dExpired (scanJob env st a d) = dExpired d @ (if isExpired st (dStore d ! a) then [a] else [])"
  "dNonExpired (scanJob env st a d) = dNonExpired d @ (if isExpired st (dStore d ! a) then [] else [a])"
  "dCount (scanJob env st a d) = dCount d + (if IsJobPotentiallyRunning (dStore d ! a) then 1 else 0)"
  "dChosen (scanJob env st a d) = (if isExpired st (dStore d ! a) then dChosen d
     else case dChosen d of None \<Rightarrow> Some a
       | Some b \<Rightarrow> if isBetterCandidateJob (dStore d ! a) (dStore d ! b) st then Some a else dChosen d)"
  "dCreate (scanJob env st a d) = dCreate d" "dDelete (scanJob env st a d) = dDelete d"
  "dSuspend (scanJob env st a d) = dSuspend d" "dUnsuspend (scanJob env st a d) = dUnsuspend d"
  "dRequeueAt (scanJob env st a d) = dRequeueAt d"
  by (simp_all add: scanJob_def Let_def split: option.split)

lemma scan_fold:
  "dChosen d = map_option snd best \<Longrightarrow> \<forall>b k. best = Some (b, k) \<longrightarrow> dStore d ! k = b \<Longrightarrow> i \<le> n \<Longrightarrow>
   scan_result st d i n best (fold (scanJob env st) [i..<n] d)"
proof (induction "n - i" arbitrary: i d best)
  case 0
  then show ?case by (simp add: scan_result_def)
next
  case (Suc k)
  let ?b = "if isExpired st (dStore d ! i) then best
    else case best of None \<Rightarrow> Some (dStore d ! i, i)
      | Some (b, k) \<Rightarrow> if isBetterCandidateJob (dStore d ! i) b st then Some (dStore d ! i, i) else best"
  have i: "[i..<n] = i # [Suc i..<n]" using Suc.hyps(2) by (simp add: upt_conv_Cons)
  have "dChosen (scanJob env st i d) = map_option snd ?b" "\<forall>b k. ?b = Some (b, k) \<longrightarrow> dStore (scanJob env st i d) ! k = b"
  proof (atomize (full), cases best)
    case None
    then show "dChosen (scanJob env st i d) = map_option snd ?b \<and> (\<forall>b k. ?b = Some (b, k) \<longrightarrow> dStore (scanJob env st i d) ! k = b)"
      using Suc.prems(1) by simp
  next
    case (Some p)
    obtain b k where "p = (b, k)" by force
    moreover from this have "dChosen d = Some k" "dStore d ! k = b" using Suc.prems(1,2) Some by simp_all
    ultimately show "dChosen (scanJob env st i d) = map_option snd ?b \<and> (\<forall>b k. ?b = Some (b, k) \<longrightarrow> dStore (scanJob env st i d) ! k = b)"
      using Some by simp
  qed
  moreover have "k = n - Suc i" "Suc i \<le> n" using Suc.hyps(2) by simp_all
  ultimately have IH: "scan_result st (scanJob env st i d) (Suc i) n ?b (fold (scanJob env st) [Suc i..<n] (scanJob env st i d))"
    by (intro Suc.hyps(1))
  have pick: "pick f i best ((if isExpired st (dStore d ! i) then None else Some (dStore d ! i)) # cs)
    = pick f (Suc i) (if isExpired st (dStore d ! i) then best
    else case best of None \<Rightarrow> Some (dStore d ! i, i)
      | Some (b, k) \<Rightarrow> if f (dStore d ! i) b then Some (dStore d ! i, i) else best) cs" for f cs
    by simp
  show ?case
    using IH unfolding scan_result_def i list.map pick filter.simps fold_simps scanJob_fields(1)
    by (cases "isExpired st (dStore d ! i)") simp_all
qed

section \<open>Only the status of the ControlledJob changes\<close>

text \<open>
  And of the status the action history does not change, and the condition types stay distinct.
\<close>

definition unique_conditions :: "controlled_job_status \<Rightarrow> bool" where
  "unique_conditions s \<longleftrightarrow> distinct (map condType (stConditions s))"

lemma unique_conditions_SetCondition [simp]:
  "unique_conditions (cjStatus (cj (SetCondition clock ty status reason message w))) \<longleftrightarrow> unique_conditions (cjStatus (cj w))"
  by (auto simp: unique_conditions_def SetCondition_def FindCondition_def Let_def find_None_iff map_update_first
      split: option.split)

lemma unique_conditions_cong: "stConditions s = stConditions s' \<Longrightarrow> unique_conditions s \<longleftrightarrow> unique_conditions s'"
  by (simp add: unique_conditions_def)

definition same_but_status :: "'p controlled_job \<Rightarrow> 'p controlled_job \<Rightarrow> bool" where
  "same_but_status c c' \<longleftrightarrow>
     cjSpec c' = cjSpec c \<and> cjName c' = cjName c \<and> cjNamespace c' = cjNamespace c
     \<and> cjAnnotations c' = cjAnnotations c \<and> cjUID c' = cjUID c \<and> cjGeneration c' = cjGeneration c
     \<and> stActionHistory (cjStatus c') = stActionHistory (cjStatus c)
     \<and> stMostRecentAction (cjStatus c') = stMostRecentAction (cjStatus c)
     \<and> (unique_conditions (cjStatus c') \<longleftrightarrow> unique_conditions (cjStatus c))"

lemma same_but_status_refl [simp]: "same_but_status c c"
  by (simp add: same_but_status_def)

lemma same_but_status_fields:
  assumes "same_but_status c c'"
  shows "cjSpec c' = cjSpec c" "cjName c' = cjName c" "cjNamespace c' = cjNamespace c"
    "cjAnnotations c' = cjAnnotations c" "cjUID c' = cjUID c" "cjGeneration c' = cjGeneration c"
    "stActionHistory (cjStatus c') = stActionHistory (cjStatus c)"
    "stMostRecentAction (cjStatus c') = stMostRecentAction (cjStatus c)"
    "unique_conditions (cjStatus c') \<longleftrightarrow> unique_conditions (cjStatus c)"
  using assms by (simp_all add: same_but_status_def)

lemma same_update_status [simp]:
  "stActionHistory s = stActionHistory (cjStatus c') \<Longrightarrow> stMostRecentAction s = stMostRecentAction (cjStatus c') \<Longrightarrow>
   stConditions s = stConditions (cjStatus c') \<Longrightarrow>
   same_but_status c (c'\<lparr>cjStatus := s\<rparr>) \<longleftrightarrow> same_but_status c c'"
  using unique_conditions_cong [of s "cjStatus c'"] by (simp add: same_but_status_def)

lemma same_SetCondition [simp]:
  "same_but_status c (cj (SetCondition clock ty status reason message w)) \<longleftrightarrow> same_but_status c (cj w)"
  by (simp add: same_but_status_def)

lemma same_flag [simp]:
  "same_but_status c (cj (SetConditionBasedOnFlag clock ty flag r m r' m' w)) \<longleftrightarrow> same_but_status c (cj w)"
  by (simp add: SetConditionBasedOnFlag_def)

lemma same_recordScheduleStatus [simp]:
  "same_but_status c (cj (recordScheduleStatus clock st w)) \<longleftrightarrow> same_but_status c (cj w)"
  by (auto simp: recordScheduleStatus_def setShouldBeRunningStatus_def Let_def split: option.split)

lemma same_relay [simp]:
  "same_but_status c (cj (relayCondition clock ty job jc pre m r m' w)) \<longleftrightarrow> same_but_status c (cj w)"
  by (auto simp: relayCondition_def split: option.split)

lemma same_reportJobs [simp]:
  "same_but_status c (cj (reportJobs clock st store metricsJob w)) \<longleftrightarrow> same_but_status c (cj w)"
  by (auto simp: reportJobs_def setJobConditions_def setConditionsForAllJobs_def setConditionIfTrueForAnyJob_def
      Let_def split: option.split)

lemma same_scanJob [simp]:
  "same_but_status c (cj (dW (scanJob env st a d))) \<longleftrightarrow> same_but_status c (cj (dW d))"
  by (simp add: scanJob_def Let_def countIfRunning_def split: option.split)

lemma same_fold_scan [simp]:
  "same_but_status c (cj (dW (fold (scanJob env st) as d))) \<longleftrightarrow> same_but_status c (cj (dW d))"
  by (induction as arbitrary: d) simp_all

lemma same_scanJobs [simp]:
  "same_but_status c (cj (dW (scanJobs env st d))) \<longleftrightarrow> same_but_status c (cj (dW d))"
  by (simp add: scanJobs_def)

lemma stopStep_frame [simp]:
  "dW (stopStep b d) = dW d" "dStore (stopStep b d) = dStore d" "dCount (stopStep b d) = dCount d"
  "dExpired (stopStep b d) = dExpired d" "dNonExpired (stopStep b d) = dNonExpired d"
  "dCreate (stopStep b d) = dCreate d" "dDelete (stopStep b d) = dDelete d"
  "dSuspend (stopStep b d) = dSuspend d" "dUnsuspend (stopStep b d) = dUnsuspend d"
  "dRequeueAt (stopStep b d) = dRequeueAt d"
  by (simp_all add: stopStep_def split: option.split)

section \<open>The choice\<close>

text \<open>The best job that is not expired, and what the stop rule leaves of it.\<close>

definition bestCurrent :: "rec_state \<Rightarrow> 'p job list \<Rightarrow> nat option" where
  "bestCurrent st jobs = map_option snd (pick (\<lambda>job cand. isBetterCandidateJob job cand st) 0 None
     (map (\<lambda>job. if isExpired st job then None else Some job) jobs))"

definition currentChoice :: "rec_state \<Rightarrow> 'p job list \<Rightarrow> nat option" where
  "currentChoice st jobs =
     (case bestCurrent st jobs of
        None \<Rightarrow> None
      | Some a \<Rightarrow> if \<not> shouldRun st \<and> \<not> IsManuallyScheduledJob (jobs ! a) then None else Some a)"

lemma bestCurrent_None: "bestCurrent st jobs = None \<longleftrightarrow> (\<forall>job \<in> set jobs. isExpired st job)"
proof
  let ?r = "pick (\<lambda>job cand. isBetterCandidateJob job cand st) 0 None
     (map (\<lambda>job. if isExpired st job then None else Some job) jobs)"
  note pick = best.pick_correct [of st "map (\<lambda>job. if isExpired st job then None else Some job) jobs"]
  { assume "bestCurrent st jobs = None"
    then have "?r = None" by (simp add: bestCurrent_def)
    with pick show "\<forall>job \<in> set jobs. isExpired st job" by (auto simp: is_pick_def split: if_splits) }
  { assume exp: "\<forall>job \<in> set jobs. isExpired st job"
    show "bestCurrent st jobs = None"
    proof (rule ccontr)
      assume "bestCurrent st jobs \<noteq> None"
      then obtain b k where "?r = Some (b, k)" by (auto simp: bestCurrent_def)
      with pick show False using exp by (auto simp: is_pick_def split: if_splits)
    qed }
qed

lemma bestCurrent_Some:
  assumes "bestCurrent st jobs = Some a"
  shows "a < length jobs" "\<not> isExpired st (jobs ! a)"
    "\<And>b. b < length jobs \<Longrightarrow> \<not> isExpired st (jobs ! b) \<Longrightarrow> \<not> isBetterCandidateJob (jobs ! b) (jobs ! a) st"
proof -
  note pick = best.pick_correct [of st "map (\<lambda>job. if isExpired st job then None else Some job) jobs"]
  obtain b where "pick (\<lambda>job cand. isBetterCandidateJob job cand st) 0 None
     (map (\<lambda>job. if isExpired st job then None else Some job) jobs) = Some (b, a)"
    using assms by (auto simp: bestCurrent_def)
  with pick have p: "a < length jobs" "(if isExpired st (jobs ! a) then None else Some (jobs ! a)) = Some b"
    "\<And>j y. j < length jobs \<Longrightarrow> (if isExpired st (jobs ! j) then None else Some (jobs ! j)) = Some y \<Longrightarrow>
      \<not> isBetterCandidateJob y b st"
    by (auto simp: is_pick_def)
  then show "a < length jobs" "\<not> isExpired st (jobs ! a)"
    "\<And>b. b < length jobs \<Longrightarrow> \<not> isExpired st (jobs ! b) \<Longrightarrow> \<not> isBetterCandidateJob (jobs ! b) (jobs ! a) st"
    by (auto split: if_splits)
qed

lemma currentChoice_Some:
  assumes "currentChoice st jobs = Some a"
  shows "bestCurrent st jobs = Some a" "shouldRun st \<or> IsManuallyScheduledJob (jobs ! a)"
  using assms by (auto simp: currentChoice_def split: option.splits if_splits)

lemma map_upt_nth: "map (\<lambda>a. f (xs ! a)) [0..<length xs] = map f xs"
  by (rule nth_equalityI) auto

text \<open>The state after both loops and the stop rule.\<close>

lemma scan_stop:
  assumes d2: "d2 = stopStep (shouldRun st) (scanJobs env st d)"
    and d: "rsAllJobs st = [0..<length jobs]" "dStore d = jobs" "dChosen d = None" "dCount d = 0"
      "dExpired d = []" "dNonExpired d = []"
  shows "dStore d2 = jobs" "dChosen d2 = currentChoice st jobs"
    "dCount d2 = length (filter (\<lambda>a. IsJobPotentiallyRunning (jobs ! a)) [0..<length jobs])"
    "dExpired d2 = filter (\<lambda>a. isExpired st (jobs ! a)) [0..<length jobs]"
    "dNonExpired d2 = filter (\<lambda>a. \<not> isExpired st (jobs ! a)) [0..<length jobs]"
    "dCreate d2 = dCreate d" "dDelete d2 = dDelete d" "dSuspend d2 = dSuspend d" "dUnsuspend d2 = dUnsuspend d"
    "dRequeueAt d2 = dRequeueAt d"
proof -
  let ?d = "d\<lparr>dW := upd_status (\<lambda>s. s\<lparr>stActive := []\<rparr>) (dW d)\<rparr>"
  have "scan_result st ?d 0 (length jobs) None (scanJobs env st d)"
    unfolding scanJobs_def d(1) by (rule scan_fold) (simp_all add: d)
  moreover have "dStore ?d = jobs" by (simp add: d)
  ultimately have r: "scan_result st ?d 0 (length jobs) None (scanJobs env st d)" "dStore ?d = jobs" by simp_all
  note r = r(1) [unfolded scan_result_def r(2)]
  have "map (\<lambda>a. if isExpired st (jobs ! a) then None else Some (jobs ! a)) [0..<length jobs]
    = map (\<lambda>job. if isExpired st job then None else Some job) jobs"
    by (rule map_upt_nth [of "\<lambda>job. if isExpired st job then None else Some job"])
  then have "dChosen (scanJobs env st d) = bestCurrent st jobs"
    using r by (simp add: bestCurrent_def)
  then show "dChosen d2 = currentChoice st jobs"
    using r by (simp add: d2 stopStep_def currentChoice_def split: option.split)
  show "dStore d2 = jobs"
    "dCount d2 = length (filter (\<lambda>a. IsJobPotentiallyRunning (jobs ! a)) [0..<length jobs])"
    "dExpired d2 = filter (\<lambda>a. isExpired st (jobs ! a)) [0..<length jobs]"
    "dNonExpired d2 = filter (\<lambda>a. \<not> isExpired st (jobs ! a)) [0..<length jobs]"
    "dCreate d2 = dCreate d" "dDelete d2 = dDelete d" "dSuspend d2 = dSuspend d" "dUnsuspend d2 = dUnsuspend d"
    "dRequeueAt d2 = dRequeueAt d"
    using r by (simp_all add: d2 d)
qed

section \<open>The state before the deletions\<close>

text \<open>
  \<open>decided\<close> describes the locals of \<^verbatim>\<open>makeDecision\<close> when the choice is made: the listed jobs
  untouched in the store and at most one new job after them, which is then the chosen one.
  \<open>recreated\<close> and \<open>started\<close> are the two ways a new job comes about.
\<close>

definition running_count :: "'p job list \<Rightarrow> nat" where
  "running_count jobs = length (filter (\<lambda>a. IsJobPotentiallyRunning (jobs ! a)) [0..<length jobs])"

definition recreated :: "'p op_env \<Rightarrow> rec_state \<Rightarrow> bool \<Rightarrow> 'p controlled_job \<Rightarrow> 'p job list \<Rightarrow> 'p job \<Rightarrow> bool" where
  "recreated env st restart c jobs job \<longleftrightarrow>
     (\<exists>a c'. currentChoice st jobs = Some a \<and> isOutOfDate (jobs ! a) st \<and> restart
        \<and> IsJobPotentiallyRunning (jobs ! a) \<and> \<not> WasJobStoppedByTheUser (jobs ! a)
        \<and> \<not> IsJobBeingDeleted (jobs ! a) \<and> same_but_status c c'
        \<and> RecreateJobWithNewSpec (opJobs env) (jobs ! a) c'
            (wrap64 (fst (runIdLoop st jobs [0..<length jobs] (- 1) None) + 1)) True = Ok job)"

definition started :: "'p op_env \<Rightarrow> rec_state \<Rightarrow> gotime \<Rightarrow> 'p controlled_job \<Rightarrow> 'p job list \<Rightarrow> 'p job \<Rightarrow> bool" where
  "started env st now c jobs job \<longleftrightarrow>
     (\<exists>s c'. currentChoice st jobs = None \<and> shouldRun st \<and> rsStartOfCurrentRunPeriod st = Some s
        \<and> \<not> startingDeadlineSecondsExceeded c (Some s) now \<and> same_but_status c c'
        \<and> BuildForControlledJob (opJobs env) c' s 0 False True = Ok job)"

definition decided ::
  "'p op_env \<Rightarrow> rec_state \<Rightarrow> bool \<Rightarrow> gotime \<Rightarrow> 'p controlled_job \<Rightarrow> 'p job list \<Rightarrow> 'p job option \<Rightarrow> 'p decision_state \<Rightarrow> bool" where
  "decided env st restart now c jobs new d \<longleftrightarrow>
     dStore d = jobs @ (case new of None \<Rightarrow> [] | Some j \<Rightarrow> [j])
     \<and> dCreate d = (case new of None \<Rightarrow> [] | Some j \<Rightarrow> [length jobs])
     \<and> dChosen d = (case new of None \<Rightarrow> currentChoice st jobs | Some j \<Rightarrow> Some (length jobs))
     \<and> dCount d = running_count jobs + (case new of None \<Rightarrow> 0 | Some j \<Rightarrow> 1)
     \<and> dExpired d = filter (\<lambda>a. isExpired st (jobs ! a)) [0..<length jobs]
     \<and> dNonExpired d = filter (\<lambda>a. \<not> isExpired st (jobs ! a)) [0..<length jobs] @ dCreate d
     \<and> dDelete d = [] \<and> dSuspend d = [] \<and> dUnsuspend d = [] \<and> dRequeueAt d = zero_time
     \<and> same_but_status c (cj (dW d))
     \<and> (case new of None \<Rightarrow> True | Some j \<Rightarrow> recreated env st restart c jobs j \<or> started env st now c jobs j)"

lemma setOutOfDate_frame [simp]:
  "dStore (setOutOfDate clock b r m d) = dStore d" "dChosen (setOutOfDate clock b r m d) = dChosen d"
  "dCount (setOutOfDate clock b r m d) = dCount d" "dExpired (setOutOfDate clock b r m d) = dExpired d"
  "dNonExpired (setOutOfDate clock b r m d) = dNonExpired d" "dCreate (setOutOfDate clock b r m d) = dCreate d"
  "dDelete (setOutOfDate clock b r m d) = dDelete d" "dSuspend (setOutOfDate clock b r m d) = dSuspend d"
  "dUnsuspend (setOutOfDate clock b r m d) = dUnsuspend d" "dRequeueAt (setOutOfDate clock b r m d) = dRequeueAt d"
  "same_but_status c (cj (dW (setOutOfDate clock b r m d))) \<longleftrightarrow> same_but_status c (cj (dW d))"
  by (simp_all add: setOutOfDate_def)

lemma setDeadline_frame [simp]:
  "dStore (setDeadline clock b r m d) = dStore d" "dChosen (setDeadline clock b r m d) = dChosen d"
  "dCount (setDeadline clock b r m d) = dCount d" "dExpired (setDeadline clock b r m d) = dExpired d"
  "dNonExpired (setDeadline clock b r m d) = dNonExpired d" "dCreate (setDeadline clock b r m d) = dCreate d"
  "dDelete (setDeadline clock b r m d) = dDelete d" "dSuspend (setDeadline clock b r m d) = dSuspend d"
  "dUnsuspend (setDeadline clock b r m d) = dUnsuspend d" "dRequeueAt (setDeadline clock b r m d) = dRequeueAt d"
  "same_but_status c (cj (dW (setDeadline clock b r m d))) \<longleftrightarrow> same_but_status c (cj (dW d))"
  by (simp_all add: setDeadline_def)

lemma addNewJob_fields [simp]:
  "dStore (addNewJob j d) = dStore d @ [j]" "dChosen (addNewJob j d) = Some (length (dStore d))"
  "dCount (addNewJob j d) = dCount d + 1" "dExpired (addNewJob j d) = dExpired d"
  "dNonExpired (addNewJob j d) = dNonExpired d @ [length (dStore d)]"
  "dCreate (addNewJob j d) = dCreate d @ [length (dStore d)]" "dDelete (addNewJob j d) = dDelete d"
  "dSuspend (addNewJob j d) = dSuspend d" "dUnsuspend (addNewJob j d) = dUnsuspend d"
  "dRequeueAt (addNewJob j d) = dRequeueAt d" "dW (addNewJob j d) = dW d"
  by (simp_all add: addNewJob_def Let_def)

lemma cbind_Continue: "cbind r f = Continue d \<longleftrightarrow> (\<exists>d'. r = Continue d' \<and> f d' = Continue d)"
  by (cases r) auto

lemma cbind_Return: "cbind r f = Return d e \<longleftrightarrow> r = Return d e \<or> (\<exists>d'. r = Continue d' \<and> f d' = Return d e)"
  by (cases r) auto

lemma createWith_eqs:
  "createWith b d = Continue d' \<longleftrightarrow> (\<exists>job. b = Ok job \<and> d' = addNewJob job d)"
  "createWith b d = Return d' e \<longleftrightarrow> (\<exists>e'. b = Err e' \<and> d' = d \<and> e = Some (WrapErr e' ''Failed to create job''))"
  by (cases b; auto simp: createWith_def)+

text \<open>When the out-of-date rule replaces the chosen job.\<close>

definition recreate_due :: "rec_state \<Rightarrow> bool \<Rightarrow> 'p job list \<Rightarrow> bool" where
  "recreate_due st restart jobs \<longleftrightarrow>
     (\<exists>a. currentChoice st jobs = Some a \<and> isOutOfDate (jobs ! a) st \<and> restart
        \<and> IsJobPotentiallyRunning (jobs ! a) \<and> \<not> WasJobStoppedByTheUser (jobs ! a) \<and> \<not> IsJobBeingDeleted (jobs ! a))"

lemma outOfDateStep_decided:
  assumes "outOfDateStep env st restart (fst (runIdLoop st jobs [0..<length jobs] (- 1) None)) d = Continue d'"
    and "decided env st restart now c jobs None d"
  shows "\<exists>new. decided env st restart now c jobs new d' \<and> (new \<noteq> None \<longleftrightarrow> recreate_due st restart jobs)"
proof (cases "currentChoice st jobs")
  case None
  then have "decided env st restart now c jobs None d'"
    using assms by (auto simp: outOfDateStep_def decided_def)
  then show ?thesis using None by (auto simp: recreate_due_def)
next
  case (Some a)
  then have a: "a < length jobs" using bestCurrent_Some(1) currentChoice_Some(1) by blast
  let ?job = "jobs ! a" and ?n = "wrap64 (fst (runIdLoop st jobs [0..<length jobs] (- 1) None) + 1)"
  have d: "dChosen d = Some a" "dStore d = jobs" using assms(2) Some by (simp_all add: decided_def)
  show ?thesis
  proof (cases "isOutOfDate ?job st \<and> restart \<and> IsJobPotentiallyRunning ?job
      \<and> \<not> WasJobStoppedByTheUser ?job \<and> \<not> IsJobBeingDeleted ?job")
    case True
    then obtain job where job: "RecreateJobWithNewSpec (opJobs env) ?job (cj (dW d)) ?n True = Ok job"
      "d' = setOutOfDate (opClock env) False ''NotOutOfDate'' ''Running job matches desired spec'' (addNewJob job d)"
      using assms(1) d by (auto simp: outOfDateStep_def Let_def cbind_Continue createWith_eqs)
    then have "recreated env st restart c jobs job"
      using True Some assms(2) by (auto simp: recreated_def decided_def)
    then have "decided env st restart now c jobs (Some job) d'"
      using assms(2) job(2) d by (simp add: decided_def)
    then show ?thesis using Some True by (auto simp: recreate_due_def)
  next
    case False
    then have "decided env st restart now c jobs None d'"
      using assms d Some by (auto simp: outOfDateStep_def Let_def decided_def split: if_splits)
    then show ?thesis using Some False by (auto simp: recreate_due_def)
  qed
qed

lemma deadline_same_spec:
  "same_but_status c c' \<Longrightarrow> startingDeadlineSecondsExceeded c' s now = startingDeadlineSecondsExceeded c s now"
  by (simp add: startingDeadlineSecondsExceeded_def same_but_status_fields)

lemma ensureRunningStep_decided:
  assumes "ensureRunningStep env st (shouldRun st) now d = Continue d'"
    and "decided env st restart now c jobs new d" "new \<noteq> None \<longleftrightarrow> recreate_due st restart jobs"
  shows "\<exists>new. decided env st restart now c jobs new d'
    \<and> (new \<noteq> None \<longleftrightarrow> recreate_due st restart jobs \<or> shouldRun st \<and> currentChoice st jobs = None)"
proof (cases "shouldRun st \<and> dChosen d = None")
  case True
  then have new: "new = None" "currentChoice st jobs = None" using assms(2,3) by (auto simp: decided_def split: option.splits)
  let ?d1 = "setDeadline (opClock env) ConditionFalse ''StartingDeadlineNotExceeded'' ''Still in time to start a new job'' d"
  obtain s job where s: "rsStartOfCurrentRunPeriod st = Some s"
    "\<not> startingDeadlineSecondsExceeded (cj (dW d)) (Some s) now"
    "BuildForControlledJob (opJobs env) (cj (dW ?d1)) s 0 False True = Ok job" "d' = addNewJob job ?d1"
    using assms(1) True
    by (auto simp: ensureRunningStep_def Let_def createWith_eqs split: if_splits option.splits)
  have same: "same_but_status c (cj (dW d))" using assms(2) by (simp add: decided_def)
  then have "same_but_status c (cj (dW ?d1))" "\<not> startingDeadlineSecondsExceeded c (Some s) now"
    using s(2) deadline_same_spec [OF same] by simp_all
  then have "started env st now c jobs job"
    unfolding started_def using s(1,3) new(2) True by blast
  then have "decided env st restart now c jobs (Some job) d'"
    using assms(2) new s(4) by (simp add: decided_def)
  then show ?thesis using True new(2) by auto
next
  case False
  then have "d' = setDeadline (opClock env) ConditionUnknown ''NoNewJobRequired'' ''We're not trying to start a job at the moment'' d"
    using assms(1) unfolding ensureRunningStep_def by (simp only: if_False ctl.inject)
  then have dec: "decided env st restart now c jobs new d'" using assms(2) by (simp add: decided_def)
  have "\<not> shouldRun st \<or> currentChoice st jobs \<noteq> None \<or> new \<noteq> None"
    using False assms(2) by (auto simp: decided_def split: option.splits)
  then show ?thesis using dec assms(3) by auto
qed

section \<open>Decisions that succeed\<close>

lemma buildState_fields:
  assumes "buildState env c jobs now = Ok st"
  shows "rsAllJobs st = [0..<length jobs]" "rsIsSuspended st \<longleftrightarrow> csSuspend (cjSpec c) = Some True"
    "rsDesiredHash st = CalculateHashFor (jeHash (opJobs env)) (csJobTemplate (cjSpec c))"
  using assms by (auto simp: buildState_def outcome_eqs Let_def)

lemma onReturn_Return: "onReturn f r = Return d e \<longleftrightarrow>
    (\<exists>d'. (r = Continue d' \<and> e = None \<or> r = Return d' e) \<and> d = f d')"
  by (cases r) auto

lemma steps_no_None_error:
  "outOfDateStep env st restart n d \<noteq> Return d' None"
  "ensureRunningStep env st b now d \<noteq> Return d' None"
  by (auto simp: outOfDateStep_def ensureRunningStep_def Let_def cbind_Return createWith_eqs
      split: option.split)

text \<open>A decision that is not suspended runs the four rules on the state after both loops.\<close>

lemma makeDecision_running:
  assumes "buildState env (cj w) jobs now = Ok st" "\<not> rsIsSuspended st"
  obtains d2 where "decided env st (en \<and> rsAutoRestartIsEnabled st) now (cj w) jobs None d2"
    "makeDecision env w jobs now en = onReturn setIsRunning
       (cbind (outOfDateStep env st (en \<and> rsAutoRestartIsEnabled st)
          (fst (runIdLoop st jobs [0..<length jobs] (- 1) None)) d2) (\<lambda>d3.
        cbind (ensureRunningStep env st (shouldRun st) now d3) (\<lambda>d4.
        Continue (requeueStep st (unsuspendStep (deleteStep d4))))))"
proof -
  note all = buildState_fields(1) [OF assms(1)]
  let ?d1 = "(initial_decision w jobs)\<lparr>dW := recordScheduleStatus (opClock env) st w\<rparr>"
  obtain m j where mj: "runIdLoop st jobs [0..<length jobs] (- 1) None = (m, j)" by force
  let ?w1 = "SetCondition (opClock env) ConditionTypeSuspended ConditionFalse ''NotSuspended'' ''IsSuspended flag not set'' (dW ?d1)"
  let ?d = "?d1\<lparr>dW := reportJobs (opClock env) st jobs j ?w1\<rparr>"
  let ?d2 = "stopStep (shouldRun st) (scanJobs env st ?d)"
  have start: "dStore ?d = jobs" "dChosen ?d = None" "dCount ?d = 0" "dExpired ?d = []" "dNonExpired ?d = []"
    "dCreate ?d = []" "dDelete ?d = []" "dSuspend ?d = []" "dUnsuspend ?d = []" "dRequeueAt ?d = zero_time"
    by (simp_all add: initial_decision_def)
  note scan = scan_stop [OF refl all start(1-5), of env]
  have dec2: "decided env st (en \<and> rsAutoRestartIsEnabled st) now (cj w) jobs None ?d2"
    using scan start by (simp add: decided_def running_count_def)
  have "makeDecision env w jobs now en = decideRunning env st now en ?d1"
    using assms by (simp add: makeDecision_def Let_def)
  moreover have "dStore ?d1 = jobs" by (simp add: initial_decision_def)
  ultimately have "makeDecision env w jobs now en = onReturn setIsRunning
      (cbind (outOfDateStep env st (en \<and> rsAutoRestartIsEnabled st) m ?d2) (\<lambda>d3.
      cbind (ensureRunningStep env st (shouldRun st) now d3) (\<lambda>d4.
      Continue (requeueStep st (unsuspendStep (deleteStep d4))))))"
    using all mj by (simp add: decideRunning_def Let_def)
  with dec2 mj show ?thesis by (intro that) simp_all
qed

lemma makeDecision_success:
  assumes "makeDecision env w jobs now en = Return d None" "buildState env (cj w) jobs now = Ok st"
    "\<not> rsIsSuspended st"
  obtains new d4 where "decided env st (en \<and> rsAutoRestartIsEnabled st) now (cj w) jobs new d4"
    "d = setIsRunning (requeueStep st (unsuspendStep (deleteStep d4)))"
    "new \<noteq> None \<longleftrightarrow> recreate_due st (en \<and> rsAutoRestartIsEnabled st) jobs \<or> shouldRun st \<and> currentChoice st jobs = None"
proof -
  let ?restart = "en \<and> rsAutoRestartIsEnabled st" and ?m = "fst (runIdLoop st jobs [0..<length jobs] (- 1) None)"
  obtain d2 where dec2: "decided env st ?restart now (cj w) jobs None d2"
    and eq: "makeDecision env w jobs now en = onReturn setIsRunning (cbind (outOfDateStep env st ?restart ?m d2) (\<lambda>d3.
      cbind (ensureRunningStep env st (shouldRun st) now d3) (\<lambda>d4.
      Continue (requeueStep st (unsuspendStep (deleteStep d4))))))"
    using makeDecision_running [OF assms(2,3), of en] by blast
  obtain d3 d4 where d3: "outOfDateStep env st ?restart ?m d2 = Continue d3"
    and d4: "ensureRunningStep env st (shouldRun st) now d3 = Continue d4"
    and d: "d = setIsRunning (requeueStep st (unsuspendStep (deleteStep d4)))"
    using trans [OF eq [symmetric] assms(1)] by (auto simp: onReturn_Return cbind_Continue cbind_Return steps_no_None_error)
  obtain new where new: "decided env st ?restart now (cj w) jobs new d3"
    "new \<noteq> None \<longleftrightarrow> recreate_due st ?restart jobs"
    using outOfDateStep_decided [OF d3 dec2] by blast
  show ?thesis using ensureRunningStep_decided [OF d4 new] that d by blast
qed

lemma tail_fields [simp]:
  "dStore (setIsRunning d) = dStore d" "dChosen (setIsRunning d) = dChosen d" "dCount (setIsRunning d) = dCount d"
  "dCreate (setIsRunning d) = dCreate d" "dDelete (setIsRunning d) = dDelete d"
  "dSuspend (setIsRunning d) = dSuspend d" "dUnsuspend (setIsRunning d) = dUnsuspend d"
  "dRequeueAt (setIsRunning d) = dRequeueAt d"
  "dStore (requeueStep st d) = dStore d" "dChosen (requeueStep st d) = dChosen d" "dCount (requeueStep st d) = dCount d"
  "dCreate (requeueStep st d) = dCreate d" "dDelete (requeueStep st d) = dDelete d"
  "dSuspend (requeueStep st d) = dSuspend d" "dUnsuspend (requeueStep st d) = dUnsuspend d"
  "dW (requeueStep st d) = dW d"
  "dStore (deleteStep d) = dStore d" "dChosen (deleteStep d) = dChosen d" "dCount (deleteStep d) = dCount d"
  "dCreate (deleteStep d) = dCreate d" "dSuspend (deleteStep d) = dSuspend d"
  "dUnsuspend (deleteStep d) = dUnsuspend d" "dRequeueAt (deleteStep d) = dRequeueAt d" "dW (deleteStep d) = dW d"
  by (simp_all add: setIsRunning_def requeueStep_def deleteStep_def split: option.split)

lemma unsuspendStep_fields [simp]:
  "dChosen (unsuspendStep d) = dChosen d" "dCount (unsuspendStep d) = dCount d"
  "dCreate (unsuspendStep d) = dCreate d" "dDelete (unsuspendStep d) = dDelete d"
  "dSuspend (unsuspendStep d) = dSuspend d" "dRequeueAt (unsuspendStep d) = dRequeueAt d" "dW (unsuspendStep d) = dW d"
  by (auto simp: unsuspendStep_def Let_def split: option.split)

lemma running_count_one:
  assumes "running_count jobs = 1" "a < length jobs" "IsJobPotentiallyRunning (jobs ! a)" "b < length jobs" "b \<noteq> a"
  shows "IsJobCompleted (jobs ! b)"
proof -
  let ?r = "filter (\<lambda>a. IsJobPotentiallyRunning (jobs ! a)) [0..<length jobs]"
  have "distinct ?r" "a \<in> set ?r" using assms by auto
  moreover obtain x where "?r = [x]" using assms(1) by (auto simp: running_count_def length_Suc_conv)
  ultimately have "b \<notin> set ?r" using assms(5) by auto
  then show ?thesis using assms(4) by (simp add: IsJobPotentiallyRunning_def)
qed

lemma running_count_zero:
  "running_count jobs = 0 \<Longrightarrow> b < length jobs \<Longrightarrow> IsJobCompleted (jobs ! b)"
  by (auto simp: running_count_def filter_empty_conv IsJobPotentiallyRunning_def)

end
