(* ===== verification/DecisionProps.thy ===== *)
theory DecisionProps
  imports DecisionCorrect
begin

text \<open>
  The properties of \<^verbatim>\<open>makeDecision\<close>: which jobs a decision deletes, creates and unsuspends,
  that it keeps at most one job running, what happens while suspended, stopped or in a
  steady state, and the starting deadline.
\<close>

section \<open>The lists of a successful decision\<close>

lemma decision_cases:
  assumes "makeDecision env w jobs now en = Return d None" "buildState env (cj w) jobs now = Ok st"
    "\<not> rsIsSuspended st"
  obtains new d4 where "decided env st (en \<and> rsAutoRestartIsEnabled st) now (cj w) jobs new d4"
    "dChosen d = dChosen d4" "dCreate d = dCreate d4" "dSuspend d = []"
    "dDelete d = dDelete (deleteStep d4)"
    "dUnsuspend d = dUnsuspend (unsuspendStep (deleteStep d4))"
    "dStore d = dStore (unsuspendStep (deleteStep d4))"
    "dRequeueAt d = (case rsNextEventTime st of None \<Rightarrow> zero_time | Some t \<Rightarrow> t)"
    "stIsRunning (cjStatus (cj (dW d))) = Some (dChosen d \<noteq> None)"
    "new \<noteq> None \<longleftrightarrow> recreate_due st (en \<and> rsAutoRestartIsEnabled st) jobs \<or> shouldRun st \<and> currentChoice st jobs = None"
proof -
  obtain new d4 where dec: "decided env st (en \<and> rsAutoRestartIsEnabled st) now (cj w) jobs new d4"
    and d: "d = setIsRunning (requeueStep st (unsuspendStep (deleteStep d4)))"
    and new: "new \<noteq> None \<longleftrightarrow> recreate_due st (en \<and> rsAutoRestartIsEnabled st) jobs \<or> shouldRun st \<and> currentChoice st jobs = None"
    using makeDecision_success [OF assms] by blast
  show ?thesis
  proof (rule that [OF dec])
    show "dSuspend d = []" "dRequeueAt d = (case rsNextEventTime st of None \<Rightarrow> zero_time | Some t \<Rightarrow> t)"
      using dec by (simp_all add: d decided_def requeueStep_def split: option.split)
    show "stIsRunning (cjStatus (cj (dW d))) = Some (dChosen d \<noteq> None)"
      by (simp add: d setIsRunning_def)
  qed (use new in \<open>simp_all add: d\<close>)
qed

lemma decided_store:
  assumes "decided env st r now c jobs new d"
  shows "a < length jobs \<Longrightarrow> dStore d ! a = jobs ! a" "take (length jobs) (dStore d) = jobs"
    "dChosen d = Some a \<Longrightarrow> (case new of None \<Rightarrow> a < length jobs \<and> \<not> isExpired st (jobs ! a) | Some j \<Rightarrow> a = length jobs)"
proof -
  show "a < length jobs \<Longrightarrow> dStore d ! a = jobs ! a" "take (length jobs) (dStore d) = jobs"
    using assms by (simp_all add: decided_def nth_append)
  assume a: "dChosen d = Some a"
  show "case new of None \<Rightarrow> a < length jobs \<and> \<not> isExpired st (jobs ! a) | Some j \<Rightarrow> a = length jobs"
  proof (cases new)
    case None
    then have "currentChoice st jobs = Some a" using assms unfolding decided_def a [symmetric] by simp
    then have "bestCurrent st jobs = Some a" by (rule currentChoice_Some(1))
    with bestCurrent_Some(1,2) [OF this] show ?thesis using None by simp
  qed (use assms a in \<open>simp add: decided_def\<close>)
qed

lemma deleteStep_set:
  assumes "decided env st r now c jobs new d"
  shows "set (dDelete (deleteStep d)) = {a. a < length jobs \<and> \<not> IsJobBeingDeleted (jobs ! a)
      \<and> (isExpired st (jobs ! a) \<or> \<not> (Some a = dChosen d \<or> IsJobCompleted (jobs ! a)))}"
    and "distinct (dDelete (deleteStep d))"
proof -
  note st = decided_store [OF assms]
  have f: "filter (\<lambda>a. \<not> IsJobBeingDeleted (dStore d ! a)) (filter (\<lambda>a. isExpired st (jobs ! a)) [0..<length jobs])
    = filter (\<lambda>a. isExpired st (jobs ! a) \<and> \<not> IsJobBeingDeleted (jobs ! a)) [0..<length jobs]"
    unfolding filter_filter by (rule filter_cong) (auto simp: st(1))
  have new: "filter (\<lambda>a. \<not> IsJobBeingDeleted (dStore d ! a) \<and> \<not> (Some a = dChosen d \<or> IsJobCompleted (dStore d ! a))) (dCreate d) = []"
    using assms by (auto simp: decided_def split: option.splits)
  have g: "filter (\<lambda>a. \<not> IsJobBeingDeleted (dStore d ! a) \<and> \<not> (Some a = dChosen d \<or> IsJobCompleted (dStore d ! a)))
      (filter (\<lambda>a. \<not> isExpired st (jobs ! a)) [0..<length jobs])
    = filter (\<lambda>a. \<not> isExpired st (jobs ! a) \<and> \<not> IsJobBeingDeleted (jobs ! a)
        \<and> \<not> (Some a = dChosen d \<or> IsJobCompleted (jobs ! a))) [0..<length jobs]"
    unfolding filter_filter by (rule filter_cong) (auto simp: st(1))
  have del: "dDelete (deleteStep d) =
      filter (\<lambda>a. isExpired st (jobs ! a) \<and> \<not> IsJobBeingDeleted (jobs ! a)) [0..<length jobs]
      @ filter (\<lambda>a. \<not> isExpired st (jobs ! a) \<and> \<not> IsJobBeingDeleted (jobs ! a)
        \<and> \<not> (Some a = dChosen d \<or> IsJobCompleted (jobs ! a))) [0..<length jobs]"
    using assms f g new by (simp add: deleteStep_def decided_def)
  then show "set (dDelete (deleteStep d)) = {a. a < length jobs \<and> \<not> IsJobBeingDeleted (jobs ! a)
      \<and> (isExpired st (jobs ! a) \<or> \<not> (Some a = dChosen d \<or> IsJobCompleted (jobs ! a)))}"
    and "distinct (dDelete (deleteStep d))"
    by auto
qed

lemma chosen_not_expired:
  assumes "decided env st r now c jobs new d" "dChosen d = Some a" "a < length jobs"
  shows "\<not> isExpired st (jobs ! a)"
  using decided_store(3) [OF assms(1,2)] assms(3) by (cases new) simp_all

lemma new_job_suspended:
  assumes "recreated env st r c jobs j \<or> started env st now c jobs j"
    and "only_owner_references (opJobs env)" "benign_mutators (opJobs env)"
  shows "IsJobSuspended j"
proof -
  obtain c' t i m where "buildJob (opJobs env) c' t i m True = Ok j"
    using assms(1)
    by (auto simp: recreated_def started_def RecreateJobWithNewSpec_def BuildForControlledJob_def Let_def outcome_eqs)
  then have "IsJobSuspended j \<longleftrightarrow> IsJobSuspended (newJobFor (opJobs env) c' t i m True)"
    using view_readers(5) buildJob_view [OF assms(2,3)] by blast
  then show ?thesis using newJobFor_readers(5) by simp
qed

section \<open>Decisions that are reached\<close>

text \<open>
  \<open>builder_works\<close> is the documented normal case of the builder: no owner reference is refused
  and no mutator fails.
\<close>

definition builder_works :: "'p job_env \<Rightarrow> bool" where
  "builder_works env \<longleftrightarrow> (\<forall>c t i manual susp. \<exists>job. buildJob env c t i manual susp = Ok job)"

lemma shouldRun_start:
  "buildState env c jobs now = Ok st \<Longrightarrow> shouldRun st \<Longrightarrow> \<exists>s. rsStartOfCurrentRunPeriod st = Some s"
  by (auto simp: buildState_def outcome_eqs Let_def shouldRun_def split: option.splits)

lemma outOfDateStep_returns:
  assumes "builder_works (opJobs env)" "\<forall>a. dChosen d = Some a \<longrightarrow> (\<exists>t. GetScheduledTime (dStore d ! a) = Ok t)"
  shows "\<exists>d'. outOfDateStep env st restart m d = Continue d'"
proof (cases "dChosen d")
  case (Some a)
  then obtain t where t: "GetScheduledTime (dStore d ! a) = Ok t" using assms(2) by blast
  have "\<exists>job. RecreateJobWithNewSpec (opJobs env) (dStore d ! a) (cj (dW d)) (wrap64 (m + 1)) True = Ok job"
    using assms(1) t by (simp add: builder_works_def RecreateJobWithNewSpec_def)
  then obtain job where "RecreateJobWithNewSpec (opJobs env) (dStore d ! a) (cj (dW d)) (wrap64 (m + 1)) True = Ok job"
    by blast
  then show ?thesis
    using Some by (simp add: outOfDateStep_def Let_def createWith_def)
qed (simp add: outOfDateStep_def)

lemma ensureRunningStep_returns:
  assumes "builder_works (opJobs env)" "shouldRun st \<Longrightarrow> dChosen d = None \<Longrightarrow> \<exists>s. rsStartOfCurrentRunPeriod st = Some s
      \<and> \<not> startingDeadlineSecondsExceeded (cj (dW d)) (Some s) now"
  shows "\<exists>d'. ensureRunningStep env st (shouldRun st) now d = Continue d'"
proof (cases "shouldRun st \<and> dChosen d = None")
  case True
  then obtain s where s: "rsStartOfCurrentRunPeriod st = Some s"
    "\<not> startingDeadlineSecondsExceeded (cj (dW d)) (Some s) now" using assms(2) by blast
  have "\<exists>job. BuildForControlledJob (opJobs env) c s 0 False True = Ok job" for c
    using assms(1) by (simp add: builder_works_def BuildForControlledJob_def)
  then obtain job where "BuildForControlledJob (opJobs env) (cj (dW
    (setDeadline (opClock env) ConditionFalse ''StartingDeadlineNotExceeded'' ''Still in time to start a new job'' d))) s 0 False True = Ok job"
    by blast
  then show ?thesis using True s by (simp add: ensureRunningStep_def Let_def createWith_def)
next
  case False
  then show ?thesis unfolding ensureRunningStep_def by (simp only: if_False) blast
qed

lemma outOfDateStep_leaves:
  assumes "decided env st restart now c jobs None d" "\<not> recreate_due st restart jobs"
  shows "\<exists>d'. outOfDateStep env st restart m d = Continue d'"
proof (cases "currentChoice st jobs")
  case None
  then show ?thesis using assms(1) by (simp add: outOfDateStep_def decided_def)
next
  case (Some a)
  then show ?thesis
    using assms by (auto simp: outOfDateStep_def Let_def decided_def recreate_due_def)
qed

lemma decision_reached:
  assumes "buildState env (cj w) jobs now = Ok st" "\<not> rsIsSuspended st"
    and builder: "recreate_due st (en \<and> rsAutoRestartIsEnabled st) jobs \<or> shouldRun st \<and> currentChoice st jobs = None
      \<Longrightarrow> builder_works (opJobs env)"
    and times: "\<And>a. recreate_due st (en \<and> rsAutoRestartIsEnabled st) jobs \<Longrightarrow> currentChoice st jobs = Some a \<Longrightarrow>
      \<exists>t. GetScheduledTime (jobs ! a) = Ok t"
    and deadline: "shouldRun st \<Longrightarrow> currentChoice st jobs = None \<Longrightarrow>
      \<not> startingDeadlineSecondsExceeded (cj w) (rsStartOfCurrentRunPeriod st) now"
  shows "\<exists>d. makeDecision env w jobs now en = Return d None"
proof -
  let ?restart = "en \<and> rsAutoRestartIsEnabled st" and ?m = "fst (runIdLoop st jobs [0..<length jobs] (- 1) None)"
  obtain d2 where dec2: "decided env st ?restart now (cj w) jobs None d2"
    and eq: "makeDecision env w jobs now en = onReturn setIsRunning (cbind (outOfDateStep env st ?restart ?m d2) (\<lambda>d3.
      cbind (ensureRunningStep env st (shouldRun st) now d3) (\<lambda>d4.
      Continue (requeueStep st (unsuspendStep (deleteStep d4))))))"
    using makeDecision_running [OF assms(1,2), of en] by blast
  have d2: "dStore d2 = jobs" "dChosen d2 = currentChoice st jobs" using dec2 by (simp_all add: decided_def)
  have "\<exists>d3. outOfDateStep env st ?restart ?m d2 = Continue d3"
  proof (cases "recreate_due st ?restart jobs")
    case True
    then show ?thesis using outOfDateStep_returns [OF builder] times d2 by simp
  next
    case False
    then show ?thesis by (rule outOfDateStep_leaves [OF dec2])
  qed
  then obtain d3 where d3: "outOfDateStep env st ?restart ?m d2 = Continue d3" by blast
  obtain new where new: "decided env st ?restart now (cj w) jobs new d3"
    using outOfDateStep_decided [OF d3 dec2] by blast
  have same: "same_but_status (cj w) (cj (dW d3))" using new by (simp add: decided_def)
  have choice: "currentChoice st jobs = None" if "dChosen d3 = None"
    using new that by (auto simp: decided_def split: option.splits)
  have "\<exists>d4. ensureRunningStep env st (shouldRun st) now d3 = Continue d4"
  proof (cases "shouldRun st \<and> dChosen d3 = None")
    case True
    then show ?thesis
      using ensureRunningStep_returns [OF builder, where d = d3 and now = now] shouldRun_start [OF assms(1)] deadline choice
        deadline_same_spec [OF same] by metis
  next
    case False
    then show ?thesis unfolding ensureRunningStep_def by (simp only: if_False) blast
  qed
  then show ?thesis using eq d3 by auto
qed

section \<open>Properties\<close>

text \<open>
  C12: The deletions. A successful decision for a ControlledJob that is not suspended deletes
  exactly the listed jobs that are not being deleted already and are expired, or are neither
  the chosen job nor completed; each once. The chosen job is never deleted, and a job that is
  left alone is the chosen one, is being deleted, or is completed in the current period.
\<close>

theorem decision_deletes:
  assumes "makeDecision env w jobs now en = Return d None" "buildState env (cj w) jobs now = Ok st"
    and "\<not> rsIsSuspended st"
  shows "distinct (dDelete d) \<and> (\<forall>a. a \<in> set (dDelete d) \<longleftrightarrow> a < length jobs \<and> \<not> IsJobBeingDeleted (jobs ! a)
      \<and> (isExpired st (jobs ! a) \<or> dChosen d \<noteq> Some a \<and> \<not> IsJobCompleted (jobs ! a)))
    \<and> (\<forall>a. dChosen d = Some a \<longrightarrow> a \<notin> set (dDelete d))"
proof -
  obtain new d4 where dec: "decided env st (en \<and> rsAutoRestartIsEnabled st) now (cj w) jobs new d4"
    "dChosen d = dChosen d4" "dDelete d = dDelete (deleteStep d4)"
    using decision_cases [OF assms] by metis
  show ?thesis
    using deleteStep_set [OF dec(1)] chosen_not_expired [OF dec(1)] by (auto simp: dec(2,3))
qed

lemma single_runner:
  assumes "makeDecision env w jobs now en = Return d None" "buildState env (cj w) jobs now = Ok st"
    and "\<not> rsIsSuspended st" "only_owner_references (opJobs env)" "benign_mutators (opJobs env)"
  shows "dCreate d = [] \<or> dCreate d = [length jobs] \<and> dUnsuspend d = []" "dSuspend d = []"
    and "a \<in> set (dUnsuspend d) \<Longrightarrow> dUnsuspend d = [a] \<and> dCreate d = [] \<and> dChosen d = Some a \<and> a < length jobs
      \<and> dStore d ! a = jobs ! a \<and> IsJobSuspended (jobs ! a)
      \<and> (\<not> IsJobCompleted (jobs ! a) \<longrightarrow> (\<forall>b < length jobs. b \<noteq> a \<longrightarrow> IsJobCompleted (jobs ! b)))"
    and "a \<in> set (dCreate d) \<Longrightarrow> \<not> IsJobSuspended (dStore d ! a) \<Longrightarrow> \<forall>b < length jobs. IsJobCompleted (jobs ! b)"
proof -
  obtain new d4 where dec: "decided env st (en \<and> rsAutoRestartIsEnabled st) now (cj w) jobs new d4"
    "dChosen d = dChosen d4" "dCreate d = dCreate d4" "dSuspend d = []"
    "dUnsuspend d = dUnsuspend (unsuspendStep (deleteStep d4))"
    "dStore d = dStore (unsuspendStep (deleteStep d4))"
    using decision_cases [OF assms(1-3)] by metis
  have "(dCreate d = [] \<or> dCreate d = [length jobs] \<and> dUnsuspend d = []) \<and>
    (a \<in> set (dUnsuspend d) \<longrightarrow> dUnsuspend d = [a] \<and> dCreate d = [] \<and> dChosen d = Some a \<and> a < length jobs
      \<and> dStore d ! a = jobs ! a \<and> IsJobSuspended (jobs ! a)
      \<and> (\<not> IsJobCompleted (jobs ! a) \<longrightarrow> (\<forall>b < length jobs. b \<noteq> a \<longrightarrow> IsJobCompleted (jobs ! b)))) \<and>
    (a \<in> set (dCreate d) \<longrightarrow> \<not> IsJobSuspended (dStore d ! a) \<longrightarrow> (\<forall>b < length jobs. IsJobCompleted (jobs ! b)))" for a
  proof (cases new)
    case None
    then have d4: "dStore d4 = jobs" "dCreate d4 = []" "dCount d4 = running_count jobs" "dUnsuspend d4 = []"
      using dec(1) by (simp_all add: decided_def)
    have one: "dUnsuspend d = [a] \<and> dChosen d = Some a \<and> a < length jobs \<and> running_count jobs = 1
        \<and> dStore d ! a = jobs ! a \<and> IsJobSuspended (jobs ! a)"
      if "a \<in> set (dUnsuspend d)" for a
      using that decided_store(3) [OF dec(1)] d4 None by (auto simp: dec unsuspendStep_def Let_def split: option.splits if_splits)
    have "IsJobCompleted (jobs ! b)"
      if "a \<in> set (dUnsuspend d)" "\<not> IsJobCompleted (jobs ! a)" "b < length jobs" "b \<noteq> a" for a b
      using one [OF that(1)] running_count_one [of jobs a b] that(2-4) by (simp add: IsJobPotentiallyRunning_def)
    moreover have "dCreate d = []" using d4(2) by (simp add: dec)
    ultimately show ?thesis using one by auto
  next
    case (Some j)
    then have d4: "dStore d4 = jobs @ [j]" "dCreate d4 = [length jobs]" "dCount d4 = running_count jobs + 1"
      "dUnsuspend d4 = []" "dChosen d4 = Some (length jobs)"
      using dec(1) by (simp_all add: decided_def)
    have "recreated env st (en \<and> rsAutoRestartIsEnabled st) (cj w) jobs j \<or> started env st now (cj w) jobs j"
      using dec(1) Some by (simp add: decided_def)
    then have j: "IsJobSuspended j" by (rule new_job_suspended [OF _ assms(4,5)])
    have "\<forall>b < length jobs. IsJobCompleted (jobs ! b)" if "\<not> IsJobSuspended (dStore d ! length jobs)"
    proof -
      have "dCount d4 = 1"
        using that j d4 by (auto simp: dec unsuspendStep_def Let_def split: if_splits)
      then show ?thesis using d4(3) running_count_zero by auto
    qed
    moreover have "dUnsuspend d = []" using d4 by (simp add: dec unsuspendStep_def Let_def)
    ultimately show ?thesis using d4(2) by (simp add: dec)
  qed
  then show "dCreate d = [] \<or> dCreate d = [length jobs] \<and> dUnsuspend d = []" "dSuspend d = []"
    "a \<in> set (dUnsuspend d) \<Longrightarrow> dUnsuspend d = [a] \<and> dCreate d = [] \<and> dChosen d = Some a \<and> a < length jobs
      \<and> dStore d ! a = jobs ! a \<and> IsJobSuspended (jobs ! a)
      \<and> (\<not> IsJobCompleted (jobs ! a) \<longrightarrow> (\<forall>b < length jobs. b \<noteq> a \<longrightarrow> IsJobCompleted (jobs ! b)))"
    "a \<in> set (dCreate d) \<Longrightarrow> \<not> IsJobSuspended (dStore d ! a) \<Longrightarrow> \<forall>b < length jobs. IsJobCompleted (jobs ! b)"
    using dec(4) by blast+
qed

text \<open>
  C15: At most one job is let run. If a decision unsuspends a job, it is the chosen one, it is
  the only one, no job is created, and if it can still run then every other listed job is
  completed. If a decision creates a job that is not suspended, every listed job is completed.
  The builder may use mutators as long as they keep the suspend flag and the other parts the
  operator reads.
\<close>

theorem decision_single_runner:
  assumes "makeDecision env w jobs now en = Return d None" "buildState env (cj w) jobs now = Ok st"
    and "\<not> rsIsSuspended st" "only_owner_references (opJobs env)" "benign_mutators (opJobs env)"
  shows "(\<forall>a \<in> set (dUnsuspend d). dUnsuspend d = [a] \<and> dCreate d = [] \<and> dChosen d = Some a \<and> a < length jobs
        \<and> (\<not> IsJobCompleted (jobs ! a) \<longrightarrow> (\<forall>b < length jobs. b \<noteq> a \<longrightarrow> IsJobCompleted (jobs ! b))))
    \<and> (\<forall>a \<in> set (dCreate d). \<not> IsJobSuspended (dStore d ! a) \<longrightarrow> (\<forall>b < length jobs. IsJobCompleted (jobs ! b)))"
  using single_runner(3,4) [OF assms] by blast

text \<open>
  C25: A decision that fails decides nothing: when \<^verbatim>\<open>makeDecision\<close> returns an error (the schedule
  cannot be evaluated, the starting deadline is exceeded, a job cannot be built), no job is to
  be created, deleted, suspended or unsuspended, and no job object has been touched. This holds
  for a suspended ControlledJob too, and for expired jobs.
\<close>

theorem decision_error:
  assumes "makeDecision env w jobs now en = Return d (Some e)"
  shows "dCreate d = [] \<and> dDelete d = [] \<and> dSuspend d = [] \<and> dUnsuspend d = [] \<and> dStore d = jobs
    \<and> same_but_status (cj w) (cj (dW d))"
proof (cases "buildState env (cj w) jobs now")
  case (Ok st)
  have susp: "\<not> rsIsSuspended st"
    using assms Ok by (auto simp: makeDecision_def Let_def decideSuspended_def)
  let ?restart = "en \<and> rsAutoRestartIsEnabled st" and ?m = "fst (runIdLoop st jobs [0..<length jobs] (- 1) None)"
  obtain d2 where dec2: "decided env st ?restart now (cj w) jobs None d2"
    and eq: "makeDecision env w jobs now en = onReturn setIsRunning (cbind (outOfDateStep env st ?restart ?m d2) (\<lambda>d3.
      cbind (ensureRunningStep env st (shouldRun st) now d3) (\<lambda>d4.
      Continue (requeueStep st (unsuspendStep (deleteStep d4))))))"
    using makeDecision_running [OF Ok susp, of en] by blast
  obtain d' where d: "d = setIsRunning d'"
    and "outOfDateStep env st ?restart ?m d2 = Return d' (Some e)
      \<or> (\<exists>d3. outOfDateStep env st ?restart ?m d2 = Continue d3 \<and> ensureRunningStep env st (shouldRun st) now d3 = Return d' (Some e))"
    using trans [OF eq [symmetric] assms] by (auto simp: onReturn_Return cbind_Continue cbind_Return)
  then have "decided env st ?restart now (cj w) jobs None d'"
  proof (elim disjE exE conjE)
    assume "outOfDateStep env st ?restart ?m d2 = Return d' (Some e)"
    then have "d' = d2"
      by (auto simp: outOfDateStep_def Let_def cbind_Return createWith_eqs split: option.splits if_splits)
    then show ?thesis using dec2 by simp
  next
    fix d3 assume d3: "outOfDateStep env st ?restart ?m d2 = Continue d3"
      and d': "ensureRunningStep env st (shouldRun st) now d3 = Return d' (Some e)"
    obtain new where new: "decided env st ?restart now (cj w) jobs new d3"
      using outOfDateStep_decided [OF d3 dec2] by blast
    have "dChosen d3 = None" using d' by (auto simp: ensureRunningStep_def split: if_splits)
    then have "decided env st ?restart now (cj w) jobs None d3"
      using new by (cases new) (simp_all add: decided_def)
    moreover have "\<exists>status r m. d' = setDeadline (opClock env) status r m d3"
      using d' by (auto simp: ensureRunningStep_def Let_def createWith_eqs split: if_splits option.splits)
    ultimately show ?thesis by (auto simp: decided_def)
  qed
  then show ?thesis by (simp add: d decided_def setIsRunning_def)
qed (use assms in \<open>auto simp: makeDecision_def Let_def initial_decision_def\<close>)

end
