(* ===== verification/ReconcileCorrect.thy ===== *)
theory ReconcileCorrect
  imports Reconcile DecisionProps
begin

text \<open>
  What \<^verbatim>\<open>Reconcile\<close> does around a decision: the overall conditions, the order of the client calls
  and where they stop, what is written to the status, errors and requeues.
\<close>

section \<open>Overall conditions\<close>

text \<open>The condition that is to be true, of the four, as a table.\<close>

definition overall_types :: "condition_type list" where
  "overall_types = [ConditionTypeRunningExpectedly, ConditionTypeRunningUnexpectedly,
     ConditionTypeNotRunningExpectedly, ConditionTypeNotRunningUnexpectedly]"

definition overall_verdict :: "bool \<Rightarrow> bool \<Rightarrow> condition_type" where
  "overall_verdict running expected =
     (if running then if expected then ConditionTypeRunningExpectedly else ConditionTypeRunningUnexpectedly
      else if expected then ConditionTypeNotRunningUnexpectedly else ConditionTypeNotRunningExpectedly)"

definition verdict :: "'p cjw \<Rightarrow> condition_type" where
  "verdict w = overall_verdict (cond_true w ConditionTypeJobExists \<and> \<not> cond_true w ConditionTypeJobFailed)
     (cond_true w ConditionTypeShouldBeRunning \<or> cond_true w ConditionTypeJobManuallyScheduled)"

lemmas overall_setters = setUnknown_def setBecause_def runningExpectedlyIsUnknown_def
  runningUnexpectedlyIsUnknown_def notRunningExpectedlyIsUnknown_def notRunningUnexpectedlyIsUnknown_def

lemma same_overall [simp]:
  "same_but_status c (cj (calculateOverallConditions clock err w)) \<longleftrightarrow> same_but_status c (cj w)"
  by (simp add: calculateOverallConditions_def setOverallConditions_def setErrorCondition_def Let_def overall_setters
      split: option.split)

lemma setOverallConditions_spec:
  "status_of (setOverallConditions clock w) ty = (if ty = verdict w then Some ConditionTrue
     else if ty \<in> set overall_types then Some ConditionUnknown else status_of w ty)
   \<and> ticks (setOverallConditions clock w) = ticks w + 4"
  by (cases "cond_true w ConditionTypeJobExists"; cases "cond_true w ConditionTypeJobFailed";
      cases "cond_true w ConditionTypeShouldBeRunning"; cases "cond_true w ConditionTypeJobManuallyScheduled")
    (simp_all add: setOverallConditions_def verdict_def overall_verdict_def overall_types_def overall_setters)

lemma verdict_types: "verdict w \<in> set overall_types" "ConditionTypeError \<notin> set overall_types"
  by (auto simp: verdict_def overall_verdict_def overall_types_def)

lemma status_of_Error [simp]:
  "status_of (calculateOverallConditions clock err w) ConditionTypeError
     = Some (if err = None then ConditionFalse else ConditionTrue)"
proof -
  let ?w = "setErrorCondition clock err w"
  have "status_of ?w ConditionTypeError = Some (if err = None then ConditionFalse else ConditionTrue)"
    by (simp add: setErrorCondition_def split: option.split)
  moreover have "ConditionTypeError \<noteq> verdict ?w" using verdict_types(1) [of ?w] verdict_types(2) by metis
  ultimately show ?thesis
    using setOverallConditions_spec [of clock ?w ConditionTypeError] verdict_types(2)
    unfolding calculateOverallConditions_def by presburger
qed

text \<open>
  The comments on the four types define them by \<^verbatim>\<open>JobPotentiallyRunning\<close>, of which there is no such
  condition; the code asks for a job that exists and has not failed. They differ on a job that
  is complete: it cannot be running, yet \<^verbatim>\<open>RunningExpectedly\<close> is the condition that is to be True.
\<close>

lemma completed_job_runs_expectedly:
  assumes "GetJobCondition job JobComplete = Some k" "jcStatus k = ConditionTrue" "GetJobCondition job JobFailed = None"
    and "cond_true w ConditionTypeShouldBeRunning"
  shows "\<not> IsJobPotentiallyRunning job \<and> verdict (setJobConditions clock (Some job) w) = ConditionTypeRunningExpectedly"
proof -
  have "IsJobCompleted job" using assms(1,2) by (simp add: IsJobCompleted_def JobHasCondition_def)
  then show ?thesis
    using assms
    by (simp add: IsJobPotentiallyRunning_def verdict_def overall_verdict_def cond_true_status setJobConditions_def
        Let_def relayCondition_def SetConditionBasedOnFlag_def)
qed

text \<open>
  C20: \<^verbatim>\<open>calculateOverallConditions\<close> implements the table its branches write out: of the four
  conditions exactly the one for ``a job exists and has not failed'' and ``it is expected, by
  schedule or by hand'' is True and the other three are Unknown; Error reports the error; every
  other condition is untouched; and each of these five is set exactly once (five clock readings).
  The comments say otherwise in two places: the one above the helpers promises False, not Unknown,
  for the conditions that do not hold, and those on the types ask for a job that is potentially
  running instead of one that exists and has not failed (\<open>completed_job_runs_expectedly\<close>).
\<close>

theorem calculateOverallConditions_correct:
  "(\<forall>ty \<in> set overall_types. status_of (calculateOverallConditions clock err w) ty
      = Some (if ty = verdict w then ConditionTrue else ConditionUnknown))
   \<and> status_of (calculateOverallConditions clock err w) ConditionTypeError
      = Some (if err = None then ConditionFalse else ConditionTrue)
   \<and> (\<forall>ty. ty \<notin> set overall_types \<longrightarrow> ty \<noteq> ConditionTypeError \<longrightarrow>
        status_of (calculateOverallConditions clock err w) ty = status_of w ty)
   \<and> ticks (calculateOverallConditions clock err w) = ticks w + 5"
proof -
  let ?w = "setErrorCondition clock err w"
  have w: "status_of ?w ty = (if ty = ConditionTypeError then Some (if err = None then ConditionFalse else ConditionTrue)
      else status_of w ty)" "ticks ?w = ticks w + 1" for ty
    by (simp_all add: setErrorCondition_def split: option.split)
  then have "verdict ?w = verdict w" by (simp add: verdict_def cond_true_status)
  moreover note verdict_types(1) [of w] verdict_types(2)
  ultimately show ?thesis
    using setOverallConditions_spec [of clock ?w] w by (auto simp: calculateOverallConditions_def)
qed

section \<open>What a decision leaves of the ControlledJob\<close>

primrec ctl_all :: "('d \<Rightarrow> bool) \<Rightarrow> 'd ctl \<Rightarrow> bool" where
  "ctl_all P (Continue d) = P d"
| "ctl_all P (Return d e) = P d"
| "ctl_all P (Crash d) = P d"
| "ctl_all P Stuck = True"

lemma ctl_all_cbind: "ctl_all P r \<Longrightarrow> (\<And>d. P d \<Longrightarrow> ctl_all P (f d)) \<Longrightarrow> ctl_all P (cbind r f)"
  by (cases r) auto

lemma ctl_all_onReturn: "ctl_all P r \<Longrightarrow> (\<And>d. P d \<Longrightarrow> P (f d)) \<Longrightarrow> ctl_all P (onReturn f r)"
  by (cases r) auto

definition dec_same :: "'p controlled_job \<Rightarrow> 'p decision_state \<Rightarrow> bool" where
  "dec_same c d \<longleftrightarrow> same_but_status c (cj (dW d))"

lemma dec_same_createWith: "dec_same c d \<Longrightarrow> ctl_all (dec_same c) (createWith b d)"
  by (cases b) (simp_all add: createWith_def dec_same_def)

lemma dec_same_setters [simp]:
  "dec_same c (setOutOfDate clock b r m d) = dec_same c d" "dec_same c (setDeadline clock st r m d) = dec_same c d"
  "dec_same c (setIsRunning d) = dec_same c d" "dec_same c (requeueStep rs d) = dec_same c d"
  "dec_same c (unsuspendStep d) = dec_same c d" "dec_same c (deleteStep d) = dec_same c d"
  "dec_same c (stopStep b d) = dec_same c d" "dec_same c (scanJobs env rs d) = dec_same c d"
  "dec_same c (d\<lparr>dW := w\<rparr>) = same_but_status c (cj w)"
  by (simp_all add: dec_same_def setIsRunning_def)

lemma dec_same_outOfDate: "dec_same c d \<Longrightarrow> ctl_all (dec_same c) (outOfDateStep env st restart m d)"
  by (auto simp: outOfDateStep_def Let_def intro!: ctl_all_cbind dec_same_createWith split: option.split)

lemma dec_same_ensureRunning: "dec_same c d \<Longrightarrow> ctl_all (dec_same c) (ensureRunningStep env st b now d)"
  by (auto simp: ensureRunningStep_def Let_def intro!: dec_same_createWith split: option.split)

lemma makeDecision_same: "ctl_all (dec_same (cj w)) (makeDecision env w jobs now en)"
proof (cases "buildState env (cj w) jobs now")
  case (Ok st)
  have "dec_same (cj w) ((initial_decision w jobs)\<lparr>dW := recordScheduleStatus (opClock env) st w\<rparr>)" (is "dec_same _ ?d1")
    by simp
  then have "ctl_all (dec_same (cj w)) (decideRunning env st now en ?d1)"
    by (auto simp: decideRunning_def Let_def split: prod.split
        intro!: ctl_all_onReturn ctl_all_cbind dec_same_outOfDate dec_same_ensureRunning)
  moreover have "ctl_all (dec_same (cj w)) (decideSuspended env st ?d1)"
    by (simp add: decideSuspended_def dec_same_def)
  ultimately show ?thesis using Ok by (simp add: makeDecision_def Let_def)
qed (simp_all add: makeDecision_def Let_def initial_decision_def dec_same_def)

section \<open>The calls of a run\<close>

text \<open>
  \<open>traced\<close> wraps a client so that it also records the calls that change the cluster, in order.
\<close>

datatype 'p client_call =
  CallUpdateStatus "'p controlled_job" | CallCreate "'p job" | CallSuspend "'p job"
  | CallUnsuspend "'p job" | CallDelete "'p job"

definition lift_call :: "('a \<Rightarrow> 's \<Rightarrow> 'r \<times> 's) \<Rightarrow> ('a \<Rightarrow> 't list) \<Rightarrow> 'a \<Rightarrow> 's \<times> 't list \<Rightarrow> 'r \<times> 's \<times> 't list" where
  "lift_call f tag x st = (let (s, tr) = st; (r, s') = f x s in (r, s', tr @ tag x))"

definition traced :: "('p, 's) job_client \<Rightarrow> ('p, 's \<times> 'p client_call list) job_client" where
  "traced client =
     \<lparr>GetControlledJob = lift_call (GetControlledJob client) (\<lambda>_. []),
      UpdateControlledJob = lift_call (UpdateControlledJob client) (\<lambda>_. []),
      UpdateStatus = lift_call (UpdateStatus client) (\<lambda>c. [CallUpdateStatus c]),
      ListJobsForControlledJob = lift_call (ListJobsForControlledJob client) (\<lambda>_. []),
      CreateJob = lift_call (CreateJob client) (\<lambda>j. [CallCreate j]),
      SuspendJob = lift_call (SuspendJob client) (\<lambda>j. [CallSuspend j]),
      UnsuspendJob = lift_call (UnsuspendJob client) (\<lambda>j. [CallUnsuspend j]),
      DeleteJob = (\<lambda>j propagation. lift_call (\<lambda>j. DeleteJob client j propagation) (\<lambda>j. [CallDelete j]) j)\<rparr>"

definition traced_env :: "('p, 's) rec_env \<Rightarrow> ('p, 's \<times> 'p client_call list) rec_env" where
  "traced_env env =
     \<lparr>reOp = reOp env, reClient = traced (reClient env),
      reRecorder = (\<lambda>c ty reason message (s, tr). (reRecorder env c ty reason message s, tr)),
      reEnableAutoRecreate = reEnableAutoRecreate env\<rparr>"

lemma traced_env_fields [simp]:
  "reOp (traced_env env) = reOp env" "reClient (traced_env env) = traced (reClient env)"
  "reEnableAutoRecreate (traced_env env) = reEnableAutoRecreate env"
  by (simp_all add: traced_env_def)

lemma traced_recorder [simp]:
  "reRecorder (traced_env env) c ty reason message (s, tr) = (reRecorder env c ty reason message s, tr)"
  by (simp add: traced_env_def)

section \<open>The status on its way\<close>

text \<open>
  \<open>status_ok\<close> is the invariant of the status; \<open>saves\<close> relates the ControlledJob before and after
  a part of a run: the same object, the invariant kept, and no new failure in the history.
\<close>

definition status_ok :: "controlled_job_status \<Rightarrow> bool" where
  "status_ok s \<longleftrightarrow> unique_conditions s \<and> history_ok s"

definition saves :: "'p controlled_job \<Rightarrow> 'p controlled_job \<Rightarrow> bool" where
  "saves c c' \<longleftrightarrow>
     cjSpec c' = cjSpec c \<and> cjName c' = cjName c \<and> cjNamespace c' = cjNamespace c
     \<and> cjAnnotations c' = cjAnnotations c \<and> cjUID c' = cjUID c \<and> cjGeneration c' = cjGeneration c
     \<and> (status_ok (cjStatus c) \<longrightarrow> status_ok (cjStatus c'))
     \<and> (\<forall>a \<in> set (stActionHistory (cjStatus c')). a \<in> set (stActionHistory (cjStatus c)) \<or> \<not> IsWarningEvent (ahType a))"

lemma saves_refl [simp]: "saves c c"
  by (simp add: saves_def)

lemma saves_trans: "saves a b \<Longrightarrow> saves b c \<Longrightarrow> saves a c"
  by (auto simp: saves_def)

lemma saves_same:
  assumes "same_but_status c c'"
  shows "saves c c'"
proof -
  note f = same_but_status_fields [OF assms]
  have "history_ok (cjStatus c') \<longleftrightarrow> history_ok (cjStatus c)" unfolding history_ok_def f ..
  then show ?thesis by (simp add: saves_def status_ok_def f)
qed

lemma saves_SetCondition: "saves (cj w) (cj (SetCondition clock ty status reason message w))"
  by (rule saves_same) simp

lemma history_record:
  "set (stActionHistory (addActionHistoryEntryIgnoringDuplicates a st)) \<subseteq> insert a (set (stActionHistory st))"
  "unique_conditions (addActionHistoryEntryIgnoringDuplicates a st) \<longleftrightarrow> unique_conditions st"
  by (auto simp: addActionHistoryEntryIgnoringDuplicates_def addActionHistoryEntryImpl_def
      prependAndTruncateIfNeeded_def unique_conditions_def dest: in_set_takeD)

lemma saves_recordNow:
  assumes "recordNow clock recorder action (w, s) = (w', s')" "\<And>t. \<not> IsWarningEvent (ahType (action t))"
  shows "saves (cj w) (cj w')"
proof -
  obtain t where "cj w' = (cj w)\<lparr>cjStatus := addActionHistoryEntryIgnoringDuplicates (action t) (cjStatus (cj w))\<rparr>"
    using assms(1) by (auto simp: recordNow_def RecordEvent_def Let_def)
  then show ?thesis
    using assms(2) [of t] history_record [of "action t" "cjStatus (cj w)"] history_ok_step [of "cjStatus (cj w)" "action t"]
    by (auto simp: saves_def status_ok_def)
qed

text \<open>One call and a loop of calls, on a traced client.\<close>

definition traces :: "('p job \<Rightarrow> 's \<times> 'p client_call list \<Rightarrow> go_error option \<times> 's \<times> 'p client_call list) \<Rightarrow> ('p job \<Rightarrow> 'p client_call) \<Rightarrow> bool" where
  "traces call tag \<longleftrightarrow> (\<forall>job s tr. \<exists>e s'. call job (s, tr) = (e, s', tr @ [tag job]))"

lemma traced_traces:
  "traces (CreateJob (traced client)) CallCreate" "traces (SuspendJob (traced client)) CallSuspend"
  "traces (UnsuspendJob (traced client)) CallUnsuspend" "traces (\<lambda>job. DeleteJob (traced client) job propagation) CallDelete"
  by (auto simp: traces_def traced_def lift_call_def split: prod.split)

lemma actOnJob_traced:
  assumes "traces call tag" "\<And>t n. \<not> IsWarningEvent (ahType (action t n))"
    and "actOnJob (traced_env env) call event verb ty action okS okR okM job (w, s, tr) = (err, w', s', tr')"
  shows "tr' = tr @ [tag job] \<and> saves (cj w) (cj w')"
proof -
  obtain e s1 where call: "call job (s, tr) = (e, s1, tr @ [tag job])"
    using assms(1) unfolding traces_def by blast
  show ?thesis
  proof (cases e)
    case None
    obtain w1 s2 tr2 where rec: "recordNow (opClock (reOp env)) (reRecorder (traced_env env)) (\<lambda>now. action now (jobName job))
        (w, s1, tr @ [tag job]) = (w1, s2, tr2)"
      by (metis prod.collapse)
    then have "tr2 = tr @ [tag job]"
      by (auto simp: recordNow_def RecordEvent_def Let_def recordWarningEvent_def recordNormalEvent_def recordEvent_def
          split: if_splits)
    moreover have "saves (cj w) (cj w1)" using rec assms(2) by (rule saves_recordNow)
    ultimately show ?thesis
      using assms(3) call None rec saves_trans [OF _ saves_SetCondition] by (auto simp: actOnJob_def)
  qed (use assms(3) call saves_SetCondition in \<open>auto simp: actOnJob_def Let_def\<close>)
qed

lemma actOnJobs_traced:
  assumes act: "\<And>job w s tr err w' s' tr'. act job (w, s, tr) = (err, w', s', tr') \<Longrightarrow>
      tr' = tr @ [tag job] \<and> saves (cj w) (cj w')"
    and "actOnJobs act jobs (w, s, tr) = (err, w', s', tr')"
  shows "\<exists>n \<le> length jobs. tr' = tr @ map tag (take n jobs) \<and> (err = None \<longrightarrow> n = length jobs) \<and> saves (cj w) (cj w')"
  using assms(2)
proof (induction jobs arbitrary: w s tr)
  case Nil
  then show ?case by simp
next
  case (Cons job jobs)
  obtain e w1 s1 tr1 where a: "act job (w, s, tr) = (e, w1, s1, tr1)" by (metis prod.collapse)
  note one = act [OF a]
  show ?case
  proof (cases e)
    case None
    then have "actOnJobs act jobs (w1, s1, tr1) = (err, w', s', tr')" using Cons.prems a by simp
    from Cons.IH [OF this] obtain n where n: "n \<le> length jobs" "tr' = tr1 @ map tag (take n jobs)"
      "err = None \<longrightarrow> n = length jobs" "saves (cj w1) (cj w')" by blast
    then show ?thesis using one saves_trans by (intro exI [of _ "Suc n"]) auto
  next
    case (Some x)
    then show ?thesis using Cons.prems a one by (intro exI [of _ 1]) auto
  qed
qed

section \<open>The calls of a decision\<close>

definition planned :: "'p decision_state \<Rightarrow> 'p client_call list" where
  "planned d = map CallDelete (jobs_at d (dDelete d)) @ map CallCreate (jobs_at d (dCreate d))
     @ map CallSuspend (jobs_at d (dSuspend d)) @ map CallUnsuspend (jobs_at d (dUnsuspend d))"

text \<open>
  \<open>follows\<close>: from one state to another a program made a prefix of the planned calls, all of them if
  it returned no error.
\<close>

definition follows ::
  "'p client_call list \<Rightarrow> 'p cjw \<times> 's \<times> 'p client_call list \<Rightarrow> go_error option \<times> 'p cjw \<times> 's \<times> 'p client_call list \<Rightarrow> bool" where
  "follows plan ws r = (case (ws, r) of ((w, s, tr), (err, w', s', tr')) \<Rightarrow>
     \<exists>n \<le> length plan. tr' = tr @ take n plan \<and> (err = None \<longrightarrow> n = length plan) \<and> saves (cj w) (cj w'))"

lemma follows_orElse:
  assumes "follows plan ws r" "\<And>ws'. r = (None, ws') \<Longrightarrow> follows plan' ws' (f ws')"
  shows "follows (plan @ plan') ws (orElse r f)"
proof -
  obtain w s tr where ws: "ws = (w, s, tr)" by (metis prod.collapse)
  obtain err w1 s1 tr1 where r: "r = (err, w1, s1, tr1)" by (metis prod.collapse)
  obtain n where n: "n \<le> length plan" "tr1 = tr @ take n plan" "err = None \<longrightarrow> n = length plan" "saves (cj w) (cj w1)"
    using assms(1) by (auto simp: follows_def ws r)
  show ?thesis
  proof (cases err)
    case None
    obtain err2 w2 s2 tr2 where f: "f (w1, s1, tr1) = (err2, w2, s2, tr2)" by (metis prod.collapse)
    obtain m where m: "m \<le> length plan'" "tr2 = tr1 @ take m plan'" "err2 = None \<longrightarrow> m = length plan'" "saves (cj w1) (cj w2)"
      using assms(2) [of "(w1, s1, tr1)"] by (auto simp: r None follows_def f)
    have "orElse r f = (err2, w2, s2, tr2)" by (simp add: orElse_def r None f)
    then show ?thesis
      using n m None saves_trans [OF n(4) m(4)] by (auto simp: follows_def ws intro!: exI [of _ "n + m"])
  next
    case (Some e)
    then show ?thesis using n by (auto simp: follows_def ws r orElse_def intro!: exI [of _ n])
  qed
qed

lemma follows_actOnJobs:
  assumes "\<And>job w s tr err w' s' tr'. act job (w, s, tr) = (err, w', s', tr') \<Longrightarrow> tr' = tr @ [tag job] \<and> saves (cj w) (cj w')"
  shows "follows (map tag jobs) ws (actOnJobs act jobs ws)"
proof -
  obtain w s tr where ws: "ws = (w, s, tr)" by (metis prod.collapse)
  obtain err w' s' tr' where r: "actOnJobs act jobs ws = (err, w', s', tr')" by (metis prod.collapse)
  from actOnJobs_traced [of act tag, OF assms r [unfolded ws]]
  show ?thesis unfolding follows_def ws r [unfolded ws] by (auto simp: take_map)
qed

lemma actions_normal:
  "\<not> IsWarningEvent (ahType (NewJobStartedAction t n))" "\<not> IsWarningEvent (ahType (NewJobStoppedAction t n))"
  "\<not> IsWarningEvent (ahType (NewJobSuspendedAction t n))" "\<not> IsWarningEvent (ahType (NewJobUnsuspendedAction t n))"
  by (simp_all add: IsWarningEvent_def has_prefix_def NewJobStartedAction_def NewJobStoppedAction_def
      NewJobSuspendedAction_def NewJobUnsuspendedAction_def newActionForJob_def)

lemma follows_loops:
  "follows (map CallDelete jobs) ws (deleteJobs (traced_env env) jobs ws)"
  "follows (map CallCreate jobs) ws (createJobs (traced_env env) jobs ws)"
  "follows (map CallSuspend jobs) ws (suspendJobs (traced_env env) jobs ws)"
  "follows (map CallUnsuspend jobs) ws (unsuspendJobs (traced_env env) jobs ws)"
  unfolding deleteJobs_def createJobs_def suspendJobs_def unsuspendJobs_def traced_env_fields
  by (rule follows_actOnJobs, erule actOnJob_traced [rotated 2]; simp add: traced_traces actions_normal)+

lemma applyDecision_follows: "follows (planned d) (dW d, st) (applyDecision (traced_env env) d st)"
  unfolding planned_def applyDecision_def
  by (intro follows_orElse follows_loops)

lemma writeStatus_saves: "saves (cj w) (cj (fst (writeStatus env err (w, s))))"
  by (rule saves_same) (simp add: writeStatus_def Let_def)

lemma deferredCalls_traced:
  "snd (snd (deferredCalls (traced_env env) err (w, s, tr)))
     = tr @ [CallUpdateStatus (cj (calculateOverallConditions (opClock (reOp env)) err w))]"
proof -
  have "snd (snd (recordNow clock (reRecorder (traced_env env)) action ws)) = snd (snd ws)" for clock action ws
    by (cases ws) (simp add: recordNow_def RecordEvent_def Let_def recordWarningEvent_def recordNormalEvent_def
        recordEvent_def split: prod.split)
  then show ?thesis
    by (simp add: deferredCalls_def recordFailedReconcile_def writeStatus_def Let_def traced_def lift_call_def
        split: option.split prod.split)
qed

text \<open>A run after a successful load, up to the deferred calls.\<close>

lemma decision_saves:
  assumes "makeDecision (reOp env) \<lparr>cj = c, ticks = 0\<rparr> jobs now en = Return d e \<or> makeDecision (reOp env) \<lparr>cj = c, ticks = 0\<rparr> jobs now en = Crash d"
  shows "saves c (cj (dW d))"
  using makeDecision_same [of "\<lparr>cj = c, ticks = 0\<rparr>" "reOp env" jobs now en] assms
  by (auto simp: dec_same_def intro: saves_same)

lemma loadFromCluster_traced:
  "loadFromCluster (traced client) target (s, tr) = (let (r, s') = loadFromCluster client target s in (r, s', tr))"
  by (simp add: loadFromCluster_def traced_def lift_call_def Let_def split: prod.split option.split)

section \<open>Properties of a run\<close>

text \<open>The calls of a run, one after the other.\<close>

lemma reconcile_calls_lemma:
  assumes "loadFromCluster (reClient env) target s = ((Some (c, jobs), None), s1)"
    and "makeDecision (reOp env) \<lparr>cj = c, ticks = 0\<rparr> jobs now (reEnableAutoRecreate env) = Return d None"
  shows "\<exists>r s' n c'. Reconcile (traced_env env) target now (s, []) = Finished r (s', take n (planned d) @ [CallUpdateStatus c'])
    \<and> n \<le> length (planned d) \<and> (rrError r = None \<longrightarrow> n = length (planned d))
    \<and> (\<forall>e b. rrError r = Some (e, b) \<longrightarrow> b)
    \<and> saves c c'"
proof -
  obtain err w1 s2 tr2 where a: "applyDecision (traced_env env) d (s1, []) = (err, w1, s2, tr2)"
    by (metis prod.collapse)
  obtain n where n: "n \<le> length (planned d)" "tr2 = take n (planned d)" "err = None \<longrightarrow> n = length (planned d)"
    "saves (cj (dW d)) (cj w1)"
    using applyDecision_follows [of d "(s1, [])" env] by (auto simp: follows_def a)
  let ?c = "cj (calculateOverallConditions (opClock (reOp env)) err w1)"
  obtain w2 s3 where d: "deferredCalls (traced_env env) err (w1, s2, tr2) = (w2, s3, tr2 @ [CallUpdateStatus ?c])"
    using deferredCalls_traced [of env err w1 s2 tr2] by (metis prod.collapse)
  have "saves (cj w1) ?c" by (rule saves_same) simp
  then have "saves c ?c"
    using decision_saves [of env c jobs now "reEnableAutoRecreate env" d None] assms(2) n(4) saves_trans by blast
  moreover have "Reconcile (traced_env env) target now (s, []) =
    Finished (case err of None \<Rightarrow> \<lparr>rrRequeueAfter = time_sub (dRequeueAt d) now, rrError = None\<rparr> | Some e \<Rightarrow> TransientErrorResult e)
      (s3, tr2 @ [CallUpdateStatus ?c])"
    using assms a d by (cases err) (simp_all add: Reconcile_def loadFromCluster_traced)
  ultimately show ?thesis
    using n by (auto simp: TransientErrorResult_def split: option.splits)
qed

text \<open>
  C13: The calls of a run, for any client. When the decision succeeds, the run calls the client
  for a prefix of the planned calls (deletions, then creations, then the rest), all of them if
  it reports no error; so no job is created unless every deletion of the decision succeeded. It
  ends with one status update, of the same object, whose history has no entry for a failure
  that was not in it before; a history that is bounded and free of repetitions and a condition
  list without duplicates stay so.
\<close>

theorem reconcile_calls:
  assumes "loadFromCluster (reClient env) target s = ((Some (c, jobs), None), s1)"
    and "makeDecision (reOp env) \<lparr>cj = c, ticks = 0\<rparr> jobs now (reEnableAutoRecreate env) = Return d None"
  shows "\<exists>r s' n c'. Reconcile (traced_env env) target now (s, []) = Finished r (s', take n (planned d) @ [CallUpdateStatus c'])
    \<and> n \<le> length (planned d) \<and> (rrError r = None \<longrightarrow> n = length (planned d))
    \<and> (\<forall>e b. rrError r = Some (e, b) \<longrightarrow> b)
    \<and> saves c c'"
  using reconcile_calls_lemma [OF assms] .

text \<open>
  C30: A run whose decision fails makes no call but the status update. The status that is
  written has condition Error set to True, yet the failure is not in the action history that is
  written: \<^verbatim>\<open>recordFailedReconcile\<close> is deferred before the status update, so it runs after it,
  on an object that is then dropped. The reconciler does not ask for a retry.
\<close>

theorem reconcile_failed_decision:
  assumes "loadFromCluster (reClient env) target s = ((Some (c, jobs), None), s1)"
    and "makeDecision (reOp env) \<lparr>cj = c, ticks = 0\<rparr> jobs now (reEnableAutoRecreate env) = Return d (Some e)"
  shows "\<exists>s' c'. reconcilerReconcile (traced_env env) now target (s, [])
      = Some ((\<lparr>crRequeue = False, crRequeueAfter = 0\<rparr>, None), s', [CallUpdateStatus c'])
    \<and> status_of \<lparr>cj = c', ticks = 0\<rparr> ConditionTypeError = Some ConditionTrue
    \<and> stActionHistory (cjStatus c') = stActionHistory (cjStatus c)"
proof -
  let ?w = "calculateOverallConditions (opClock (reOp env)) (Some e) (dW d)"
  obtain w2 s3 where d: "deferredCalls (traced_env env) (Some e) (dW d, s1, []) = (w2, s3, [CallUpdateStatus (cj ?w)])"
    using deferredCalls_traced [of env "Some e" "dW d" s1 "[]"] by (metis append_Nil prod.collapse)
  have "same_but_status c (cj (dW d))"
    using makeDecision_same [of "\<lparr>cj = c, ticks = 0\<rparr>" "reOp env" jobs now "reEnableAutoRecreate env"] assms(2)
    by (simp add: dec_same_def)
  then have "same_but_status c (cj ?w)" by simp
  then have "stActionHistory (cjStatus (cj ?w)) = stActionHistory (cjStatus c)" by (rule same_but_status_fields)
  moreover have "status_of ?w ConditionTypeError = Some ConditionTrue" by simp
  moreover have "status_of ?w = status_of \<lparr>cj = cj ?w, ticks = 0\<rparr>" by (simp add: fun_eq_iff status_of_def cond_of_def)
  ultimately show ?thesis
    using assms d
    by (simp add: reconcilerReconcile_def Reconcile_def loadFromCluster_traced NonRetryableErrorResult_def
        AsControllerResultAndError_def)
qed

lemma sint_time_sub: "sint (time_sub t u) = max (- (2 ^ 63)) (min (2 ^ 63 - 1) (instant t - instant u))"
  by (simp add: time_sub_def sint_sbintrunc' signed_take_bit_int_eq_self)

text \<open>
  C29: Requeueing. A run that succeeds for a ControlledJob that is not suspended asks for the
  next one at the next event of the schedule: after exactly the time until then, if this is
  less than 2^63 nanoseconds (292 years). If there is no next event (or none while suspended)
  the time is the smallest duration, which is negative and asks for nothing.
\<close>

theorem reconcile_requeue:
  assumes "loadFromCluster (reClient env) target s = ((Some (c, jobs), None), s1)"
    and "buildState (reOp env) c jobs now = Ok st" "2 ^ 63 \<le> instant now"
    and "Reconcile env target now s = Finished r s'" "rrError r = None"
  shows "AsControllerResultAndError r = (\<lparr>crRequeue = False, crRequeueAfter = rrRequeueAfter r\<rparr>, None)
    \<and> sint (rrRequeueAfter r) = (case rsNextEventTime st of
          Some t \<Rightarrow> if rsIsSuspended st then - (2 ^ 63) else max (- (2 ^ 63)) (min (2 ^ 63 - 1) (instant t - instant now))
        | None \<Rightarrow> - (2 ^ 63))"
proof -
  let ?w = "\<lparr>cj = c, ticks = 0\<rparr>"
  obtain d where d: "makeDecision (reOp env) ?w jobs now (reEnableAutoRecreate env) = Return d None"
    and r: "rrRequeueAfter r = time_sub (dRequeueAt d) now"
    using assms(1,4,5)
    by (auto simp: Reconcile_def NonRetryableErrorResult_def TransientErrorResult_def
        split: ctl.splits option.splits prod.splits)
  have zero: "instant zero_time = 0" by (simp add: zero_time_def)
  have req: "dRequeueAt d = (case rsNextEventTime st of None \<Rightarrow> zero_time
      | Some t \<Rightarrow> if rsIsSuspended st then zero_time else t)"
  proof (cases "rsIsSuspended st")
    case True
    then show ?thesis
      using d assms(2) by (auto simp: makeDecision_def Let_def decideSuspended_def initial_decision_def split: option.split)
  next
    case False
    have "buildState (reOp env) (cj ?w) jobs now = Ok st" using assms(2) by simp
    then have "dRequeueAt d = (case rsNextEventTime st of None \<Rightarrow> zero_time | Some t \<Rightarrow> t)"
      by (rule decision_cases [OF d _ False])
    then show ?thesis using False by (simp split: option.split)
  qed
  have none: "max (- (2 ^ 63)) (min (2 ^ 63 - 1) (0 - instant now)) = - (2 ^ 63)"
    using assms(3) by (intro max_absorb1) (simp add: min_le_iff_disj)
  have "sint (rrRequeueAfter r) = (case rsNextEventTime st of
          Some t \<Rightarrow> if rsIsSuspended st then - (2 ^ 63) else max (- (2 ^ 63)) (min (2 ^ 63 - 1) (instant t - instant now))
        | None \<Rightarrow> - (2 ^ 63))"
  proof (cases "rsNextEventTime st")
    case None
    then show ?thesis unfolding r sint_time_sub req by (simp only: option.case zero none)
  next
    case (Some t)
    then show ?thesis unfolding r sint_time_sub req by (simp only: option.case zero none if_True if_False split: if_split) simp
  qed
  then show ?thesis using assms(5) by (simp add: AsControllerResultAndError_def)
qed

lemma actOnJobs_success:
  assumes "\<And>job ws ws'. act job ws = (None, ws') \<Longrightarrow> P (fst ws')"
    and "actOnJobs act jobs ws = (None, ws')" "jobs \<noteq> []"
  shows "P (fst ws')"
  using assms(2,3)
proof (induction jobs arbitrary: ws)
  case (Cons job jobs)
  obtain e ws1 where a: "act job ws = (e, ws1)" by (metis prod.collapse)
  then have e: "e = None" using Cons.prems(1) by (cases e) auto
  then have rest: "actOnJobs act jobs ws1 = (None, ws')" using Cons.prems(1) a by simp
  show ?case
  proof (cases "jobs = []")
    case True
    then show ?thesis using rest assms(1) [OF a [unfolded e]] by simp
  next
    case False
    then show ?thesis by (rule Cons.IH [OF rest])
  qed
qed simp

lemma actOnJob_success:
  assumes "actOnJob env call event verb ty action okS okR okM job ws = (None, ws')"
  shows "status_of (fst ws') ty = Some okS"
  using assms by (auto simp: actOnJob_def Let_def split: prod.splits option.splits)

text \<open>
  C38: What a loop over jobs reports when every call succeeds: the failure condition of deletions
  and creations is False afterwards, but for suspending and unsuspending it is True, with a
  reason and a message that speak of success.
\<close>

theorem action_conditions:
  assumes "jobs \<noteq> []"
  shows "(deleteJobs env jobs ws = (None, ws') \<longrightarrow> status_of (fst ws') ConditionTypeFailedToDeleteJob = Some ConditionFalse)
    \<and> (createJobs env jobs ws = (None, ws') \<longrightarrow> status_of (fst ws') ConditionTypeFailedToCreateJob = Some ConditionFalse)
    \<and> (suspendJobs env jobs ws = (None, ws') \<longrightarrow> status_of (fst ws') ConditionTypeFailedToSuspendJob = Some ConditionTrue)
    \<and> (unsuspendJobs env jobs ws = (None, ws') \<longrightarrow> status_of (fst ws') ConditionTypeFailedToUnsuspendJob = Some ConditionTrue)"
  unfolding deleteJobs_def createJobs_def suspendJobs_def unsuspendJobs_def
  by (intro conjI impI; rule actOnJobs_success [OF _ _ assms]; (erule actOnJob_success | assumption))

text \<open>
  C37: When the schedule makes the decision panic, the deferred calls still write the status,
  and with no error at hand they write condition Error as False before the process dies.
\<close>

theorem reconcile_panic:
  assumes "loadFromCluster (reClient env) target s = ((Some (c, jobs), None), s1)"
    and "buildState (reOp env) c jobs now = Panic"
  shows "\<exists>s' c'. Reconcile (traced_env env) target now (s, []) = Panicked (s', [CallUpdateStatus c'])
    \<and> status_of \<lparr>cj = c', ticks = 0\<rparr> ConditionTypeError = Some ConditionFalse"
proof -
  let ?d = "initial_decision \<lparr>cj = c, ticks = 0\<rparr> jobs"
  let ?w = "calculateOverallConditions (opClock (reOp env)) None (dW ?d)"
  have "makeDecision (reOp env) \<lparr>cj = c, ticks = 0\<rparr> jobs now (reEnableAutoRecreate env) = Crash ?d"
    using assms(2) by (simp add: makeDecision_def)
  moreover obtain w2 s3 where "deferredCalls (traced_env env) None (dW ?d, s1, []) = (w2, s3, [CallUpdateStatus (cj ?w)])"
    using deferredCalls_traced [of env None "dW ?d" s1 "[]"] by (metis append_Nil prod.collapse)
  moreover have "status_of \<lparr>cj = cj ?w, ticks = 0\<rparr> = status_of ?w" by (simp add: fun_eq_iff status_of_def cond_of_def)
  ultimately show ?thesis
    using assms(1) by (simp add: Reconcile_def loadFromCluster_traced)
qed

end
