(* ===== verification/ClientAdapter.thy ===== *)
theory ClientAdapter
  imports Reconcile
begin

text \<open>
  \<^verbatim>\<open>pkg/clientadapter/controller_client_adapter.go\<close>: the \<^verbatim>\<open>ControlledJobClient\<close> on top of
  controller-runtime's client, which is a parameter, as is the test for a not-found error.
  \<^verbatim>\<open>Get\<close> and \<^verbatim>\<open>List\<close> fill in the object they are given and return an error or nil.
\<close>

record ('p, 's) api_client =
  apiGet :: "namespaced_name \<Rightarrow> 's \<Rightarrow> ('p controlled_job \<times> go_error option) \<times> 's"
  apiUpdateObject :: "'p controlled_job \<Rightarrow> 's \<Rightarrow> go_error option \<times> 's"
  apiUpdateStatus :: "'p controlled_job \<Rightarrow> 's \<Rightarrow> go_error option \<times> 's"
  apiListByOwner :: "string \<times> string \<Rightarrow> 's \<Rightarrow> ('p job list \<times> go_error option) \<times> 's"
  apiCreate :: "'p job \<Rightarrow> 's \<Rightarrow> go_error option \<times> 's"
  apiUpdateJob :: "'p job \<Rightarrow> 's \<Rightarrow> go_error option \<times> 's"
  apiDelete :: "'p job \<Rightarrow> string \<Rightarrow> 's \<Rightarrow> go_error option \<times> 's"
  apiIsNotFound :: "go_error \<Rightarrow> bool"

text \<open>controller-runtime's \<^verbatim>\<open>IgnoreNotFound\<close>.\<close>

definition IgnoreNotFound :: "('p, 's) api_client \<Rightarrow> go_error option \<Rightarrow> go_error option" where
  "IgnoreNotFound api err =
     (case err of None \<Rightarrow> None | Some e \<Rightarrow> if apiIsNotFound api e then None else Some e)"

definition adapterGetControlledJob ::
  "('p, 's) api_client \<Rightarrow> namespaced_name \<Rightarrow> 's \<Rightarrow> ('p controlled_job option \<times> bool \<times> go_error option) \<times> 's" where
  "adapterGetControlledJob api target s =
     (let ((controlledJob, err), s1) = apiGet api target s; ok = (err = None)
      in ((Some controlledJob, ok, IgnoreNotFound api err), s1))"

definition adapterUpdateControlledJob :: "('p, 's) api_client \<Rightarrow> 'p controlled_job \<Rightarrow> 's \<Rightarrow> go_error option \<times> 's" where
  "adapterUpdateControlledJob api c = apiUpdateObject api c"

definition adapterUpdateStatus :: "('p, 's) api_client \<Rightarrow> 'p controlled_job \<Rightarrow> 's \<Rightarrow> go_error option \<times> 's" where
  "adapterUpdateStatus api c = apiUpdateStatus api c"

text \<open>Jobs are listed in the namespace by the owner index of the reconciler.\<close>

definition adapterListJobs :: "('p, 's) api_client \<Rightarrow> namespaced_name \<Rightarrow> 's \<Rightarrow> ('p job list \<times> go_error option) \<times> 's" where
  "adapterListJobs api target s = apiListByOwner api (fst target, snd target) s"

definition adapterCreateJob :: "('p, 's) api_client \<Rightarrow> 'p job \<Rightarrow> 's \<Rightarrow> go_error option \<times> 's" where
  "adapterCreateJob api job = apiCreate api job"

definition set_suspend :: "bool \<Rightarrow> 'p job \<Rightarrow> 'p job" where
  "set_suspend b job = job\<lparr>jobSpec := (jobSpec job)\<lparr>jsSuspend := Some b\<rparr>\<rparr>"

definition adapterSuspendJob :: "('p, 's) api_client \<Rightarrow> 'p job \<Rightarrow> 's \<Rightarrow> go_error option \<times> 's" where
  "adapterSuspendJob api job = apiUpdateJob api (set_suspend True job)"

definition adapterUnsuspendJob :: "('p, 's) api_client \<Rightarrow> 'p job \<Rightarrow> 's \<Rightarrow> go_error option \<times> 's" where
  "adapterUnsuspendJob api job = apiUpdateJob api (set_suspend False job)"

definition adapterDeleteJob :: "('p, 's) api_client \<Rightarrow> 'p job \<Rightarrow> string \<Rightarrow> 's \<Rightarrow> go_error option \<times> 's" where
  "adapterDeleteJob api job propagation s = (let (err, s1) = apiDelete api job propagation s in (IgnoreNotFound api err, s1))"

definition NewFromClient :: "('p, 's) api_client \<Rightarrow> ('p, 's) job_client" where
  "NewFromClient api =
     \<lparr>GetControlledJob = adapterGetControlledJob api, UpdateControlledJob = adapterUpdateControlledJob api,
      UpdateStatus = adapterUpdateStatus api,
      ListJobsForControlledJob = adapterListJobs api, CreateJob = adapterCreateJob api,
      SuspendJob = adapterSuspendJob api, UnsuspendJob = adapterUnsuspendJob api,
      DeleteJob = adapterDeleteJob api\<rparr>"

section \<open>Properties\<close>

text \<open>
  A ControlledJob that cannot be read, over this adapter. If it does not exist, the run does
  nothing, returns no error and asks for no requeue. Any other error is returned for a retry,
  wrapped with the name and namespace, and again nothing is written. The object returned next
  to the error is never used.
\<close>

theorem reconcile_missing:
  assumes "apiGet api target s = ((c, Some e), s1)" "reClient env = NewFromClient api"
  shows "reconcilerReconcile env now target s = Some ((\<lparr>crRequeue = False, crRequeueAfter = 0\<rparr>,
      if apiIsNotFound api e then None
      else Some (WrapErr e (''failed to find target ControlledJob '' @ snd target @ '' in namespace '' @ fst target))), s1)"
  using assms
  by (simp add: reconcilerReconcile_def Reconcile_def loadFromCluster_def NewFromClient_def adapterGetControlledJob_def
      IgnoreNotFound_def AsControllerResultAndError_def TransientErrorResult_def)

end
