(* ===== verification/Cluster.thy ===== *)
theory Cluster
  imports ReconcileCorrect ClientAdapter
begin

text \<open>
  The operator and the API server together: a state is the list of jobs of one ControlledJob in
  the cluster and the calls the current run has still to make. What a call does to the jobs is
  a parameter, constrained by what the API documents; the outside world may change the jobs in
  any way that does not let another job run. The relation allows more than the program does, since
  its purpose is safety: an outside change may come between any two calls. What one run of
  \<^verbatim>\<open>Reconcile\<close> does to the jobs is stated without such steps (\<open>reconcile_refines\<close>). A run decides on a
  list of jobs from a cache, which may lag behind: jobs that have completed, changed or gone may still be listed as
  they were, but as many jobs may run by the list as may run in the cluster. There is one run at
  a time (the work queue of controller-runtime sees to that).
\<close>

section \<open>Jobs that may run\<close>

definition may_run :: "'p job \<Rightarrow> bool" where
  "may_run job \<longleftrightarrow> \<not> IsJobCompleted job \<and> \<not> IsJobSuspended job"

definition runners :: "'p job list \<Rightarrow> nat" where
  "runners jobs = length (filter may_run jobs)"

text \<open>Calls that can let a job run.\<close>

primrec risky :: "'p client_call \<Rightarrow> bool" where
  "risky (CallUpdateStatus c) = False"
| "risky (CallCreate job) = (\<not> IsJobSuspended job)"
| "risky (CallSuspend job) = False"
| "risky (CallUnsuspend job) = (\<not> IsJobCompleted job)"
| "risky (CallDelete job) = False"

section \<open>What the API documents\<close>

text \<open>
  Every call may fail and change nothing. A created job is stored with the suspend flag it was
  sent with. A deleted job is removed, or marked while its finalizers run. An update of a job
  takes effect only on the version that was read, which differs from what is sent in the
  specification only. A status update of the ControlledJob leaves the jobs alone.
\<close>

primrec documented_change :: "'p client_call \<Rightarrow> 'p job list \<Rightarrow> 'p job list \<Rightarrow> bool" where
  "documented_change (CallUpdateStatus c) jobs jobs' = False"
| "documented_change (CallCreate job) jobs jobs' =
     (\<exists>job'. jobs' = jobs @ [job'] \<and> jsSuspend (jobSpec job') = jsSuspend (jobSpec job))"
| "documented_change (CallSuspend job) jobs jobs' =
     (\<exists>a < length jobs. (jobs ! a)\<lparr>jobSpec := jobSpec job\<rparr> = job \<and> jobs' = jobs[a := set_suspend True job])"
| "documented_change (CallUnsuspend job) jobs jobs' =
     (\<exists>a < length jobs. (jobs ! a)\<lparr>jobSpec := jobSpec job\<rparr> = job \<and> jobs' = jobs[a := set_suspend False job])"
| "documented_change (CallDelete job) jobs jobs' =
     ((\<exists>keep. jobs' = filter keep jobs)
      \<or> (\<exists>a < length jobs. \<exists>t. jobs' = jobs[a := (jobs ! a)\<lparr>jobDeletionTimestamp := Some t\<rparr>]))"

definition api_documented :: "('p client_call \<Rightarrow> 'p job list \<Rightarrow> 'p job list \<Rightarrow> bool) \<Rightarrow> bool" where
  "api_documented effect \<longleftrightarrow> (\<forall>call jobs jobs'. effect call jobs jobs' \<longrightarrow> jobs' = jobs \<or> documented_change call jobs jobs')"

lemma runners_append [simp]: "runners (xs @ ys) = runners xs + runners ys"
  by (simp add: runners_def)

lemma runners_single [simp]: "runners [job] = (if may_run job then 1 else 0)"
  by (simp add: runners_def)

lemma runners_filter: "runners (filter keep jobs) \<le> runners jobs"
proof -
  have "filter may_run (filter keep jobs) = filter keep (filter may_run jobs)" by (simp add: conj_commute)
  then show ?thesis by (metis length_filter_le runners_def)
qed

lemma runners_update:
  assumes "a < length jobs"
  shows "runners (jobs[a := job]) + (if may_run (jobs ! a) then 1 else 0) = runners jobs + (if may_run job then 1 else 0)"
proof -
  have "runners jobs = runners (take a jobs @ [jobs ! a] @ drop (Suc a) jobs)"
    by (rule arg_cong [where f = runners]) (simp add: id_take_nth_drop [OF assms, symmetric])
  then have "runners jobs = runners (take a jobs) + (if may_run (jobs ! a) then 1 else 0) + runners (drop (Suc a) jobs)"
    by (simp only: runners_append runners_single add.assoc)
  moreover have "jobs[a := job] = take a jobs @ [job] @ drop (Suc a) jobs"
    using assms by (simp add: upd_conv_take_nth_drop)
  then have "runners (jobs[a := job]) = runners (take a jobs) + (if may_run job then 1 else 0) + runners (drop (Suc a) jobs)"
    by (simp only: runners_append runners_single add.assoc)
  ultimately show ?thesis by simp
qed

lemma may_run_frames [simp]:
  "may_run (job\<lparr>jobDeletionTimestamp := t\<rparr>) = may_run job" "\<not> may_run (set_suspend True job)"
  "may_run (set_suspend False job) = (\<not> IsJobCompleted job)"
  by (simp_all add: may_run_def IsJobCompleted_def JobHasCondition_def GetJobCondition_def IsJobSuspended_def set_suspend_def)

lemma effect_runners:
  assumes "api_documented effect" "effect call jobs jobs'"
  shows "runners jobs' \<le> runners jobs + (if risky call then 1 else 0)"
proof (cases "jobs' = jobs")
  case False
  have doc: "documented_change call jobs jobs'"
    using assms False unfolding api_documented_def by blast
  have update: "runners (jobs[a := job]) \<le> runners jobs + k"
    if "a < length jobs" "may_run job \<Longrightarrow> may_run (jobs ! a) \<or> 1 \<le> k" for a job k
    using runners_update [OF that(1), of job] that(2) by (auto split: if_splits)
  show ?thesis
  proof (cases call)
    case (CallCreate job)
    then show ?thesis using doc by (auto simp: may_run_def IsJobSuspended_def)
  next
    case (CallSuspend job)
    then obtain a where "a < length jobs" "jobs' = jobs[a := set_suspend True job]" using doc by auto
    then show ?thesis using CallSuspend update [of a "set_suspend True job" 0] by simp
  next
    case (CallUnsuspend job)
    then obtain a where "a < length jobs" "jobs' = jobs[a := set_suspend False job]" using doc by auto
    then show ?thesis using CallUnsuspend update [of a "set_suspend False job" "if risky call then 1 else 0"] by simp
  next
    case (CallDelete job)
    then consider keep where "jobs' = filter keep jobs"
      | a t where "a < length jobs" "jobs' = jobs[a := (jobs ! a)\<lparr>jobDeletionTimestamp := Some t\<rparr>]"
      using doc by auto
    then show ?thesis
    proof cases
      case 1
      then show ?thesis using runners_filter [of keep jobs] by simp
    next
      case 2
      then show ?thesis using update [of a "(jobs ! a)\<lparr>jobDeletionTimestamp := Some t\<rparr>" 0] by simp
    qed
  qed (use doc in simp)
qed simp

section \<open>Steps\<close>

inductive cluster_step ::
  "'p op_env \<Rightarrow> ('p client_call \<Rightarrow> 'p job list \<Rightarrow> 'p job list \<Rightarrow> bool)
   \<Rightarrow> 'p job list \<times> 'p client_call list \<Rightarrow> 'p job list \<times> 'p client_call list \<Rightarrow> bool"
  for env effect where
  decide: "makeDecision env w listed now en = Return d None \<Longrightarrow> runners jobs \<le> runners listed \<Longrightarrow> cluster_step env effect (jobs, []) (jobs, planned d)"
| call: "effect c jobs jobs' \<Longrightarrow> cluster_step env effect (jobs, c # calls) (jobs', calls)"
| stop: "cluster_step env effect (jobs, calls) (jobs, [])"
| outside: "runners jobs' \<le> runners jobs \<Longrightarrow> cluster_step env effect (jobs, calls) (jobs', calls)"

inductive_cases cluster_stepE: "cluster_step env effect s s'"

inductive reachable ::
  "'p op_env \<Rightarrow> ('p client_call \<Rightarrow> 'p job list \<Rightarrow> 'p job list \<Rightarrow> bool)
   \<Rightarrow> 'p job list \<times> 'p client_call list \<Rightarrow> 'p job list \<times> 'p client_call list \<Rightarrow> bool"
  for env effect s0 where
  start: "reachable env effect s0 s0"
| step: "reachable env effect s0 s \<Longrightarrow> cluster_step env effect s s' \<Longrightarrow> reachable env effect s0 s'"

section \<open>The invariant\<close>

text \<open>
  At most one job may run; at most one pending call can let a job run, and while one is pending
  no job may run.
\<close>

definition exclusive :: "'p job list \<times> 'p client_call list \<Rightarrow> bool" where
  "exclusive s \<longleftrightarrow> runners (fst s) \<le> 1 \<and> length (filter risky (snd s)) \<le> 1
     \<and> (filter risky (snd s) \<noteq> [] \<longrightarrow> runners (fst s) = 0)"

lemma all_completed_no_runner: "\<forall>b < length jobs. b \<noteq> a \<longrightarrow> IsJobCompleted (jobs ! b) \<Longrightarrow>
    a < length jobs \<longrightarrow> IsJobSuspended (jobs ! a) \<Longrightarrow> runners jobs = 0"
proof -
  assume c: "\<forall>b < length jobs. b \<noteq> a \<longrightarrow> IsJobCompleted (jobs ! b)"
    and s: "a < length jobs \<longrightarrow> IsJobSuspended (jobs ! a)"
  have "\<not> may_run (jobs ! b)" if "b < length jobs" for b
    using c s that by (cases "b = a") (simp_all add: may_run_def)
  then have "\<forall>j \<in> set jobs. \<not> may_run j" by (auto simp: in_set_conv_nth)
  then show "runners jobs = 0" by (simp add: runners_def filter_empty_conv)
qed

lemma planned_risky:
  assumes "makeDecision env w jobs now en = Return d None"
    and "only_owner_references (opJobs env)" "benign_mutators (opJobs env)"
  shows "length (filter risky (planned d)) \<le> 1" "filter risky (planned d) \<noteq> [] \<Longrightarrow> runners jobs = 0"
proof -
  obtain st where st: "buildState env (cj w) jobs now = Ok st"
    using assms(1) by (cases "buildState env (cj w) jobs now") (simp_all add: makeDecision_def Let_def)
  have risky: "filter risky (planned d) = map CallCreate (filter (\<lambda>j. \<not> IsJobSuspended j) (jobs_at d (dCreate d)))
      @ map CallUnsuspend (filter (\<lambda>j. \<not> IsJobCompleted j) (jobs_at d (dUnsuspend d)))"
    by (simp add: planned_def filter_map comp_def)
  have "length (filter risky (planned d)) \<le> 1 \<and> (filter risky (planned d) \<noteq> [] \<longrightarrow> runners jobs = 0)"
  proof (cases "rsIsSuspended st")
    case True
    then have "dCreate d = []" "dUnsuspend d = []"
      using assms(1) st by (auto simp: makeDecision_def Let_def decideSuspended_def initial_decision_def)
    then show ?thesis by (simp add: risky jobs_at_def)
  next
    case False
    note one = single_runner [OF assms(1) st False assms(2,3)]
    show ?thesis
    proof (cases "dUnsuspend d")
      case Nil
      have "runners jobs = 0" if "dCreate d = [length jobs]" "\<not> IsJobSuspended (dStore d ! length jobs)"
        using one(4) [of "length jobs"] that all_completed_no_runner [of jobs "length jobs"] by auto
      then show ?thesis using one(1) Nil by (auto simp: risky jobs_at_def split: if_splits)
    next
      case (Cons a as)
      then have a: "dUnsuspend d = [a]" "dCreate d = []" "dStore d ! a = jobs ! a" "IsJobSuspended (jobs ! a)"
        "\<not> IsJobCompleted (jobs ! a) \<longrightarrow> (\<forall>b < length jobs. b \<noteq> a \<longrightarrow> IsJobCompleted (jobs ! b))"
        using one(3) [of a] by auto
      then show ?thesis
        using all_completed_no_runner [of jobs a] by (auto simp: risky jobs_at_def)
    qed
  qed
  then show "length (filter risky (planned d)) \<le> 1" "filter risky (planned d) \<noteq> [] \<Longrightarrow> runners jobs = 0" by blast+
qed

lemma exclusive_step:
  assumes "cluster_step env effect s s'" "exclusive s"
    and "api_documented effect" "only_owner_references (opJobs env)" "benign_mutators (opJobs env)"
  shows "exclusive s'"
  using assms(1)
proof cases
  case (decide w listed now en d jobs)
  then show ?thesis
    using planned_risky [OF decide(3) assms(4,5)] assms(2) by (auto simp: exclusive_def)
next
  case (call c jobs jobs' calls)
  then show ?thesis
    using effect_runners [OF assms(3) call(3)] assms(2) by (auto simp: exclusive_def split: if_splits)
qed (use assms(2) in \<open>auto simp: exclusive_def\<close>)

lemma reachable_exclusive:
  assumes "reachable env effect s0 s" "exclusive s0"
    and "api_documented effect" "only_owner_references (opJobs env)" "benign_mutators (opJobs env)"
  shows "exclusive s"
  using assms(1)
proof induction
  case start
  then show ?case by (rule assms(2))
next
  case (step s s')
  then show ?case using exclusive_step assms(3-5) by blast
qed

lemma filter_singleton_index:
  assumes "length (filter P xs) \<le> 1" "a < length xs" "b < length xs" "P (xs ! a)" "P (xs ! b)"
  shows "a = b"
proof (rule ccontr)
  assume "a \<noteq> b"
  have "card {i. i < length xs \<and> P (xs ! i)} \<le> 1" using assms(1) by (simp add: length_filter_conv_card)
  moreover have "card {a, b} \<le> card {i. i < length xs \<and> P (xs ! i)}" using assms(2-5) by (intro card_mono) auto
  ultimately show False using \<open>a \<noteq> b\<close> by simp
qed

section \<open>Properties\<close>

text \<open>
  C1: At most one job of a ControlledJob may run. From a cluster in which at most one of its jobs
  is neither completed nor suspended and no run is under way, whatever sequence of decisions,
  API calls (which may fail), aborted runs and outside changes follows, in every state reached
  at most one job may run. The ControlledJob, the time and the option to recreate are
  arbitrary in every decision, and so is the list of jobs it is made on, as long as no more
  jobs may run than may run by the list; mutators keep the suspend flag, and nobody else
  unsuspends jobs or creates jobs that run.
\<close>

theorem at_most_one_runs:
  assumes "reachable env effect (jobs0, []) (jobs, calls)" "runners jobs0 \<le> 1"
    and "api_documented effect" "only_owner_references (opJobs env)" "benign_mutators (opJobs env)"
  shows "runners jobs \<le> 1 \<and> (\<forall>a < length jobs. \<forall>b < length jobs. may_run (jobs ! a) \<longrightarrow> may_run (jobs ! b) \<longrightarrow> a = b)"
proof -
  have one: "runners jobs \<le> 1"
    using reachable_exclusive [OF assms(1) _ assms(3-5)] assms(2) by (simp add: exclusive_def)
  moreover have "a = b" if "a < length jobs" "b < length jobs" "may_run (jobs ! a)" "may_run (jobs ! b)" for a b
    using filter_singleton_index [OF one [unfolded runners_def]] that by blast
  ultimately show ?thesis by blast
qed

end
