(* ===== verification/RunRefinement.thy ===== *)
theory RunRefinement
  imports Cluster
begin

text \<open>
  \<^verbatim>\<open>Reconcile\<close> carries out its decision: over any client whose reads, status updates and events
  change nothing (\<open>store_client\<close>) a run makes planned calls of one decision, in their order, up to
  the first that fails, and changes nothing else. So over one whose writes do what the API
  documents (\<open>cluster_client\<close>) it is a sequence of steps of \<open>Cluster\<close>. \<open>api_store\<close> states the laws of
  the Kubernetes API that give those of the client adapter.
\<close>

section \<open>Carrying out calls\<close>

primrec perform :: "('p, 's) job_client \<Rightarrow> 'p client_call \<Rightarrow> 's \<Rightarrow> go_error option \<times> 's" where
  "perform client (CallUpdateStatus c) = UpdateStatus client c"
| "perform client (CallCreate job) = CreateJob client job"
| "perform client (CallSuspend job) = SuspendJob client job"
| "perform client (CallUnsuspend job) = UnsuspendJob client job"
| "perform client (CallDelete job) = DeleteJob client job DeletePropagationForeground"

text \<open>
  \<open>carries_out client view v calls ok v'\<close>: making the calls in this order, each after the ones
  before it have succeeded, takes what is seen of the state from \<open>v\<close> to \<open>v'\<close>; \<open>ok\<close> tells whether the
  last one succeeded too. What happens between two calls does not change what is seen.
\<close>

inductive carries_out ::
  "('p, 's) job_client \<Rightarrow> ('s \<Rightarrow> 'v) \<Rightarrow> 'v \<Rightarrow> 'p client_call list \<Rightarrow> bool \<Rightarrow> 'v \<Rightarrow> bool"
  for client view where
  nothing: "carries_out client view v [] True v"
| fails: "perform client c s = (Some e, s') \<Longrightarrow> carries_out client view (view s) [c] False (view s')"
| succeeds: "perform client c s = (None, s') \<Longrightarrow> carries_out client view (view s') calls ok v \<Longrightarrow>
    carries_out client view (view s) (c # calls) ok v"

lemma carries_out_append:
  assumes "carries_out client view a xs True b" "carries_out client view b ys ok c"
  shows "carries_out client view a (xs @ ys) ok c"
  using assms by (induction a xs True b) (auto intro: carries_out.succeeds)

text \<open>
  \<open>realizes\<close>: a program carried out the planned calls up to the first that failed, all of them if it
  returned no error.
\<close>

definition realizes ::
  "('p, 's) job_client \<Rightarrow> ('s \<Rightarrow> 'v) \<Rightarrow> 'p client_call list \<Rightarrow> 's \<Rightarrow> go_error option \<times> 'p cjw \<times> 's \<Rightarrow> bool" where
  "realizes client view plan s r \<longleftrightarrow>
     (\<exists>n \<le> length plan. carries_out client view (view s) (take n plan) (fst r = None) (view (snd (snd r)))
        \<and> (fst r = None \<longrightarrow> n = length plan))"

lemma realizes_nil: "realizes client view [] s (None, w, s)"
  by (simp add: realizes_def carries_out.nothing)

lemma realizes_single:
  assumes "perform client c s = (e, s1)" "view s' = view s1" "err = None \<longleftrightarrow> e = None"
  shows "realizes client view [c] s (err, w, s')"
proof -
  have "carries_out client view (view s) [c] (err = None) (view s')"
    using assms carries_out.succeeds [OF _ carries_out.nothing, of client c s s1 view]
      carries_out.fails [of client c s _ s1 view] by (cases e) auto
  then show ?thesis unfolding realizes_def by (intro exI [of _ 1]) simp
qed

lemma realizes_orElse:
  assumes "realizes client view plan s r" "\<And>w s'. r = (None, w, s') \<Longrightarrow> realizes client view plan' s' (f (w, s'))"
  shows "realizes client view (plan @ plan') s (orElse r f)"
proof -
  obtain err w s' where r: "r = (err, w, s')" by (metis prod.collapse)
  show ?thesis
  proof (cases err)
    case None
    have plan: "carries_out client view (view s) plan True (view s')"
      using assms(1) by (auto simp: realizes_def r None)
    obtain m where m: "m \<le> length plan'" "fst (f (w, s')) = None \<longrightarrow> m = length plan'"
      "carries_out client view (view s') (take m plan') (fst (f (w, s')) = None) (view (snd (snd (f (w, s')))))"
      using assms(2) [of w s'] by (auto simp: realizes_def r None)
    show ?thesis
      unfolding realizes_def
      using carries_out_append [OF plan m(3)] m(1,2)
      by (intro exI [of _ "length plan + m"]) (simp add: orElse_def r None)
  next
    case (Some e)
    obtain n where n: "n \<le> length plan" "carries_out client view (view s) (take n plan) False (view s')"
      using assms(1) by (auto simp: realizes_def r Some)
    then show ?thesis unfolding realizes_def by (intro exI [of _ n]) (simp add: orElse_def r Some)
  qed
qed

lemma actOnJob_orElse: "actOnJobs act (job # jobs) ws = orElse (act job ws) (actOnJobs act jobs)"
  by (auto simp: orElse_def split: prod.split option.split)

lemma realizes_actOnJobs:
  assumes "\<And>job w s. realizes client view [tag job] s (act job (w, s))"
  shows "realizes client view (map tag jobs) s (actOnJobs act jobs (w, s))"
proof (induction jobs arbitrary: w s)
  case Nil
  then show ?case by (simp add: realizes_nil)
next
  case (Cons job jobs)
  then show ?case
    using realizes_orElse [OF assms Cons.IH] by (simp only: actOnJob_orElse list.map) simp
qed

section \<open>A run\<close>

text \<open>What a call on a client can do to the jobs.\<close>

definition client_effect ::
  "('p, 's) job_client \<Rightarrow> ('s \<Rightarrow> 'p job list) \<Rightarrow> 'p client_call \<Rightarrow> 'p job list \<Rightarrow> 'p job list \<Rightarrow> bool" where
  "client_effect client jobs_of call jobs jobs' \<longleftrightarrow>
     (\<exists>s. jobs = jobs_of s \<and> jobs' = jobs_of (snd (perform client call s)))"

text \<open>A run that has loaded a ControlledJob and its jobs and decides what to do.\<close>

definition run_decides ::
  "('p, 's) rec_env \<Rightarrow> namespaced_name \<Rightarrow> gotime \<Rightarrow> 's \<Rightarrow> 'p controlled_job \<Rightarrow> 'p job list \<Rightarrow> 'p decision_state \<Rightarrow> bool" where
  "run_decides env target now s c jobs d \<longleftrightarrow>
     (\<exists>s1. loadFromCluster (reClient env) target s = ((Some (c, jobs), None), s1))
     \<and> makeDecision (reOp env) \<lparr>cj = c, ticks = 0\<rparr> jobs now (reEnableAutoRecreate env) = Return d None"

lemma run_decides_unique:
  "run_decides env target now s c jobs d \<Longrightarrow> run_decides env target now s c' jobs' d' \<Longrightarrow> c' = c \<and> jobs' = jobs \<and> d' = d"
  by (auto simp: run_decides_def)

text \<open>
  What a run needs of its client and recorder: reads, status updates and recorded events change
  nothing of what is seen.
\<close>

locale store_client =
  fixes client :: "('p, 's) job_client" and recorder :: "('p, 's) recorder"
    and target :: namespaced_name and view :: "'s \<Rightarrow> 'v"
  assumes get_view [simp]: "view (snd (GetControlledJob client target s)) = view s"
    and list_view [simp]: "view (snd (ListJobsForControlledJob client target s)) = view s"
    and status_view [simp]: "view (snd (UpdateStatus client c s)) = view s"
    and record_view [simp]: "view (recorder c ty reason message s) = view s"
begin

lemma recordNow_view [simp]: "view (snd (recordNow clock recorder action ws)) = view (snd ws)"
  by (cases ws) (simp add: recordNow_def RecordEvent_def Let_def recordWarningEvent_def recordNormalEvent_def recordEvent_def)

lemma actOnJob_realizes:
  assumes "\<And>s. call job s = perform client (tag job) s" "reRecorder env = recorder"
  shows "realizes client view [tag job] s (actOnJob env call event verb ty action okS okR okM job (w, s))"
proof -
  obtain e s1 where c: "perform client (tag job) s = (e, s1)" by (metis prod.collapse)
  obtain err w' s' where r: "actOnJob env call event verb ty action okS okR okM job (w, s) = (err, w', s')"
    by (metis prod.collapse)
  have "view s' = view s1 \<and> (err = None \<longleftrightarrow> e = None)"
  proof (cases e)
    case None
    obtain w1 s2 where n: "recordNow (opClock (reOp env)) recorder (\<lambda>now. action now (jobName job)) (w, s1) = (w1, s2)"
      by (metis prod.collapse)
    then have "view s2 = view s1" using recordNow_view [of "opClock (reOp env)" _ "(w, s1)"] by (metis snd_conv)
    then show ?thesis using r n by (auto simp: actOnJob_def assms c None)
  qed (use r in \<open>auto simp: actOnJob_def assms c Let_def\<close>)
  then show ?thesis unfolding r using c by (intro realizes_single) auto
qed

lemma applyDecision_realizes:
  assumes "reClient env = client" "reRecorder env = recorder"
  shows "realizes client view (planned d) s (applyDecision env d s)"
proof -
  have loops: "realizes client view (map CallDelete jobs) s (deleteJobs env jobs (w, s))"
    "realizes client view (map CallCreate jobs) s (createJobs env jobs (w, s))"
    "realizes client view (map CallSuspend jobs) s (suspendJobs env jobs (w, s))"
    "realizes client view (map CallUnsuspend jobs) s (unsuspendJobs env jobs (w, s))" for jobs w s
    unfolding deleteJobs_def createJobs_def suspendJobs_def unsuspendJobs_def
    by (rule realizes_actOnJobs, rule actOnJob_realizes; simp add: assms)+
  show ?thesis
    unfolding planned_def applyDecision_def by (intro realizes_orElse loops)
qed

lemma deferred_view [simp]:
  assumes "reClient env = client" "reRecorder env = recorder"
  shows "view (snd (deferredCalls env err ws)) = view (snd ws)"
  using assms
  by (cases ws) (simp add: deferredCalls_def recordFailedReconcile_def writeStatus_def Let_def split: option.split)

lemma load_view:
  assumes "loadFromCluster client target s = (loaded, s1)"
  shows "view s1 = view s"
proof -
  obtain cj ok err s0 where g: "GetControlledJob client target s = ((cj, ok, err), s0)" by (metis prod.collapse)
  have s0: "view s0 = view s" using get_view [of s] unfolding g by simp
  obtain js lerr s2 where l: "ListJobsForControlledJob client target s0 = ((js, lerr), s2)" by (metis prod.collapse)
  have "view s2 = view s" using list_view [of s0] unfolding l using s0 by simp
  then show ?thesis using assms s0 by (auto simp: loadFromCluster_def g l split: if_splits option.splits)
qed

text \<open>A run without a decision changes nothing; one with a decision carries it out.\<close>

lemma run_carries_out:
  assumes env: "reClient env = client" "reRecorder env = recorder"
    and run: "Reconcile env target now s = Finished r s' \<or> Reconcile env target now s = Panicked s'"
  shows "(\<nexists>c jobs d. run_decides env target now s c jobs d) \<and> view s' = view s
    \<or> (\<exists>c jobs d n. run_decides env target now s c jobs d \<and> Reconcile env target now s = Finished r s'
        \<and> n \<le> length (planned d) \<and> (rrError r = None \<longrightarrow> n = length (planned d))
        \<and> carries_out client view (view s) (take n (planned d)) (rrError r = None) (view s'))"
proof -
  obtain loaded err s1 where l: "loadFromCluster client target s = ((loaded, err), s1)" by (metis prod.collapse)
  note s1 = load_view [OF l]
  show ?thesis
  proof (cases "\<exists>c jobs. err = None \<and> loaded = Some (c, jobs)")
    case False
    then have "\<nexists>c jobs d. run_decides env target now s c jobs d" by (auto simp: run_decides_def env l)
    then show ?thesis using False run s1 by (auto simp: Reconcile_def env l split: option.splits)
  next
    case True
    then obtain c jobs where e: "err = None" "loaded = Some (c, jobs)" by blast
    show ?thesis
    proof (cases "\<exists>d. makeDecision (reOp env) \<lparr>cj = c, ticks = 0\<rparr> jobs now (reEnableAutoRecreate env) = Return d None")
      case False
      then have "\<nexists>c jobs d. run_decides env target now s c jobs d" by (auto simp: run_decides_def env l e)
      then show ?thesis
        using False run s1 deferred_view [OF env] by (auto simp: Reconcile_def env l e split: ctl.splits option.splits)
    next
      case True
      then obtain d where d: "makeDecision (reOp env) \<lparr>cj = c, ticks = 0\<rparr> jobs now (reEnableAutoRecreate env) = Return d None" ..
      obtain err2 w2 s2 where a: "applyDecision env d s1 = (err2, w2, s2)" by (metis prod.collapse)
      obtain n where n: "n \<le> length (planned d)" "err2 = None \<longrightarrow> n = length (planned d)"
        "carries_out client view (view s) (take n (planned d)) (err2 = None) (view s2)"
        using applyDecision_realizes [OF env, of d s1] by (auto simp: realizes_def a s1)
      have fin: "Reconcile env target now s = Finished r s'" "rrError r = None \<longleftrightarrow> err2 = None" "view s' = view s2"
        using run deferred_view [OF env] by (auto simp: Reconcile_def env l e d a TransientErrorResult_def split: option.splits)
      moreover have "run_decides env target now s c jobs d" using l d env(1) by (simp add: run_decides_def e)
      ultimately show ?thesis
        using n by (intro disjI2 exI [of _ c] exI [of _ jobs] exI [of _ d] exI [of _ n]) (simp only: simp_thms)
    qed
  qed
qed

end

section \<open>The calls and their effect\<close>

text \<open>
  On a client that traces its calls, a run sees the calls it has made as part of the state, and so
  they are the planned ones, besides those that update the status.
\<close>

primrec changes_jobs :: "'p client_call \<Rightarrow> bool" where
  "changes_jobs (CallUpdateStatus c) = False"
| "changes_jobs (CallCreate job) = True"
| "changes_jobs (CallSuspend job) = True"
| "changes_jobs (CallUnsuspend job) = True"
| "changes_jobs (CallDelete job) = True"

definition traced_view :: "('s \<Rightarrow> 'v) \<Rightarrow> 's \<times> 'p client_call list \<Rightarrow> 'v \<times> 'p client_call list" where
  "traced_view view st = (view (fst st), filter changes_jobs (snd st))"

lemma planned_changes: "call \<in> set (planned d) \<Longrightarrow> changes_jobs call"
  by (auto simp: planned_def)

lemma perform_traced:
  "perform (traced client) call (s, tr) = (case perform client call s of (e, s') \<Rightarrow> (e, s', tr @ [call]))"
  by (cases call) (simp_all add: traced_def lift_call_def split: prod.split)

lemma carries_out_traced:
  assumes "carries_out (traced client) (traced_view view) v calls ok v'" "\<forall>call \<in> set calls. changes_jobs call"
  shows "carries_out client view (fst v) calls ok (fst v') \<and> snd v' = snd v @ calls"
  using assms
proof induction
  case (nothing v)
  then show ?case by (simp add: carries_out.nothing)
next
  case (fails c st e st')
  then show ?case
    using carries_out.fails [of client c "fst st" e "fst st'" view]
    by (cases st) (auto simp: perform_traced traced_view_def split: prod.splits)
next
  case (succeeds c st st' calls ok v)
  then show ?case
    using carries_out.succeeds [of client c "fst st" "fst st'" view calls ok "fst v"]
    by (cases st) (auto simp: perform_traced traced_view_def split: prod.splits)
qed

lemma run_decides_traced:
  "run_decides (traced_env env) target now (s, tr) c jobs d \<longleftrightarrow> run_decides env target now s c jobs d"
  by (simp add: run_decides_def loadFromCluster_traced split: prod.split)

context store_client
begin

lemma traced_store_client:
  assumes "reClient env = client" "reRecorder env = recorder"
  shows "store_client (reClient (traced_env env)) (reRecorder (traced_env env)) target (traced_view view)"
proof
  note t = traced_def lift_call_def traced_view_def assms
  fix c ty reason message and st :: "'s \<times> 'p client_call list"
  obtain s tr where st: "st = (s, tr)" by (cases st)
  show "traced_view view (snd (GetControlledJob (reClient (traced_env env)) target st)) = traced_view view st"
    by (cases "GetControlledJob client target s") (use get_view [of s] in \<open>simp add: st t\<close>)
  show "traced_view view (snd (ListJobsForControlledJob (reClient (traced_env env)) target st)) = traced_view view st"
    by (cases "ListJobsForControlledJob client target s") (use list_view [of s] in \<open>simp add: st t\<close>)
  show "traced_view view (snd (UpdateStatus (reClient (traced_env env)) c st)) = traced_view view st"
    by (cases "UpdateStatus client c s") (use status_view [of c s] in \<open>simp add: st t\<close>)
  show "traced_view view (reRecorder (traced_env env) c ty reason message st) = traced_view view st"
    by (simp add: st t)
qed

lemma run_traced:
  assumes env: "reClient env = client" "reRecorder env = recorder"
    and run: "Reconcile (traced_env env) target now (s, []) = Finished r (s', tr)
      \<or> Reconcile (traced_env env) target now (s, []) = Panicked (s', tr)"
  shows "(\<nexists>c jobs d. run_decides env target now s c jobs d) \<and> view s' = view s \<and> (\<forall>call \<in> set tr. \<not> changes_jobs call)
    \<or> (\<exists>c jobs d n c'. run_decides env target now s c jobs d
        \<and> Reconcile (traced_env env) target now (s, []) = Finished r (s', tr)
        \<and> n \<le> length (planned d) \<and> (rrError r = None \<longrightarrow> n = length (planned d))
        \<and> tr = take n (planned d) @ [CallUpdateStatus c']
        \<and> carries_out client view (view s) (take n (planned d)) (rrError r = None) (view s'))"
proof -
  from store_client.run_carries_out [OF traced_store_client [OF env] refl refl run]
  consider (none) "\<nexists>c jobs d. run_decides env target now s c jobs d" "traced_view view (s', tr) = traced_view view (s, [])"
    | (some) c jobs d n where "run_decides env target now s c jobs d"
        "Reconcile (traced_env env) target now (s, []) = Finished r (s', tr)"
        "n \<le> length (planned d)" "rrError r = None \<longrightarrow> n = length (planned d)"
        "carries_out (traced client) (traced_view view) (traced_view view (s, [])) (take n (planned d))
           (rrError r = None) (traced_view view (s', tr))"
    by (auto simp: run_decides_traced env)
  then show ?thesis
  proof cases
    case none
    then show ?thesis by (simp add: traced_view_def filter_empty_conv)
  next
    case (some c jobs d n)
    have plan: "\<forall>call \<in> set (take n (planned d)). changes_jobs call"
      using planned_changes by (auto dest: in_set_takeD)
    note seen = carries_out_traced [OF some(5) plan, unfolded traced_view_def]
    obtain s1 where load: "loadFromCluster (reClient env) target s = ((Some (c, jobs), None), s1)"
      and d: "makeDecision (reOp env) \<lparr>cj = c, ticks = 0\<rparr> jobs now (reEnableAutoRecreate env) = Return d None"
      using some(1) by (auto simp: run_decides_def)
    obtain m c' where tr: "tr = take m (planned d) @ [CallUpdateStatus c']"
      using reconcile_calls_lemma [OF load d] some(2) by auto
    have "filter changes_jobs (take m (planned d)) = take m (planned d)"
      using planned_changes by (auto simp: filter_id_conv dest: in_set_takeD)
    then have "take m (planned d) = take n (planned d)" using seen tr by simp
    then show ?thesis using some seen tr by (intro disjI2 exI [of _ c] exI [of _ jobs] exI [of _ d] exI [of _ n] exI [of _ c']) simp
  qed
qed

end

section \<open>A run in the cluster\<close>

lemma reachable_trans: "reachable env effect b c \<Longrightarrow> reachable env effect a b \<Longrightarrow> reachable env effect a c"
  by (induction rule: reachable.induct) (auto intro: reachable.step)

lemma one_call: "effect c jobs jobs' \<Longrightarrow> reachable env effect (jobs, c # calls) (jobs', calls)"
  by (blast intro: reachable.start reachable.step cluster_step.call)

lemma client_effectI: "perform client c s = (e, s') \<Longrightarrow> client_effect client jobs_of c (jobs_of s) (jobs_of s')"
  unfolding client_effect_def by (intro exI [of _ s]) simp

lemma carries_out_reachable:
  assumes "carries_out client jobs_of jobs calls ok jobs'"
  shows "reachable env (client_effect client jobs_of) (jobs, calls @ rest) (jobs', rest)"
  using assms
proof induction
  case (nothing jobs)
  show ?case by (simp add: reachable.start)
next
  case (fails c s e s')
  then show ?case by (simp add: one_call client_effectI)
next
  case (succeeds c s s' calls ok jobs)
  from client_effectI [OF succeeds.hyps(1), of jobs_of] have "reachable env (client_effect client jobs_of) (jobs_of s, c # (calls @ rest)) (jobs_of s', calls @ rest)"
    by (simp add: one_call)
  from reachable_trans [OF succeeds.IH this] show ?case by simp
qed

text \<open>
  The contract between the reconciler and its client for one ControlledJob: besides, the calls
  that write do what the API documents.
\<close>

locale cluster_client = store_client client recorder target jobs_of
  for client :: "('p, 's) job_client" and recorder :: "('p, 's) recorder"
    and target :: namespaced_name and jobs_of :: "'s \<Rightarrow> 'p job list" +
  assumes documented: "api_documented (client_effect client jobs_of)"

text \<open>
  What is listed for a run may lag behind what is stored. \<open>lists_runners\<close>: it does not show fewer
  jobs that may run than there are.
\<close>

definition lists_runners ::
  "('p, 's) rec_env \<Rightarrow> namespaced_name \<Rightarrow> ('s \<Rightarrow> 'p job list) \<Rightarrow> 's \<Rightarrow> bool" where
  "lists_runners env target jobs_of s \<longleftrightarrow>
     (\<forall>c jobs s1. loadFromCluster (reClient env) target s = ((Some (c, jobs), None), s1) \<longrightarrow>
        runners (jobs_of s) \<le> runners jobs)"

context cluster_client
begin

lemma run_reaches:
  assumes env: "reClient env = client" "reRecorder env = recorder"
    and run: "Reconcile env target now s = Finished r s' \<or> Reconcile env target now s = Panicked s'"
    and lists: "lists_runners env target jobs_of s"
  shows "reachable (reOp env) (client_effect client jobs_of) (jobs_of s, []) (jobs_of s', [])"
  using run_carries_out [OF env run]
proof (elim disjE exE conjE)
  assume "jobs_of s' = jobs_of s"
  then show ?thesis by (simp add: reachable.start)
next
  let ?reach = "reachable (reOp env) (client_effect client jobs_of)"
  fix c jobs d n
  assume d: "run_decides env target now s c jobs d"
    and calls: "carries_out client jobs_of (jobs_of s) (take n (planned d)) (rrError r = None) (jobs_of s')"
  have "runners (jobs_of s) \<le> runners jobs" using d lists by (auto simp: run_decides_def lists_runners_def)
  with d have decide: "?reach (jobs_of s, []) (jobs_of s, planned d)"
    unfolding run_decides_def by (metis reachable.step [OF reachable.start cluster_step.decide])
  have "?reach (jobs_of s, planned d) (jobs_of s', drop n (planned d))"
    using carries_out_reachable [OF calls, of "reOp env" "drop n (planned d)"] by simp
  from reachable_trans [OF this decide] show ?thesis
    by (rule reachable.step) (rule cluster_step.stop)
qed

end

section \<open>The API under the adapter\<close>

text \<open>
  What the Kubernetes API documents of one ControlledJob's jobs, for controller-runtime's client:
  the first four laws are about reads and objects other than jobs; a job that is created is
  stored with the suspend flag it was sent with; an update replaces the version that was
  read, from which the object sent differs in the specification only; a delete removes or marks.
  Any write may instead change nothing, as an update of a job that has changed since. Nothing is
  said of what a listing shows: it comes from the cache of the manager's client, which documents
  no more than that it follows the cluster.
\<close>

locale api_store =
  fixes api :: "('p, 's) api_client" and recorder :: "('p, 's) recorder"
    and target :: namespaced_name and jobs_of :: "'s \<Rightarrow> 'p job list"
  assumes api_get: "jobs_of (snd (apiGet api target s)) = jobs_of s"
    and api_list: "jobs_of (snd (apiListByOwner api target s)) = jobs_of s"
    and api_status: "jobs_of (snd (apiUpdateStatus api c s)) = jobs_of s"
    and api_record: "jobs_of (recorder c ty reason message s) = jobs_of s"
    and api_create: "jobs_of (snd (apiCreate api job s)) = jobs_of s
      \<or> (\<exists>job'. jobs_of (snd (apiCreate api job s)) = jobs_of s @ [job'] \<and> jsSuspend (jobSpec job') = jsSuspend (jobSpec job))"
    and api_update: "jobs_of (snd (apiUpdateJob api job s)) = jobs_of s
      \<or> (\<exists>a < length (jobs_of s). (jobs_of s ! a)\<lparr>jobSpec := jobSpec job\<rparr> = job
          \<and> jobs_of (snd (apiUpdateJob api job s)) = (jobs_of s)[a := job])"
    and api_delete: "(\<exists>keep. jobs_of (snd (apiDelete api job propagation s)) = filter keep (jobs_of s))
      \<or> (\<exists>a < length (jobs_of s). \<exists>t. jobs_of (snd (apiDelete api job propagation s))
          = (jobs_of s)[a := (jobs_of s ! a)\<lparr>jobDeletionTimestamp := Some t\<rparr>])"
begin

lemma sent_suspend:
  assumes "j\<lparr>jobSpec := jobSpec (set_suspend b job)\<rparr> = set_suspend b job"
  shows "j\<lparr>jobSpec := jobSpec job\<rparr> = job"
  using assms by (cases j, cases job) (simp add: set_suspend_def)

lemma adapter_documented: "api_documented (client_effect (NewFromClient api) jobs_of)"
proof -
  have "jobs_of (snd (perform (NewFromClient api) call s)) = jobs_of s
      \<or> documented_change call (jobs_of s) (jobs_of (snd (perform (NewFromClient api) call s)))" for call s
  proof (cases call)
    case (CallUpdateStatus c)
    then show ?thesis by (simp add: NewFromClient_def adapterUpdateStatus_def api_status)
  next
    case (CallCreate job)
    then show ?thesis using api_create [of job s] by (simp add: NewFromClient_def adapterCreateJob_def)
  next
    case (CallSuspend job)
    then show ?thesis
      using api_update [of "set_suspend True job" s] sent_suspend [where b = True and job = job]
      by (auto simp: NewFromClient_def adapterSuspendJob_def)
  next
    case (CallUnsuspend job)
    then show ?thesis
      using api_update [of "set_suspend False job" s] sent_suspend [where b = False and job = job]
      by (auto simp: NewFromClient_def adapterUnsuspendJob_def)
  next
    case (CallDelete job)
    then show ?thesis
      using api_delete [of job DeletePropagationForeground s] by (cases "apiDelete api job DeletePropagationForeground s") (simp add: NewFromClient_def adapterDeleteJob_def)
  qed
  then show ?thesis unfolding api_documented_def client_effect_def by blast
qed

lemma adapter_client: "cluster_client (NewFromClient api) recorder target jobs_of"
proof unfold_locales
  fix s c ty reason message
  show "jobs_of (snd (GetControlledJob (NewFromClient api) target s)) = jobs_of s"
    using api_get [of s]
    by (cases "apiGet api target s") (auto simp: NewFromClient_def adapterGetControlledJob_def Let_def split: prod.split)
  show "jobs_of (snd (ListJobsForControlledJob (NewFromClient api) target s)) = jobs_of s"
    using api_list [of s] by (simp add: NewFromClient_def adapterListJobs_def)
  show "jobs_of (snd (UpdateStatus (NewFromClient api) c s)) = jobs_of s"
    by (simp add: NewFromClient_def adapterUpdateStatus_def api_status)
  show "jobs_of (recorder c ty reason message s) = jobs_of s" by (rule api_record)
  show "api_documented (client_effect (NewFromClient api) jobs_of)" by (rule adapter_documented)
qed
end

sublocale api_store \<subseteq> adapter: cluster_client "NewFromClient api" recorder target jobs_of
by (rule adapter_client)

section \<open>Properties\<close>

text \<open>
  C2: \<^verbatim>\<open>Reconcile\<close> over the client adapter carries out its decision and does nothing else. Let the run
  return or panic, on a client that traces its calls (and acts as the one it wraps, see \<open>erase\<close> in
  \<open>MockRuns\<close>). If it has not come to a decision (it could
  not load, there is no such ControlledJob, the decision failed or panicked), it calls for no
  change of any job and leaves the jobs as they are. Otherwise it returns, and the calls it has
  made are the first \<open>n\<close> planned ones of the decision, in their order (deletions, creations,
  suspensions, unsuspensions), and then one status update. Each was made after the one before it
  had succeeded, and the jobs are those that these calls, one after the other, have left, with
  no other change before, between or after them. The run returns an error exactly if the last
  of them failed; otherwise all that was planned was done. The calls do no more than the API
  documents. No assumption is made on what the listing shows.
\<close>

theorem reconcile_refines:
  assumes "api_store api (reRecorder env) target jobs_of" "reClient env = NewFromClient api"
    and "Reconcile (traced_env env) target now (s, []) = Finished r (s', tr)
      \<or> Reconcile (traced_env env) target now (s, []) = Panicked (s', tr)"
  shows "((\<nexists>c jobs d. run_decides env target now s c jobs d) \<and> jobs_of s' = jobs_of s \<and> (\<forall>call \<in> set tr. \<not> changes_jobs call)
      \<or> (\<exists>c jobs d n c'. run_decides env target now s c jobs d
          \<and> Reconcile (traced_env env) target now (s, []) = Finished r (s', tr)
          \<and> n \<le> length (planned d) \<and> (rrError r = None \<longrightarrow> n = length (planned d))
          \<and> tr = take n (planned d) @ [CallUpdateStatus c']
          \<and> carries_out (NewFromClient api) jobs_of (jobs_of s) (take n (planned d)) (rrError r = None) (jobs_of s')))
    \<and> api_documented (client_effect (NewFromClient api) jobs_of)"
proof -
  have client: "cluster_client (NewFromClient api) (reRecorder env) target jobs_of"
    by (rule api_store.adapter_client [OF assms(1)])
  then have "store_client (NewFromClient api) (reRecorder env) target jobs_of"
    by (simp add: cluster_client_def)
  from store_client.run_traced [OF this assms(2) refl assms(3)] cluster_client.documented [OF client]
  show ?thesis by blast
qed

text \<open>
  The operator's runs on a ControlledJob, one after the other, each at any time, and between
  them any change from outside that lets no further job run. No run is given a list that hides
  a job that may run.
\<close>

inductive operator_runs ::
  "('p, 's) rec_env \<Rightarrow> namespaced_name \<Rightarrow> ('s \<Rightarrow> 'p job list) \<Rightarrow> 's \<Rightarrow> 's \<Rightarrow> bool"
  for env target jobs_of s0 where
  init: "operator_runs env target jobs_of s0 s0"
| returns: "operator_runs env target jobs_of s0 s \<Longrightarrow> lists_runners env target jobs_of s \<Longrightarrow>
    Reconcile env target now s = Finished r s' \<Longrightarrow> operator_runs env target jobs_of s0 s'"
| panics: "operator_runs env target jobs_of s0 s \<Longrightarrow> lists_runners env target jobs_of s \<Longrightarrow>
    Reconcile env target now s = Panicked s' \<Longrightarrow> operator_runs env target jobs_of s0 s'"
| others: "operator_runs env target jobs_of s0 s \<Longrightarrow> runners (jobs_of s') \<le> runners (jobs_of s) \<Longrightarrow>
    operator_runs env target jobs_of s0 s'"

text \<open>
  C3: The operator keeps at most one job running, as long as the cache it reads has caught up with
  the jobs that may run. Over an API whose writes do what it documents, and with mutators that
  keep the suspend flag, whatever runs of \<^verbatim>\<open>Reconcile\<close> there are, at whatever times and on whatever
  versions of the ControlledJob, whether they succeed, fail or panic, if every run is given a
  list by which as many jobs may run as may run in the cluster (it may lag behind in all else), and
  at most one job of the ControlledJob may run at first, so it is ever after. The condition on the
  lists is documented nowhere and cannot be dropped: \<open>lagging_list_two_run\<close> is a run over an API with the
  laws of \<open>api_store\<close> that starts a second job.
\<close>

theorem operator_at_most_one:
  assumes "operator_runs env target jobs_of s0 s" "runners (jobs_of s0) \<le> 1"
    and "api_store api (reRecorder env) target jobs_of" "reClient env = NewFromClient api"
    and "only_owner_references (opJobs (reOp env))" "benign_mutators (opJobs (reOp env))"
  shows "runners (jobs_of s) \<le> 1"
proof -
  have client: "cluster_client (reClient env) (reRecorder env) target jobs_of"
    using api_store.adapter_client [OF assms(3)] assms(4) by simp
  have run: "runners (jobs_of s') \<le> 1"
    if "Reconcile env target now s = Finished r s' \<or> Reconcile env target now s = Panicked s'"
      "runners (jobs_of s) \<le> 1" "lists_runners env target jobs_of s"
    for now s r s'
    using reachable_exclusive [OF cluster_client.run_reaches [OF client refl refl that(1,3)] _
        cluster_client.documented [OF client] assms(5,6)] that(2)
    by (simp add: exclusive_def)
  from assms(1) show ?thesis
    by induction (use assms(2) run in auto)
qed

end
