(* ===== verification/DecisionBehaviour.thy ===== *)
theory DecisionBehaviour
  imports DecisionProps
begin

text \<open>
  What \<^verbatim>\<open>makeDecision\<close> does in the situations it was written for: start a job, stop the jobs,
  replace an out-of-date job, leave a good job alone, do nothing while suspended, give up
  after the starting deadline.
\<close>

section \<open>Lemmas\<close>

lemma new_job_name:
  assumes "only_owner_references env" "benign_mutators env" "buildJob env c t i manual susp = Ok job"
  shows "jobName job = JobName (cjName c) t i" "\<not> IsJobBeingDeleted job" "\<not> IsJobCompleted job"
  using view_readers(7-9) [OF buildJob_view [OF assms]] newJobFor_readers(6-8) by simp_all

lemma SuspendReason_neq:
  "SuspendReason \<noteq> ScheduledTimeAnnotation" "SuspendReason \<noteq> JobRunIdAnnotation" "SuspendReason \<noteq> ManualJobAnnotation"
  "SuspendReason \<noteq> TemplateHashAnnotation" "SuspendReason \<noteq> TimeZoneAnnotation"
  "SuspendReason \<noteq> TimeZoneOffsetSecondsAnnotation"
  using annotation_keys_distinct by auto

lemma built_not_stopped:
  assumes "only_owner_references env" "benign_mutators env" "buildJob env c t i manual susp = Ok job"
    and "jtAnnotations (csJobTemplate (cjSpec c)) SuspendReason = None"
  shows "\<not> WasJobStoppedByTheUser job"
proof -
  have "jobAnnotations (newJobFor env c t i manual susp) SuspendReason = None"
    by (simp add: newJobFor_def jobAnnotationsFor_def Let_def SuspendReason_neq assms(4))
  then have "\<not> WasJobStoppedByTheUser (newJobFor env c t i manual susp)"
    by (simp add: WasJobStoppedByTheUser_def annotation_def)
  then show ?thesis using view_readers(6) [OF buildJob_view [OF assms(1-3)]] by simp
qed

lemma running_count_iff: "running_count jobs = 0 \<longleftrightarrow> (\<forall>job \<in> set jobs. IsJobCompleted job)"
  by (auto simp: running_count_def filter_empty_conv IsJobPotentiallyRunning_def all_set_conv_all_nth)

lemma currentChoice_expired: "\<forall>job \<in> set jobs. isExpired st job \<Longrightarrow> currentChoice st jobs = None"
  using bestCurrent_None [of st jobs] by (simp add: currentChoice_def)

lemma currentChoice_not_due:
  assumes "\<not> shouldRun st" "\<forall>job \<in> set jobs. \<not> isExpired st job \<longrightarrow> \<not> IsManuallyScheduledJob job"
  shows "currentChoice st jobs = None"
proof (rule ccontr)
  assume "currentChoice st jobs \<noteq> None"
  then obtain a where a: "currentChoice st jobs = Some a" by blast
  note b = bestCurrent_Some(1,2) [OF currentChoice_Some(1) [OF a]]
  then have "\<not> IsManuallyScheduledJob (jobs ! a)" using assms(2) nth_mem by blast
  then show False using currentChoice_Some(2) [OF a] assms(1) by blast
qed

lemma unsuspend_new:
  assumes "dCreate d = [a]" "dChosen d = Some a" "a < length (dStore d)"
    and "IsJobSuspended (dStore d ! a)" "\<not> IsJobBeingDeleted (dStore d ! a)" "\<not> WasJobStoppedByTheUser (dStore d ! a)"
  shows "IsJobSuspended (dStore (unsuspendStep d) ! a) \<longleftrightarrow> dCount d \<noteq> 1"
    "jobName (dStore (unsuspendStep d) ! a) = jobName (dStore d ! a)" "dUnsuspend (unsuspendStep d) = dUnsuspend d"
proof -
  show "dUnsuspend (unsuspendStep d) = dUnsuspend d"
    using assms by (simp add: unsuspendStep_def Let_def)
  show "IsJobSuspended (dStore (unsuspendStep d) ! a) \<longleftrightarrow> dCount d \<noteq> 1"
    "jobName (dStore (unsuspendStep d) ! a) = jobName (dStore d ! a)"
    using assms by (cases "dCount d = 1"; simp add: unsuspendStep_def Let_def; simp add: IsJobSuspended_def)+
qed

section \<open>Properties\<close>

text \<open>
  C11: A job is started when one is due: inside a run period, with every listed job expired (or
  none), in time for the starting deadline, with a builder that works and a template without the
  annotation for a stop by the user, the decision succeeds, creates exactly one job, named after
  the start of the run period with run id 0, deletes every listed job that is not already being
  deleted, and reports that the job is running. The new job starts unsuspended exactly if every
  listed job is completed. (The manual, the design document and the comment on the last step of
  the code all say that every job is created suspended; the code clears the flag of a new job
  that would be unsuspended at once.)
\<close>

theorem decision_starts:
  assumes "buildState env (cj w) jobs now = Ok st" "\<not> rsIsSuspended st" "shouldRun st"
    and "only_owner_references (opJobs env)" "benign_mutators (opJobs env)" "builder_works (opJobs env)"
    and "jtAnnotations (csJobTemplate (cjSpec (cj w))) SuspendReason = None"
    and "\<forall>job \<in> set jobs. isExpired st job"
    and "\<not> startingDeadlineSecondsExceeded (cj w) (rsStartOfCurrentRunPeriod st) now"
  shows "\<exists>d s. makeDecision env w jobs now en = Return d None \<and> rsStartOfCurrentRunPeriod st = Some s
    \<and> dCreate d = [length jobs] \<and> length (dStore d) = length jobs + 1
    \<and> jobName (dStore d ! length jobs) = JobName (cjName (cj w)) s 0
    \<and> (IsJobSuspended (dStore d ! length jobs) \<longleftrightarrow> \<not> (\<forall>job \<in> set jobs. IsJobCompleted job))
    \<and> dUnsuspend d = [] \<and> (\<forall>a. a \<in> set (dDelete d) \<longleftrightarrow> a < length jobs \<and> \<not> IsJobBeingDeleted (jobs ! a))
    \<and> stIsRunning (cjStatus (cj (dW d))) = Some True"
proof -
  note choice = currentChoice_expired [OF assms(8)]
  obtain d where d: "makeDecision env w jobs now en = Return d None"
    using decision_reached [OF assms(1,2), of en] choice assms(6,9) by (auto simp: recreate_due_def)
  obtain new d4 where dec: "decided env st (en \<and> rsAutoRestartIsEnabled st) now (cj w) jobs new d4"
    "dChosen d = dChosen d4" "dCreate d = dCreate d4" "dDelete d = dDelete (deleteStep d4)"
    "dUnsuspend d = dUnsuspend (unsuspendStep (deleteStep d4))"
    "dStore d = dStore (unsuspendStep (deleteStep d4))"
    "stIsRunning (cjStatus (cj (dW d))) = Some (dChosen d \<noteq> None)"
    "new \<noteq> None \<longleftrightarrow> recreate_due st (en \<and> rsAutoRestartIsEnabled st) jobs \<or> shouldRun st \<and> currentChoice st jobs = None"
    using decision_cases [OF d assms(1,2)] by metis
  then obtain j where "new = Some j" using choice assms(3) by auto
  then have d4: "dStore d4 = jobs @ [j]" "dCreate d4 = [length jobs]" "dCount d4 = running_count jobs + 1"
      "dUnsuspend d4 = []" "dChosen d4 = Some (length jobs)" "started env st now (cj w) jobs j"
    using dec(1) choice by (simp_all add: decided_def recreated_def)
  then obtain s c' where s: "rsStartOfCurrentRunPeriod st = Some s" "same_but_status (cj w) c'"
    "buildJob (opJobs env) c' s 0 False True = Ok j"
    by (auto simp: started_def BuildForControlledJob_def)
  have "cjName c' = cjName (cj w)" "cjSpec c' = cjSpec (cj w)" using s(2) by (simp_all add: same_but_status_fields)
  then have j: "jobName j = JobName (cjName (cj w)) s 0" "\<not> IsJobBeingDeleted j" "\<not> WasJobStoppedByTheUser j" "IsJobSuspended j"
    using new_job_name [OF assms(4,5) s(3)] built_not_stopped [OF assms(4,5) s(3)] assms(7)
      new_job_suspended [OF disjI2 [OF d4(6)] assms(4,5)] by simp_all
  let ?d = "deleteStep d4"
  have cell: "dStore ?d ! length jobs = j" "length jobs < length (dStore ?d)" "dCreate ?d = [length jobs]"
    "dChosen ?d = Some (length jobs)" "dCount ?d = running_count jobs + 1" "dUnsuspend ?d = []"
    using d4 by simp_all
  note new = unsuspend_new [OF cell(3,4,2), unfolded cell, OF j(4,2,3)]
  have "length (dStore d) = length jobs + 1"
    using cell d4(1) by (auto simp: dec(6) unsuspendStep_def Let_def)
  moreover have "jobName (dStore d ! length jobs) = JobName (cjName (cj w)) s 0" "dUnsuspend d = []"
    using new(2,3) j(1) by (simp_all add: dec(5,6))
  moreover have "IsJobSuspended (dStore d ! length jobs) \<longleftrightarrow> \<not> (\<forall>job \<in> set jobs. IsJobCompleted job)"
    unfolding dec(6) new(1) running_count_iff [symmetric] by simp
  moreover have "\<forall>a. a \<in> set (dDelete d) \<longleftrightarrow> a < length jobs \<and> \<not> IsJobBeingDeleted (jobs ! a)"
    using deleteStep_set [OF dec(1)] assms(8) by (auto simp: dec(4))
  moreover have "dCreate d = [length jobs]" "stIsRunning (cjStatus (cj (dW d))) = Some True"
    using d4 by (simp_all add: dec(2,3,7))
  ultimately show ?thesis using d s(1) by blast
qed

text \<open>
  C18: Jobs are stopped when no run is due: outside the run periods, with no current job that
  was scheduled manually, a decision creates and unsuspends nothing, deletes every listed job
  that is neither completed nor being deleted, and reports that no job is running.
\<close>

theorem decision_stops:
  assumes "makeDecision env w jobs now en = Return d None" "buildState env (cj w) jobs now = Ok st"
    and "\<not> rsIsSuspended st" "\<not> shouldRun st"
    and "\<forall>job \<in> set jobs. \<not> isExpired st job \<longrightarrow> \<not> IsManuallyScheduledJob job"
  shows "dCreate d = [] \<and> dUnsuspend d = [] \<and> dSuspend d = []
    \<and> (\<forall>a < length jobs. \<not> IsJobBeingDeleted (jobs ! a) \<longrightarrow> \<not> IsJobCompleted (jobs ! a) \<longrightarrow> a \<in> set (dDelete d))
    \<and> stIsRunning (cjStatus (cj (dW d))) = Some False"
proof -
  note choice = currentChoice_not_due [OF assms(4,5)]
  obtain new d4 where dec: "decided env st (en \<and> rsAutoRestartIsEnabled st) now (cj w) jobs new d4"
    "dChosen d = dChosen d4" "dCreate d = dCreate d4" "dSuspend d = []" "dDelete d = dDelete (deleteStep d4)"
    "dUnsuspend d = dUnsuspend (unsuspendStep (deleteStep d4))"
    "stIsRunning (cjStatus (cj (dW d))) = Some (dChosen d \<noteq> None)"
    "new \<noteq> None \<longleftrightarrow> recreate_due st (en \<and> rsAutoRestartIsEnabled st) jobs \<or> shouldRun st \<and> currentChoice st jobs = None"
    using decision_cases [OF assms(1-3)] by metis
  then have "new = None" using choice assms(4) by (auto simp: recreate_due_def)
  then have "dCreate d4 = []" "dChosen d4 = None" "dUnsuspend d4 = []" using dec(1) choice by (simp_all add: decided_def)
  then show ?thesis
    using deleteStep_set(1) [OF dec(1)] by (auto simp: dec(2-7) unsuspendStep_def)
qed

lemma GetJobRunId_bounds: "GetJobRunId job = Ok r \<Longrightarrow> - (2 ^ 63) \<le> r \<and> r < 2 ^ 63"
  by (auto simp: GetJobRunId_def atoi_def Let_def split: if_splits option.splits prod.splits)

lemma wrap64_id: "- (2 ^ 63) \<le> x \<Longrightarrow> x < 2 ^ 63 \<Longrightarrow> wrap64 x = x"
  by (simp add: wrap64_def sint_sbintrunc' signed_take_bit_int_eq_self)

lemma next_run_id_fresh:
  assumes "\<forall>job \<in> set jobs. GetJobRunId job \<noteq> Ok (2 ^ 63 - 1)" "job \<in> set jobs" "GetJobRunId job = Ok r"
  shows "r < wrap64 (fst (runIdLoop st jobs [0..<length jobs] (- 1) None) + 1)"
proof -
  let ?m = "fst (runIdLoop st jobs [0..<length jobs] (- 1) None)"
  note m = runIdLoop_max [of "- 1" st jobs "[0..<length jobs]" None]
  have le: "r \<le> ?m" if "job \<in> set jobs" "GetJobRunId job = Ok r" for job r
    using m that by (auto simp: in_set_conv_nth)
  have "?m = - 1 \<or> (\<exists>job \<in> set jobs. GetJobRunId job = Ok ?m)"
    using m by auto
  then have "- 1 \<le> ?m" "?m < 2 ^ 63 - 1"
    using m GetJobRunId_bounds [of _ ?m] assms(1) by force+
  then have "wrap64 (?m + 1) = ?m + 1" by (intro wrap64_id) simp_all
  then show ?thesis using le [OF assms(2,3)] by simp
qed

text \<open>
  C19: An out-of-date job is replaced: when automatic recreation is on and the best current job
  runs with another template than the specified one, was not stopped by the user and is not
  being deleted, a successful decision creates exactly one job. It keeps the start time of the
  old one, its run id is larger than that of every listed job, so its name is new, and it is
  created suspended; the old job is deleted in the same decision.
\<close>

theorem decision_recreates:
  assumes "makeDecision env w jobs now True = Return d None" "buildState env (cj w) jobs now = Ok st"
    and "\<not> rsIsSuspended st" "rsAutoRestartIsEnabled st"
    and "only_owner_references (opJobs env)" "benign_mutators (opJobs env)"
    and "currentChoice st jobs = Some a" "isOutOfDate (jobs ! a) st" "\<not> IsJobCompleted (jobs ! a)"
    and "\<not> WasJobStoppedByTheUser (jobs ! a)" "\<not> IsJobBeingDeleted (jobs ! a)"
    and "\<forall>job \<in> set jobs. GetJobRunId job \<noteq> Ok (2 ^ 63 - 1)"
  shows "\<exists>t n. GetScheduledTime (jobs ! a) = Ok t \<and> dCreate d = [length jobs]
    \<and> jobName (dStore d ! length jobs) = JobName (cjName (cj w)) t n
    \<and> (\<forall>job \<in> set jobs. \<forall>r. GetJobRunId job = Ok r \<longrightarrow> r < n)
    \<and> IsJobSuspended (dStore d ! length jobs) \<and> dUnsuspend d = [] \<and> a \<in> set (dDelete d)"
proof -
  obtain new d4 where dec: "decided env st (True \<and> rsAutoRestartIsEnabled st) now (cj w) jobs new d4"
    "dCreate d = dCreate d4" "dDelete d = dDelete (deleteStep d4)"
    "dUnsuspend d = dUnsuspend (unsuspendStep (deleteStep d4))"
    "dStore d = dStore (unsuspendStep (deleteStep d4))"
    "new \<noteq> None \<longleftrightarrow> recreate_due st (True \<and> rsAutoRestartIsEnabled st) jobs \<or> shouldRun st \<and> currentChoice st jobs = None"
    using decision_cases [OF assms(1-3)] by metis
  have "recreate_due st (True \<and> rsAutoRestartIsEnabled st) jobs"
    using assms by (simp add: recreate_due_def IsJobPotentiallyRunning_def)
  then obtain j where "new = Some j" using dec(6) by auto
  then have d4: "dStore d4 = jobs @ [j]" "dCreate d4 = [length jobs]" "dCount d4 = running_count jobs + 1"
      "dUnsuspend d4 = []" "dChosen d4 = Some (length jobs)" "recreated env st (True \<and> rsAutoRestartIsEnabled st) (cj w) jobs j"
    using dec(1) assms(7) by (simp_all add: decided_def started_def)
  let ?n = "wrap64 (fst (runIdLoop st jobs [0..<length jobs] (- 1) None) + 1)"
  obtain c' where c': "same_but_status (cj w) c'" "RecreateJobWithNewSpec (opJobs env) (jobs ! a) c' ?n True = Ok j"
    using d4(6) assms(7) by (auto simp: recreated_def)
  then obtain t where t: "GetScheduledTime (jobs ! a) = Ok t"
    "buildJob (opJobs env) c' t ?n (IsManuallyScheduledJob (jobs ! a)) True = Ok j"
    by (auto simp: RecreateJobWithNewSpec_def outcome_eqs)
  have a: "a < length jobs" using bestCurrent_Some(1) [OF currentChoice_Some(1) [OF assms(7)]] .
  have count: "dCount d4 \<noteq> 1"
    using d4(3) running_count_iff [of jobs] nth_mem [OF a] assms(9) by auto
  have "dStore d ! length jobs = j" "dUnsuspend d = []"
    using d4 count by (simp_all add: dec(4,5) unsuspendStep_def Let_def)
  moreover have "IsJobSuspended j" using new_job_suspended [OF disjI1 [OF d4(6)] assms(5,6)] .
  moreover have "jobName j = JobName (cjName (cj w)) t ?n"
    using new_job_name(1) [OF assms(5,6) t(2)] same_but_status_fields(2) [OF c'(1)] by simp
  moreover have "\<forall>job \<in> set jobs. \<forall>r. GetJobRunId job = Ok r \<longrightarrow> r < ?n"
    using next_run_id_fresh [OF assms(12)] by blast
  moreover have "a \<in> set (dDelete d)"
    using deleteStep_set(1) [OF dec(1)] a assms(9,11) d4(5) by (simp add: dec(3))
  ultimately show ?thesis using t(1) dec(2) d4(2) by metis
qed

text \<open>
  C26: While suspended, a decision deletes every listed job, those that are being deleted or
  completed included, creates and unsuspends nothing and asks for no requeue. The report on
  jobs in the status is left as it was: \<^verbatim>\<open>IsRunning\<close>, the active jobs and every condition but
  \<^verbatim>\<open>Suspended\<close> and \<^verbatim>\<open>ShouldBeRunning\<close>. This is what the manual and the design document say of the
  flag; the comment on \<^verbatim>\<open>Suspend\<close> in the type (and so in the CustomResourceDefinition) says that
  it does not apply to executions that have started.
\<close>

theorem decision_suspended:
  assumes "buildState env (cj w) jobs now = Ok st" "csSuspend (cjSpec (cj w)) = Some True"
  shows "\<exists>d. makeDecision env w jobs now en = Return d None \<and> dDelete d = [0..<length jobs]
    \<and> dCreate d = [] \<and> dSuspend d = [] \<and> dUnsuspend d = [] \<and> dStore d = jobs \<and> dRequeueAt d = zero_time
    \<and> status_of (dW d) ConditionTypeSuspended = Some ConditionTrue
    \<and> (\<forall>ty. ty \<noteq> ConditionTypeSuspended \<longrightarrow> ty \<noteq> ConditionTypeShouldBeRunning \<longrightarrow> status_of (dW d) ty = status_of w ty)
    \<and> stIsSuspended (cjStatus (cj (dW d))) = Some True
    \<and> stIsRunning (cjStatus (cj (dW d))) = stIsRunning (cjStatus (cj w))
    \<and> stActive (cjStatus (cj (dW d))) = stActive (cjStatus (cj w))"
proof -
  note st = buildState_fields(1,2) [OF assms(1)]
  show ?thesis
    using assms st
    by (simp add: makeDecision_def Let_def decideSuspended_def initial_decision_def recordScheduleStatus_def
        setShouldBeRunningStatus_def split: option.split)
qed

text \<open>
  A good situation is left alone: if the best current job is up to date and not suspended,
  and every other listed job is current and completed, the decision succeeds and is empty, and
  reports that the job is running.
\<close>

theorem decision_steady:
  assumes "buildState env (cj w) jobs now = Ok st" "\<not> rsIsSuspended st"
    and "currentChoice st jobs = Some a" "\<not> isOutOfDate (jobs ! a) st" "\<not> IsJobSuspended (jobs ! a)"
    and "\<forall>b < length jobs. b \<noteq> a \<longrightarrow> \<not> isExpired st (jobs ! b) \<and> IsJobCompleted (jobs ! b)"
  shows "\<exists>d. makeDecision env w jobs now en = Return d None \<and> dCreate d = [] \<and> dDelete d = [] \<and> dSuspend d = []
    \<and> dUnsuspend d = [] \<and> dStore d = jobs \<and> dChosen d = Some a
    \<and> stIsRunning (cjStatus (cj (dW d))) = Some True"
proof -
  have due: "\<not> recreate_due st (en \<and> rsAutoRestartIsEnabled st) jobs" using assms(3,4) by (simp add: recreate_due_def)
  obtain d where d: "makeDecision env w jobs now en = Return d None"
    using decision_reached [OF assms(1,2), of en] due assms(3) by auto
  obtain new d4 where dec: "decided env st (en \<and> rsAutoRestartIsEnabled st) now (cj w) jobs new d4"
    "dChosen d = dChosen d4" "dCreate d = dCreate d4" "dSuspend d = []" "dDelete d = dDelete (deleteStep d4)"
    "dUnsuspend d = dUnsuspend (unsuspendStep (deleteStep d4))"
    "dStore d = dStore (unsuspendStep (deleteStep d4))"
    "stIsRunning (cjStatus (cj (dW d))) = Some (dChosen d \<noteq> None)"
    "new \<noteq> None \<longleftrightarrow> recreate_due st (en \<and> rsAutoRestartIsEnabled st) jobs \<or> shouldRun st \<and> currentChoice st jobs = None"
    using decision_cases [OF d assms(1,2)] by metis
  then have "new = None" using due assms(3) by auto
  then have d4: "dStore d4 = jobs" "dCreate d4 = []" "dChosen d4 = Some a" "dUnsuspend d4 = []"
    using dec(1) assms(3) by (simp_all add: decided_def)
  then have "unsuspendStep (deleteStep d4) = deleteStep d4" using assms(5) by (simp add: unsuspendStep_def Let_def)
  moreover have "set (dDelete d) = {}"
    using deleteStep_set(1) [OF dec(1)] assms(6) d4(3) chosen_not_expired [OF dec(1) d4(3)] by (auto simp: dec(5))
  ultimately show ?thesis using d d4 by (auto simp: dec(2-4,6-8))
qed

text \<open>
  C31: The starting deadline: with \<^verbatim>\<open>StartingDeadlineSeconds\<close> of 1 to 9223372036 (292 years) the
  deadline is that many seconds after the start. The product with \<^verbatim>\<open>time.Second\<close> wraps around
  for larger values; for the largest one the deadline is a second before the start. Values
  below 1 set no deadline.
\<close>

theorem starting_deadline:
  assumes "csStartingDeadlineSeconds (cjSpec c) = Some secs"
  shows "(sint secs < 1 \<longrightarrow> \<not> startingDeadlineSecondsExceeded c (Some s) now)
    \<and> (1 \<le> sint secs \<longrightarrow> sint secs \<le> 9223372036 \<longrightarrow>
        (startingDeadlineSecondsExceeded c (Some s) now \<longleftrightarrow> instant s + sint secs * nano < instant now))
    \<and> (sint secs = 2 ^ 63 - 1 \<longrightarrow>
        (startingDeadlineSecondsExceeded c (Some s) now \<longleftrightarrow> instant s - nano < instant now))"
proof -
  have add: "instant (time_add s (seconds k)) = instant s + wrap64 (k * nano)" for k
    by (simp add: time_add_def seconds_def wrap64_def mult.commute)
  have "wrap64 (sint secs * nano) = sint secs * nano" if "1 \<le> sint secs" "sint secs \<le> 9223372036"
    using that by (intro wrap64_id) simp_all
  moreover have "wrap64 ((2 ^ 63 - 1) * nano) = - nano" by code_simp
  ultimately show ?thesis
    by (auto simp: startingDeadlineSecondsExceeded_def assms Let_def time_after_def add)
qed

end
