(* ===== verification/Choice.thy ===== *)
theory Choice
  imports DecisionBehaviour Reconcile "HOL-Library.Multiset"
begin

text \<open>
  A decision without indices, loops and steps: when the listed jobs have different names, what
  \<^verbatim>\<open>makeDecision\<close> deletes, creates and unsuspends is a function of the jobs themselves
  (\<open>to_delete\<close>, \<open>job_request\<close>, \<open>to_unsuspend\<close>), so the order in which the API server lists them
  does not matter.
\<close>

section \<open>The best job\<close>

lemma better_total:
  "jobName x \<noteq> jobName y \<Longrightarrow> isBetterCandidateJob x y st \<or> isBetterCandidateJob y x st"
  by (auto simp: isBetterCandidateJob_def Let_def)

definition is_best :: "rec_state \<Rightarrow> 'p job set \<Rightarrow> 'p job \<Rightarrow> bool" where
  "is_best st jobs x \<longleftrightarrow> x \<in> jobs \<and> \<not> isExpired st x
     \<and> (\<forall>y \<in> jobs. \<not> isExpired st y \<longrightarrow> y = x \<or> isBetterCandidateJob x y st)"

lemma is_best_unique: "is_best st jobs x \<Longrightarrow> is_best st jobs y \<Longrightarrow> x = y"
  using best.trans best.irrefl unfolding is_best_def by blast

lemma distinct_names: "distinct (map jobName jobs) \<Longrightarrow> distinct jobs"
  by (simp add: distinct_map)

lemma bestCurrent_best:
  assumes "distinct (map jobName jobs)" "bestCurrent st jobs = Some a"
  shows "is_best st (set jobs) (jobs ! a)"
proof -
  note b = bestCurrent_Some [OF assms(2)]
  have "y = jobs ! a \<or> isBetterCandidateJob (jobs ! a) y st" if "y \<in> set jobs" "\<not> isExpired st y" for y
  proof -
    obtain k where k: "k < length jobs" "y = jobs ! k" using \<open>y \<in> set jobs\<close> by (auto simp: in_set_conv_nth)
    show ?thesis
    proof (cases "k = a")
      case False
      then have "jobName y \<noteq> jobName (jobs ! a)"
        using nth_eq_iff_index_eq [OF assms(1)] k b(1) by (metis length_map nth_map)
      then show ?thesis using better_total b(3) k that(2) by blast
    qed (simp add: k)
  qed
  then show ?thesis using b(1,2) by (simp add: is_best_def)
qed

definition chosenJob :: "rec_state \<Rightarrow> 'p job list \<Rightarrow> 'p job option" where
  "chosenJob st jobs = map_option ((!) jobs) (currentChoice st jobs)"

lemma chosenJob_None: "chosenJob st jobs = None \<longleftrightarrow> currentChoice st jobs = None"
  by (simp add: chosenJob_def)

lemma chosenJob_iff:
  assumes "distinct (map jobName jobs)"
  shows "chosenJob st jobs = Some x \<longleftrightarrow> is_best st (set jobs) x \<and> (shouldRun st \<or> IsManuallyScheduledJob x)"
proof
  assume "chosenJob st jobs = Some x"
  then obtain a where a: "currentChoice st jobs = Some a" "x = jobs ! a" by (auto simp: chosenJob_def)
  with currentChoice_Some [OF a(1)] bestCurrent_best [OF assms]
  show "is_best st (set jobs) x \<and> (shouldRun st \<or> IsManuallyScheduledJob x)" by simp
next
  assume x: "is_best st (set jobs) x \<and> (shouldRun st \<or> IsManuallyScheduledJob x)"
  then have "bestCurrent st jobs \<noteq> None" using bestCurrent_None [of st jobs] by (auto simp: is_best_def)
  then obtain a where a: "bestCurrent st jobs = Some a" by blast
  with bestCurrent_best [OF assms] x have "jobs ! a = x" using is_best_unique by metis
  then show "chosenJob st jobs = Some x" using a x by (auto simp: chosenJob_def currentChoice_def)
qed

lemma chosen_index:
  assumes "distinct (map jobName jobs)" "chosenJob st jobs = Some x" "a < length jobs"
  shows "currentChoice st jobs = Some a \<longleftrightarrow> jobs ! a = x"
proof -
  obtain k where k: "currentChoice st jobs = Some k" "x = jobs ! k" using assms(2) by (auto simp: chosenJob_def)
  then have "k < length jobs" using bestCurrent_Some(1) currentChoice_Some(1) by blast
  then show ?thesis
    using k nth_eq_iff_index_eq [OF distinct_names [OF assms(1)] _ assms(3), of k] by auto
qed

section \<open>The reference decision\<close>

text \<open>Whether the chosen job is to be replaced, and the chosen job if it stays.\<close>

definition replaced :: "rec_state \<Rightarrow> bool \<Rightarrow> 'p job \<Rightarrow> bool" where
  "replaced st restart job \<longleftrightarrow> isOutOfDate job st \<and> restart \<and> IsJobPotentiallyRunning job
     \<and> \<not> WasJobStoppedByTheUser job \<and> \<not> IsJobBeingDeleted job"

lemma recreate_due_chosen:
  "recreate_due st restart jobs \<longleftrightarrow> (\<exists>x. chosenJob st jobs = Some x \<and> replaced st restart x)"
  by (auto simp: recreate_due_def chosenJob_def replaced_def)

definition survivor :: "rec_state \<Rightarrow> bool \<Rightarrow> 'p job list \<Rightarrow> 'p job option" where
  "survivor st restart jobs =
     (case chosenJob st jobs of None \<Rightarrow> None | Some x \<Rightarrow> if replaced st restart x then None else Some x)"

definition to_delete :: "rec_state \<Rightarrow> bool \<Rightarrow> 'p job list \<Rightarrow> 'p job \<Rightarrow> bool" where
  "to_delete st restart jobs job \<longleftrightarrow> \<not> IsJobBeingDeleted job
     \<and> (isExpired st job \<or> survivor st restart jobs \<noteq> Some job \<and> \<not> IsJobCompleted job)"

definition can_unsuspend :: "'p job \<Rightarrow> bool" where
  "can_unsuspend job \<longleftrightarrow> IsJobSuspended job \<and> \<not> IsJobBeingDeleted job \<and> \<not> WasJobStoppedByTheUser job"

definition to_unsuspend :: "rec_state \<Rightarrow> bool \<Rightarrow> 'p job list \<Rightarrow> 'p job list" where
  "to_unsuspend st restart jobs =
     (case survivor st restart jobs of
        None \<Rightarrow> []
      | Some job \<Rightarrow> if length (filter IsJobPotentiallyRunning jobs) = 1 \<and> can_unsuspend job then [job] else [])"

definition maxRunId :: "'p job list \<Rightarrow> int" where
  "maxRunId jobs = Max (insert (- 1) (set (List.map_filter
     (\<lambda>job. case GetJobRunId job of Ok r \<Rightarrow> Some r | _ \<Rightarrow> None) jobs)))"

text \<open>The start time, run id and manual flag of the job to create.\<close>

definition job_request :: "rec_state \<Rightarrow> bool \<Rightarrow> 'p job list \<Rightarrow> (gotime \<times> int \<times> bool) option" where
  "job_request st restart jobs =
     (case chosenJob st jobs of
        None \<Rightarrow> if shouldRun st then map_option (\<lambda>s. (s, 0, False)) (rsStartOfCurrentRunPeriod st) else None
      | Some job \<Rightarrow>
          if replaced st restart job
          then (case GetScheduledTime job of
                  Ok t \<Rightarrow> Some (t, wrap64 (maxRunId jobs + 1), IsManuallyScheduledJob job) | _ \<Rightarrow> None)
          else None)"

text \<open>A new job is created unsuspended if nothing else can run.\<close>

definition clear_suspend :: "'p job \<Rightarrow> 'p job" where
  "clear_suspend job = job\<lparr>jobSpec := (jobSpec job)\<lparr>jsSuspend := None\<rparr>\<rparr>"

definition as_created :: "'p job list \<Rightarrow> 'p job \<Rightarrow> 'p job" where
  "as_created jobs job =
     (if list_all IsJobCompleted jobs \<and> can_unsuspend job then clear_suspend job else job)"

section \<open>Equivalence\<close>

lemma set_map_filter: "set (List.map_filter f xs) = {y. \<exists>x \<in> set xs. f x = Some y}"
  by (auto simp: List.map_filter_def) force

lemma runIdLoop_maxRunId: "fst (runIdLoop st jobs [0..<length jobs] (- 1) None) = maxRunId jobs"
proof -
  define m where "m = fst (runIdLoop st jobs [0..<length jobs] (- 1) None)"
  let ?R = "set (List.map_filter (\<lambda>job. case GetJobRunId job of Ok r \<Rightarrow> Some r | _ \<Rightarrow> None) jobs)"
  have "(case GetJobRunId job of Ok r \<Rightarrow> Some r | _ \<Rightarrow> None) = Some r \<longleftrightarrow> GetJobRunId job = Ok r" for job :: "'a job" and r
    by (simp split: outcome.split)
  then have R: "r \<in> ?R \<longleftrightarrow> (\<exists>job \<in> set jobs. GetJobRunId job = Ok r)" for r
    by (simp add: set_map_filter)
  note top = runIdLoop_max [of "- 1" st jobs "[0..<length jobs]" None, folded m_def]
  have "m = - 1 \<or> (\<exists>a < length jobs. GetJobRunId (jobs ! a) = Ok m)" using top by auto
  then have "m \<in> insert (- 1) ?R" unfolding R insert_iff using nth_mem by blast
  moreover have "x \<le> m" if "x \<in> insert (- 1) ?R" for x
  proof -
    from that have "x = - 1 \<or> (\<exists>job \<in> set jobs. GetJobRunId job = Ok x)" by (simp only: insert_iff R)
    then show ?thesis
    proof (elim disjE bexE)
      fix job assume "job \<in> set jobs" "GetJobRunId job = Ok x"
      then obtain a where "a < length jobs" "GetJobRunId (jobs ! a) = Ok x" by (auto simp: in_set_conv_nth)
      then show "x \<le> m" using top by simp
    qed (use top in simp)
  qed
  ultimately have "Max (insert (- 1) ?R) = m" by (intro Max_eqI) (simp only: finite_insert finite_set, blast+)
  then show ?thesis by (simp only: maxRunId_def m_def)
qed

lemma running_count_filter: "running_count jobs = length (filter IsJobPotentiallyRunning jobs)"
proof -
  have "filter IsJobPotentiallyRunning (map ((!) jobs) [0..<length jobs])
    = map ((!) jobs) (filter (\<lambda>a. IsJobPotentiallyRunning (jobs ! a)) [0..<length jobs])"
    by (simp add: filter_map comp_def)
  then show ?thesis by (simp add: running_count_def map_nth)
qed

lemma mset_indices:
  assumes "distinct as" "\<forall>a. a \<in> set as \<longleftrightarrow> a < length jobs \<and> P a" "\<And>a. a < length jobs \<Longrightarrow> P a \<longleftrightarrow> Q (jobs ! a)"
  shows "mset (map ((!) jobs) as) = filter_mset Q (mset jobs)"
proof -
  have "mset as = mset (filter P [0..<length jobs])"
    using assms(1,2) by (intro set_eq_iff_mset_eq_distinct [THEN iffD1]) auto
  then have "mset (map ((!) jobs) as) = mset (map ((!) jobs) (filter P [0..<length jobs]))"
    by (metis mset_map)
  also have "filter P [0..<length jobs] = filter (\<lambda>a. Q (jobs ! a)) [0..<length jobs]"
    using assms(3) by (intro filter_cong) auto
  also have "map ((!) jobs) (filter (\<lambda>a. Q (jobs ! a)) [0..<length jobs]) = filter Q (map ((!) jobs) [0..<length jobs])"
    by (simp add: filter_map comp_def)
  finally show ?thesis by (simp add: map_nth)
qed

text \<open>What the steps after the choice leave, in terms of the jobs.\<close>

lemma decided_survivor:
  assumes "decided env st r now c jobs new d" "new \<noteq> None \<longleftrightarrow> recreate_due st r jobs \<or> shouldRun st \<and> currentChoice st jobs = None"
    and "distinct (map jobName jobs)" "a < length jobs"
  shows "dChosen d = Some a \<longleftrightarrow> survivor st r jobs = Some (jobs ! a)"
proof -
  have ch: "dChosen d = (case new of None \<Rightarrow> currentChoice st jobs | Some j \<Rightarrow> Some (length jobs))"
    using assms(1) unfolding decided_def by blast
  show ?thesis
  proof (cases new)
    case None
    then have "\<not> recreate_due st r jobs" using assms(2) by simp
    then have "survivor st r jobs = chosenJob st jobs"
      by (auto simp: survivor_def recreate_due_chosen split: option.split)
    then show ?thesis
      using ch None chosen_index [OF assms(3) _ assms(4)] by (cases "chosenJob st jobs") (auto simp: chosenJob_None)
  next
    case (Some j)
    then have "survivor st r jobs = None"
      using assms(2) by (auto simp: survivor_def recreate_due_chosen chosenJob_None [symmetric])
    then show ?thesis using ch Some assms(4) by simp
  qed
qed

lemma survivor_listed:
  assumes "survivor st r jobs = Some x"
  shows "x \<in> set jobs" "\<not> isExpired st x" "chosenJob st jobs = Some x"
proof -
  show c: "chosenJob st jobs = Some x" using assms by (auto simp: survivor_def split: option.splits if_splits)
  then obtain a where "currentChoice st jobs = Some a" "x = jobs ! a" by (auto simp: chosenJob_def)
  then show "x \<in> set jobs" "\<not> isExpired st x"
    using bestCurrent_Some(1,2) [OF currentChoice_Some(1), of st jobs a] by simp_all
qed

lemma decision_deletions:
  assumes "makeDecision env w jobs now en = Return d None" "buildState env (cj w) jobs now = Ok st"
    and "\<not> rsIsSuspended st" "distinct (map jobName jobs)"
  shows "mset (jobs_at d (dDelete d)) = filter_mset (to_delete st (en \<and> rsAutoRestartIsEnabled st) jobs) (mset jobs)"
proof -
  let ?r = "en \<and> rsAutoRestartIsEnabled st"
  obtain new d4 where dec: "decided env st ?r now (cj w) jobs new d4"
    "dDelete d = dDelete (deleteStep d4)" "dStore d = dStore (unsuspendStep (deleteStep d4))"
    "new \<noteq> None \<longleftrightarrow> recreate_due st ?r jobs \<or> shouldRun st \<and> currentChoice st jobs = None"
    using decision_cases [OF assms(1-3)] by metis
  have cell: "dStore d ! a = jobs ! a" if "a < length jobs" for a
    using decided_store(1) [OF dec(1) that] that dec(1)
    by (auto simp: dec(3) unsuspendStep_def Let_def decided_def nth_list_update split: option.splits)
  have "jobs_at d (dDelete d) = map ((!) jobs) (dDelete d)"
    using cell deleteStep_set(1) [OF dec(1)] by (auto simp: jobs_at_def dec(2))
  moreover have "mset (map ((!) jobs) (dDelete d)) = filter_mset (to_delete st ?r jobs) (mset jobs)"
    unfolding dec(2)
  proof (rule mset_indices [OF deleteStep_set(2) [OF dec(1)]])
    show "\<forall>a. a \<in> set (dDelete (deleteStep d4)) \<longleftrightarrow> a < length jobs \<and> (\<not> IsJobBeingDeleted (jobs ! a)
      \<and> (isExpired st (jobs ! a) \<or> \<not> (Some a = dChosen d4 \<or> IsJobCompleted (jobs ! a))))"
      using deleteStep_set(1) [OF dec(1)] by auto
  next
    fix a assume "a < length jobs"
    from decided_survivor [OF dec(1,4) assms(4) this]
    show "(\<not> IsJobBeingDeleted (jobs ! a) \<and> (isExpired st (jobs ! a) \<or> \<not> (Some a = dChosen d4 \<or> IsJobCompleted (jobs ! a))))
      \<longleftrightarrow> to_delete st ?r jobs (jobs ! a)"
      by (auto simp: to_delete_def)
  qed
  ultimately show ?thesis by simp
qed

lemma decision_unsuspends:
  assumes "makeDecision env w jobs now en = Return d None" "buildState env (cj w) jobs now = Ok st"
    and "\<not> rsIsSuspended st" "distinct (map jobName jobs)"
  shows "jobs_at d (dUnsuspend d) = to_unsuspend st (en \<and> rsAutoRestartIsEnabled st) jobs"
proof -
  let ?r = "en \<and> rsAutoRestartIsEnabled st"
  obtain new d4 where dec: "decided env st ?r now (cj w) jobs new d4"
    "dUnsuspend d = dUnsuspend (unsuspendStep (deleteStep d4))" "dStore d = dStore (unsuspendStep (deleteStep d4))"
    "new \<noteq> None \<longleftrightarrow> recreate_due st ?r jobs \<or> shouldRun st \<and> currentChoice st jobs = None"
    using decision_cases [OF assms(1-3)] by metis
  note surv = decided_survivor [OF dec(1,4) assms(4)]
  show ?thesis
  proof (cases new)
    case None
    then have d4: "dStore d4 = jobs" "dCreate d4 = []" "dCount d4 = running_count jobs" "dUnsuspend d4 = []"
      "dChosen d4 = currentChoice st jobs" using dec(1) by (simp_all add: decided_def)
    show ?thesis
    proof (cases "dChosen d4")
      case None
      then have "chosenJob st jobs = None" using d4(5) by (simp add: chosenJob_None)
      then have "survivor st ?r jobs = None" by (simp add: survivor_def)
      then show ?thesis
        using None d4 by (simp add: dec(2) unsuspendStep_def to_unsuspend_def jobs_at_def)
    next
      case (Some a)
      have a: "a < length jobs" using bestCurrent_Some(1) [OF currentChoice_Some(1)] Some d4(5) by metis
      with surv [OF a] Some show ?thesis
        using d4 by (simp add: dec(2,3) unsuspendStep_def Let_def to_unsuspend_def jobs_at_def can_unsuspend_def
            running_count_filter)
    qed
  next
    case (Some j)
    then have d4: "dCreate d4 = [length jobs]" "dChosen d4 = Some (length jobs)" "dUnsuspend d4 = []"
      using dec(1) by (simp_all add: decided_def)
    have "survivor st ?r jobs = None"
      using dec(4) Some by (auto simp: survivor_def recreate_due_chosen chosenJob_None [symmetric])
    then show ?thesis using d4 by (simp add: dec(2) unsuspendStep_def Let_def to_unsuspend_def jobs_at_def)
  qed
qed

lemma decision_creates:
  assumes "makeDecision env w jobs now en = Return d None" "buildState env (cj w) jobs now = Ok st"
    and "\<not> rsIsSuspended st"
  shows "case job_request st (en \<and> rsAutoRestartIsEnabled st) jobs of
      None \<Rightarrow> dCreate d = []
    | Some (t, i, manual) \<Rightarrow> \<exists>c' job. same_but_status (cj w) c' \<and> buildJob (opJobs env) c' t i manual True = Ok job
        \<and> jobs_at d (dCreate d) = [as_created jobs job]"
proof -
  let ?r = "en \<and> rsAutoRestartIsEnabled st"
  obtain new d4 where dec: "decided env st ?r now (cj w) jobs new d4"
    "dCreate d = dCreate d4" "dStore d = dStore (unsuspendStep (deleteStep d4))"
    "new \<noteq> None \<longleftrightarrow> recreate_due st ?r jobs \<or> shouldRun st \<and> currentChoice st jobs = None"
    using decision_cases [OF assms] by metis
  show ?thesis
  proof (cases new)
    case None
    then have "job_request st ?r jobs = None"
      using dec(4) by (auto simp: job_request_def recreate_due_chosen chosenJob_None [symmetric] split: option.split)
    then show ?thesis using None dec(1) by (simp add: dec(2) decided_def)
  next
    case (Some j)
    then have d4: "dStore d4 = jobs @ [j]" "dCreate d4 = [length jobs]" "dChosen d4 = Some (length jobs)"
      "dCount d4 = running_count jobs + 1" "dUnsuspend d4 = []"
      "recreated env st ?r (cj w) jobs j \<or> started env st now (cj w) jobs j"
      using dec(1) by (simp_all add: decided_def)
    have "running_count jobs = 0 \<longleftrightarrow> list_all IsJobCompleted jobs" by (simp add: running_count_iff list_all_iff)
    then have created: "jobs_at d (dCreate d) = [as_created jobs j]"
      using d4 by (auto simp: dec(2,3) jobs_at_def unsuspendStep_def Let_def as_created_def can_unsuspend_def clear_suspend_def)
    from d4(6) show ?thesis
    proof
      assume rec: "recreated env st ?r (cj w) jobs j"
      then obtain a c' where a: "currentChoice st jobs = Some a" "replaced st ?r (jobs ! a)" "same_but_status (cj w) c'"
        "RecreateJobWithNewSpec (opJobs env) (jobs ! a) c' (wrap64 (maxRunId jobs + 1)) True = Ok j"
        unfolding recreated_def replaced_def runIdLoop_maxRunId by blast
      then obtain t where "GetScheduledTime (jobs ! a) = Ok t"
        "buildJob (opJobs env) c' t (wrap64 (maxRunId jobs + 1)) (IsManuallyScheduledJob (jobs ! a)) True = Ok j"
        by (auto simp: RecreateJobWithNewSpec_def outcome_eqs)
      moreover have "chosenJob st jobs = Some (jobs ! a)" using a(1) by (simp add: chosenJob_def)
      ultimately have "job_request st ?r jobs = Some (t, wrap64 (maxRunId jobs + 1), IsManuallyScheduledJob (jobs ! a))"
        using a(2) by (simp add: job_request_def)
      then show ?thesis using created a(3) \<open>buildJob _ _ _ _ _ _ = _\<close> by auto
    next
      assume "started env st now (cj w) jobs j"
      then obtain s c' where "currentChoice st jobs = None" "shouldRun st" "rsStartOfCurrentRunPeriod st = Some s"
        "same_but_status (cj w) c'" "buildJob (opJobs env) c' s 0 False True = Ok j"
        by (auto simp: started_def BuildForControlledJob_def)
      moreover from this have "job_request st ?r jobs = Some (s, 0, False)"
        by (simp add: job_request_def chosenJob_None [symmetric])
      ultimately show ?thesis using created by auto
    qed
  qed
qed

section \<open>Order\<close>

lemma reference_perm:
  assumes "mset jobs' = mset jobs" "distinct (map jobName jobs)"
  shows "chosenJob st jobs' = chosenJob st jobs" "to_delete st r jobs' = to_delete st r jobs"
    "to_unsuspend st r jobs' = to_unsuspend st r jobs" "job_request st r jobs' = job_request st r jobs"
    "as_created jobs' = as_created jobs"
proof -
  have d': "distinct (map jobName jobs')"
    using assms by (metis mset_map mset_eq_imp_distinct_iff)
  have s: "set jobs' = set jobs" using assms(1) by (rule mset_eq_setD)
  show c: "chosenJob st jobs' = chosenJob st jobs"
    using chosenJob_iff [OF assms(2), of st] chosenJob_iff [OF d', of st] s by (metis not_Some_eq)
  then have v: "survivor st r jobs' = survivor st r jobs" by (simp add: survivor_def)
  then show "to_delete st r jobs' = to_delete st r jobs" by (intro ext) (simp add: to_delete_def)
  have "length (filter IsJobPotentiallyRunning jobs') = length (filter IsJobPotentiallyRunning jobs)"
    using assms(1) by (metis mset_filter size_mset)
  then show "to_unsuspend st r jobs' = to_unsuspend st r jobs" 
    by (simp add: to_unsuspend_def v split: option.split)
  have "maxRunId jobs' = maxRunId jobs" by (simp add: maxRunId_def set_map_filter s)
  then show "job_request st r jobs' = job_request st r jobs" 
    by (simp add: job_request_def c split: option.split outcome.split)
  show "as_created jobs' = as_created jobs" by (intro ext) (simp add: as_created_def list_all_iff s)
qed

section \<open>Properties\<close>

text \<open>
  C8: \<^verbatim>\<open>makeDecision\<close> agrees with the reference decision. For listed jobs with different names, a
  successful decision that is not suspended deletes exactly the jobs \<open>to_delete\<close> selects, each
  once, unsuspends what \<open>to_unsuspend\<close> gives, suspends nothing, and creates a job exactly if
  \<open>job_request\<close> asks for one: the one the builder makes of the requested start time, run id and
  manual flag, suspended unless every listed job is completed.
\<close>

theorem decision_reference:
  assumes "makeDecision env w jobs now en = Return d None" "buildState env (cj w) jobs now = Ok st"
    and "\<not> rsIsSuspended st" "distinct (map jobName jobs)"
  shows "mset (jobs_at d (dDelete d)) = filter_mset (to_delete st (en \<and> rsAutoRestartIsEnabled st) jobs) (mset jobs)
    \<and> jobs_at d (dUnsuspend d) = to_unsuspend st (en \<and> rsAutoRestartIsEnabled st) jobs \<and> dSuspend d = []
    \<and> (case job_request st (en \<and> rsAutoRestartIsEnabled st) jobs of
         None \<Rightarrow> dCreate d = []
       | Some (t, i, manual) \<Rightarrow> \<exists>c' job. same_but_status (cj w) c' \<and> buildJob (opJobs env) c' t i manual True = Ok job
           \<and> jobs_at d (dCreate d) = [as_created jobs job])"
proof -
  have "dSuspend d = []" using decision_cases [OF assms(1-3)] by metis
  then show ?thesis
    using decision_deletions [OF assms] decision_unsuspends [OF assms] decision_creates [OF assms(1-3)] by blast
qed

text \<open>
  Documented of \<^verbatim>\<open>SetControllerReference\<close>: the reference it writes identifies the owner, so it
  does not depend on the owner's status.
\<close>

definition status_blind :: "'p job_env \<Rightarrow> bool" where
  "status_blind env \<longleftrightarrow>
     (\<forall>c c' job. same_but_status c c' \<longrightarrow> jeSetControllerReference env c' job = jeSetControllerReference env c job)"

lemma buildJob_blind:
  assumes "status_blind env" "same_but_status c c'"
  shows "buildJob env c' t i manual susp = buildJob env c t i manual susp"
proof -
  note f = same_but_status_fields [OF assms(2)]
  have "newJobFor env c' t i manual susp = newJobFor env c t i manual susp"
    by (simp add: newJobFor_def jobAnnotationsFor_def f)
  then show ?thesis using assms by (simp add: buildJob_def status_blind_def wantsMutations_def f)
qed

text \<open>
  C16: The order in which the jobs are listed does not matter. Two successful decisions on the same
  jobs (with different names) in different orders delete, create and unsuspend the same jobs.
\<close>

theorem decision_order_independent:
  assumes "makeDecision env w jobs now en = Return d None" "makeDecision env w jobs' now en = Return d' None"
    and "mset jobs' = mset jobs" "distinct (map jobName jobs)" "csSuspend (cjSpec (cj w)) \<noteq> Some True"
    and "status_blind (opJobs env)"
  shows "mset (jobs_at d' (dDelete d')) = mset (jobs_at d (dDelete d))
    \<and> jobs_at d' (dCreate d') = jobs_at d (dCreate d) \<and> jobs_at d' (dUnsuspend d') = jobs_at d (dUnsuspend d)"
proof -
  have len: "length jobs' = length jobs" using assms(3) by (rule mset_eq_length)
  obtain st where st: "buildState env (cj w) jobs now = Ok st"
    using assms(1) by (cases "buildState env (cj w) jobs now") (simp_all add: makeDecision_def Let_def)
  then have st': "buildState env (cj w) jobs' now = Ok st" by (simp add: buildState_def len)
  have running: "\<not> rsIsSuspended st" using buildState_fields(2) [OF st] assms(5) by simp
  have names': "distinct (map jobName jobs')" using assms(3,4) by (metis mset_map mset_eq_imp_distinct_iff)
  let ?r = "en \<and> rsAutoRestartIsEnabled st"
  note perm = reference_perm [OF assms(3,4)]
  note one = decision_deletions [OF assms(1) st running assms(4)] decision_unsuspends [OF assms(1) st running assms(4)]
    decision_creates [OF assms(1) st running]
  note two = decision_deletions [OF assms(2) st' running names'] decision_unsuspends [OF assms(2) st' running names']
    decision_creates [OF assms(2) st' running]
  have "jobs_at d' (dCreate d') = jobs_at d (dCreate d)"
  proof (cases "job_request st ?r jobs")
    case None
    then show ?thesis using one(3) two(3) by (simp add: perm jobs_at_def)
  next
    case (Some req)
    obtain t i manual where req: "req = (t, i, manual)" by (cases req)
    obtain c1 j1 where 1: "same_but_status (cj w) c1" "buildJob (opJobs env) c1 t i manual True = Ok j1"
      "jobs_at d (dCreate d) = [as_created jobs j1]" using one(3) Some req by auto
    obtain c2 j2 where 2: "same_but_status (cj w) c2" "buildJob (opJobs env) c2 t i manual True = Ok j2"
      "jobs_at d' (dCreate d') = [as_created jobs j2]" using two(3) Some req by (auto simp: perm)
    have "j1 = j2" using 1(2) 2(2) buildJob_blind [OF assms(6) 1(1)] buildJob_blind [OF assms(6) 2(1)] by simp
    then show ?thesis using 1(3) 2(3) by simp
  qed
  then show ?thesis using one(1,2) two(1,2) by (simp add: perm assms(3))
qed

text \<open>Names are compared as text, so run id 10 comes before 2 to 9.\<close>

lemma append_less: "(xs :: string) @ ys < xs @ zs \<longleftrightarrow> ys < zs"
  by (induction xs) simp_all

lemma itoa_ten_less:
  assumes "2 \<le> i" "i \<le> 9"
  shows "itoa 10 < itoa i"
proof -
  have "i \<in> {2, 3, 4, 5, 6, 7, 8, 9}" using assms by auto
  then show ?thesis by (elim insertE; simp; code_simp)
qed

lemma JobName_ten_less: "2 \<le> i \<Longrightarrow> i \<le> 9 \<Longrightarrow> JobName n t 10 < JobName n t i"
  by (simp add: JobName_def append_less itoa_ten_less)

text \<open>
  C17: The eleventh run of a period. Inside a run period, let a job with run id 2 to 9 be completed
  and the user start a new one with run id 10 for the same start time, both up to date. The
  completed job is chosen, because its name is the greater one, and the decision deletes the
  job that runs.
\<close>

theorem decision_tenth_run:
  assumes "makeDecision env w [old, job] now en = Return d None" "buildState env (cj w) [old, job] now = Ok st"
    and "\<not> rsIsSuspended st" "shouldRun st" "\<not> isExpired st old" "\<not> isExpired st job"
    and "jobName old = JobName n t i" "2 \<le> i" "i \<le> 9" "jobName job = JobName n t 10"
    and "IsJobCompleted old" "\<not> IsJobCompleted job" "\<not> IsJobBeingDeleted old" "\<not> IsJobBeingDeleted job"
    and "annotation old TemplateHashAnnotation = rsDesiredHash st" "annotation job TemplateHashAnnotation = rsDesiredHash st"
  shows "jobs_at d (dDelete d) = [job] \<and> dCreate d = []"
proof -
  have less: "jobName job < jobName old" using assms(7-10) by (simp add: JobName_ten_less)
  then have names: "distinct (map jobName [old, job])" by auto
  have "is_best st (set [old, job]) old"
    using assms less by (simp add: is_best_def isBetterCandidateJob_def)
  then have chosen: "chosenJob st [old, job] = Some old" using chosenJob_iff [OF names] assms(4) by blast
  have "\<not> replaced st r old" for r using assms(11) by (simp add: replaced_def IsJobPotentiallyRunning_def)
  then have surv: "survivor st r [old, job] = Some old" "job_request st r [old, job] = None" for r
    using chosen by (simp_all add: survivor_def job_request_def)
  have "old \<noteq> job" using less by auto
  then have "mset (jobs_at d (dDelete d)) = {#job#}"
    using decision_deletions [OF assms(1-3) names] assms(5,6,11-14) by (auto simp: to_delete_def surv)
  then show ?thesis using decision_creates [OF assms(1-3)] by (simp add: surv)
qed

end
