(* ===== verification/Fleet.thy ===== *)
theory Fleet
  imports RunRefinement Choice
begin

text \<open>
  Many ControlledJobs at once. \<^verbatim>\<open>main.go\<close> lets the manager run several reconciles at a time
  (\<^verbatim>\<open>--concurrency\<close>), of different ControlledJobs: the work queue never hands out a name twice. All
  their jobs are in one store, where a run lists those of its namespace that the owner index of
  \<^verbatim>\<open>SetupWithManager\<close> files under its name. A state is the store and, per ControlledJob, the
  calls its run has still to make; the calls of different runs interleave in any order.
\<close>

section \<open>Owners\<close>

definition owned_by :: "namespaced_name \<Rightarrow> 'p job \<Rightarrow> bool" where
  "owned_by t job \<longleftrightarrow> jobNamespace job = fst t \<and> jobOwnerIndex job = [snd t]"

definition owned :: "namespaced_name \<Rightarrow> 'p job list \<Rightarrow> 'p job list" where
  "owned t jobs = filter (owned_by t) jobs"

lemma owned_unique: "owned_by t job \<Longrightarrow> owned_by t' job \<longleftrightarrow> t' = t"
  by (cases t, cases t') (auto simp: owned_by_def)

lemma owned_simps [simp]:
  "owned t [] = []" "owned t (xs @ ys) = owned t xs @ owned t ys"
  "owned t [job] = (if owned_by t job then [job] else [])"
  by (simp_all add: owned_def)

lemma owned_by_frames [simp]:
  "owned_by t (set_suspend b job) = owned_by t job" "owned_by t (clear_suspend job) = owned_by t job"
  "owned_by t (job\<lparr>jobSpec := spec\<rparr>) = owned_by t job" "owned_by t (job\<lparr>jobDeletionTimestamp := d\<rparr>) = owned_by t job"
  by (simp_all add: owned_by_def jobOwnerIndex_def GetControllerOf_def set_suspend_def clear_suspend_def)

text \<open>
  Documented of \<^verbatim>\<open>SetControllerReference\<close>: the reference it sets makes the ControlledJob the
  controller. Mutators are asked to leave it.
\<close>

definition sets_controller :: "'p job_env \<Rightarrow> bool" where
  "sets_controller env \<longleftrightarrow>
     (\<forall>c job job'. jeSetControllerReference env c job = Ok job' \<longrightarrow> jobOwnerIndex job' = [cjName c])"

definition mutators_keep_owner :: "'p job_env \<Rightarrow> bool" where
  "mutators_keep_owner env \<longleftrightarrow>
     (\<forall>name m job job'. jeMutators env name = Some m \<longrightarrow> mutApply m job = Ok job' \<longrightarrow> jobOwnerIndex job' = jobOwnerIndex job)"

definition object_name :: "'p controlled_job \<Rightarrow> namespaced_name" where
  "object_name c = (cjNamespace c, cjName c)"

lemma applyMutators_owner:
  assumes "mutators_keep_owner env" "applyMutators (jeMutators env) names job = Ok job'"
  shows "jobOwnerIndex job' = jobOwnerIndex job"
  using assms(2)
proof (induction names arbitrary: job)
  case (Cons name names)
  show ?case
  proof (cases "jeMutators env name")
    case None
    then show ?thesis using Cons by simp
  next
    case (Some m)
    obtain j where j: "mutApply m job = Ok j" "applyMutators (jeMutators env) names j = Ok job'"
      using Cons.prems Some by (cases "mutApply m job") (simp_all add: wrap_err_def)
    then show ?thesis using Cons.IH [OF j(2)] Some assms(1) by (auto simp: mutators_keep_owner_def)
  qed
qed simp

lemma buildJob_owned:
  assumes "only_owner_references env" "benign_mutators env" "sets_controller env" "mutators_keep_owner env"
    and "buildJob env c t i manual susp = Ok job"
  shows "owned_by (object_name c) job"
proof -
  have "jobNamespace job = cjNamespace c"
    using view_readers(10) [OF buildJob_view [OF assms(1,2,5)]] by (simp add: newJobFor_readers)
  moreover obtain j where "jeSetControllerReference env c (newJobFor env c t i manual susp) = Ok j"
    "(if wantsMutations c then applyMutators (jeMutators env) (jeMutatorOrder env) j else Ok j) = Ok job"
    using assms(5) by (cases "jeSetControllerReference env c (newJobFor env c t i manual susp)") (simp_all add: buildJob_def)
  then have "jobOwnerIndex job = [cjName c]"
    using applyMutators_owner [OF assms(4)] assms(3) by (auto simp: sets_controller_def split: if_splits)
  ultimately show ?thesis by (simp add: owned_by_def object_name_def)
qed

section \<open>The calls of a run are about its own jobs\<close>

primrec concerns :: "namespaced_name \<Rightarrow> 'p client_call \<Rightarrow> bool" where
  "concerns t (CallUpdateStatus c) = True"
| "concerns t (CallCreate job) = owned_by t job"
| "concerns t (CallSuspend job) = True"
| "concerns t (CallUnsuspend job) = owned_by t job"
| "concerns t (CallDelete job) = True"

lemma planned_concerns:
  assumes "makeDecision env w listed now en = Return d None" "\<forall>job \<in> set listed. owned_by (object_name (cj w)) job"
    and "only_owner_references (opJobs env)" "benign_mutators (opJobs env)"
    and "sets_controller (opJobs env)" "mutators_keep_owner (opJobs env)"
  shows "\<forall>call \<in> set (planned d). concerns (object_name (cj w)) call"
proof -
  obtain st where st: "buildState env (cj w) listed now = Ok st"
    using assms(1) by (cases "buildState env (cj w) listed now") (simp_all add: makeDecision_def Let_def)
  have "(\<forall>job \<in> set (jobs_at d (dCreate d)). owned_by (object_name (cj w)) job)
      \<and> (\<forall>job \<in> set (jobs_at d (dUnsuspend d)). owned_by (object_name (cj w)) job)"
  proof (cases "rsIsSuspended st")
    case True
    then have "dCreate d = []" "dUnsuspend d = []"
      using assms(1) st by (auto simp: makeDecision_def Let_def decideSuspended_def initial_decision_def)
    then show ?thesis by (simp add: jobs_at_def)
  next
    case False
    note one = single_runner [OF assms(1) st False assms(3,4)]
    have "owned_by (object_name (cj w)) (dStore d ! a)" if "a \<in> set (dUnsuspend d)" for a
      using one(3) [OF that] assms(2) by auto
    moreover have "owned_by (object_name (cj w)) job" if created: "job \<in> set (jobs_at d (dCreate d))" for job
    proof -
      obtain t i manual where "job_request st (en \<and> rsAutoRestartIsEnabled st) listed = Some (t, i, manual)"
        using decision_creates [OF assms(1) st False] created
        by (cases "job_request st (en \<and> rsAutoRestartIsEnabled st) listed") (auto simp: jobs_at_def)
      then obtain c' built where built: "same_but_status (cj w) c'" "buildJob (opJobs env) c' t i manual True = Ok built"
        "job = as_created listed built"
        using decision_creates [OF assms(1) st False] created by auto
      have "object_name c' = object_name (cj w)" using built(1) by (simp add: object_name_def same_but_status_def)
      then show ?thesis using buildJob_owned [OF assms(3-6) built(2)] by (simp add: as_created_def built(3))
    qed
    ultimately show ?thesis by (auto simp: jobs_at_def)
  qed
  then show ?thesis by (auto simp: planned_def)
qed

section \<open>Steps\<close>

text \<open>
  What the API documents, as for one ControlledJob (\<open>documented_change\<close>); a created job is stored in
  the namespace and with the owners it was sent with.
\<close>

definition may_change :: "'p client_call \<Rightarrow> 'p job list \<Rightarrow> 'p job list \<Rightarrow> bool" where
  "may_change call jobs jobs' \<longleftrightarrow> jobs' = jobs \<or> documented_change call jobs jobs'"

definition store_documented :: "('p client_call \<Rightarrow> 'p job list \<Rightarrow> 'p job list \<Rightarrow> bool) \<Rightarrow> bool" where
  "store_documented effect \<longleftrightarrow> (\<forall>call jobs jobs'. effect call jobs jobs' \<longrightarrow> may_change call jobs jobs')
     \<and> (\<forall>job jobs job' t. effect (CallCreate job) jobs (jobs @ [job']) \<longrightarrow> owned_by t job' = owned_by t job)"

type_synonym 'p fleet = "'p job list \<times> (namespaced_name \<Rightarrow> 'p client_call list)"

inductive fleet_step ::
  "'p op_env \<Rightarrow> ('p client_call \<Rightarrow> 'p job list \<Rightarrow> 'p job list \<Rightarrow> bool) \<Rightarrow> 'p fleet \<Rightarrow> 'p fleet \<Rightarrow> bool"
  for env effect where
  decide: "object_name (cj w) = t \<Longrightarrow> pending t = [] \<Longrightarrow> \<forall>job \<in> set listed. owned_by t job \<Longrightarrow>
    runners (owned t jobs) \<le> runners listed \<Longrightarrow> makeDecision env w listed now en = Return d None \<Longrightarrow>
    fleet_step env effect (jobs, pending) (jobs, pending(t := planned d))"
| call: "pending t = c # calls \<Longrightarrow> effect c jobs jobs' \<Longrightarrow>
    fleet_step env effect (jobs, pending) (jobs', pending(t := calls))"
| stop: "fleet_step env effect (jobs, pending) (jobs, pending(t := []))"
| outside: "\<forall>t. runners (owned t jobs') \<le> runners (owned t jobs) \<Longrightarrow>
    fleet_step env effect (jobs, pending) (jobs', pending)"

inductive fleet_reachable ::
  "'p op_env \<Rightarrow> ('p client_call \<Rightarrow> 'p job list \<Rightarrow> 'p job list \<Rightarrow> bool) \<Rightarrow> 'p fleet \<Rightarrow> 'p fleet \<Rightarrow> bool"
  for env effect s0 where
  start: "fleet_reachable env effect s0 s0"
| step: "fleet_reachable env effect s0 s \<Longrightarrow> fleet_step env effect s s' \<Longrightarrow> fleet_reachable env effect s0 s'"

section \<open>The view of one ControlledJob\<close>

lemma filter_update:
  assumes "a < length xs" "P y = P (xs ! a)"
  shows "P y \<Longrightarrow> \<exists>b < length (filter P xs). filter P xs ! b = xs ! a \<and> filter P (xs[a := y]) = (filter P xs)[b := y]"
    and "\<not> P y \<Longrightarrow> filter P (xs[a := y]) = filter P xs"
proof -
  have xs: "filter P xs = filter P (take a xs) @ filter P [xs ! a] @ filter P (drop (Suc a) xs)"
    unfolding filter_append [symmetric] using id_take_nth_drop [OF assms(1)] by simp
  have upd: "filter P (xs[a := y]) = filter P (take a xs) @ filter P [y] @ filter P (drop (Suc a) xs)"
    using assms(1) by (simp add: upd_conv_take_nth_drop)
  show "\<not> P y \<Longrightarrow> filter P (xs[a := y]) = filter P xs" using assms(2) xs upd by simp
  show "P y \<Longrightarrow> \<exists>b < length (filter P xs). filter P xs ! b = xs ! a \<and> filter P (xs[a := y]) = (filter P xs)[b := y]"
    using assms(2) unfolding xs upd by (intro exI [of _ "length (filter P (take a xs))"]) simp
qed

text \<open>A call changes the jobs of its own ControlledJob as documented, and lets no job of another run.\<close>

lemma call_update_view:
  assumes "a < length jobs" "owned_by t job = owned_by t (jobs ! a)"
  shows "owned t (jobs[a := job]) = owned t jobs
    \<or> (\<exists>b < length (owned t jobs). owned t jobs ! b = jobs ! a \<and> owned t (jobs[a := job]) = (owned t jobs)[b := job])"
  using filter_update [OF assms] unfolding owned_def by blast

lemma spec_update_owner: "j\<lparr>jobSpec := jobSpec job\<rparr> = job \<Longrightarrow> owned_by t job = owned_by t j"
  by (metis owned_by_frames(3))

lemma own_call:
  assumes "store_documented effect" "effect c jobs jobs'"
  shows "may_change c (owned t jobs) (owned t jobs')"
proof (cases "jobs' = jobs")
  case True
  then show ?thesis by (simp add: may_change_def)
next
  case False
  then have doc: "documented_change c jobs jobs'" using assms by (auto simp: store_documented_def may_change_def)
  show ?thesis
  proof (cases c)
    case (CallCreate job)
    then obtain job' where "jobs' = jobs @ [job']" "jsSuspend (jobSpec job') = jsSuspend (jobSpec job)" using doc by auto
    then show ?thesis using CallCreate by (simp add: may_change_def)
  next
    case (CallSuspend job)
    then obtain a where a: "a < length jobs" "(jobs ! a)\<lparr>jobSpec := jobSpec job\<rparr> = job" "jobs' = jobs[a := set_suspend True job]"
      using doc by auto
    then show ?thesis
      using call_update_view [OF a(1), of t "set_suspend True job"] spec_update_owner [OF a(2)] CallSuspend
      by (auto simp: may_change_def)
  next
    case (CallUnsuspend job)
    then obtain a where a: "a < length jobs" "(jobs ! a)\<lparr>jobSpec := jobSpec job\<rparr> = job" "jobs' = jobs[a := set_suspend False job]"
      using doc by auto
    then show ?thesis
      using call_update_view [OF a(1), of t "set_suspend False job"] spec_update_owner [OF a(2)] CallUnsuspend
      by (auto simp: may_change_def)
  next
    case (CallDelete job)
    then consider keep where "jobs' = filter keep jobs"
      | a d where "a < length jobs" "jobs' = jobs[a := (jobs ! a)\<lparr>jobDeletionTimestamp := Some d\<rparr>]"
      using doc by auto
    then show ?thesis
    proof cases
      case (1 keep)
      then have "owned t jobs' = filter keep (owned t jobs)" by (simp add: owned_def conj_commute)
      then show ?thesis using CallDelete by (auto simp: may_change_def)
    next
      case (2 a d)
      then show ?thesis
        using call_update_view [OF 2(1), of t "(jobs ! a)\<lparr>jobDeletionTimestamp := Some d\<rparr>"] CallDelete
        by (fastforce simp: may_change_def)
    qed
  qed (use doc in simp)
qed

lemma other_call:
  assumes "store_documented effect" "effect c jobs jobs'" "concerns t c" "t' \<noteq> t"
  shows "runners (owned t' jobs') \<le> runners (owned t' jobs)"
proof -
  have change: "may_change c (owned t' jobs) (owned t' jobs')" by (rule own_call [OF assms(1,2)])
  show ?thesis
  proof (cases "owned t' jobs' = owned t' jobs")
    case False
    then have doc: "documented_change c jobs jobs'"
      using assms(1,2) by (auto simp: store_documented_def may_change_def)
    have "\<not> risky c"
    proof
      assume "risky c"
      then consider job where "c = CallCreate job" | job where "c = CallUnsuspend job" by (cases c) auto
      then show False
      proof cases
        case (1 job)
        moreover from this obtain job' where stored: "jobs' = jobs @ [job']" using doc by auto
        ultimately have "owned_by t' job' = owned_by t' job"
          using assms(1,2) unfolding store_documented_def by blast
        moreover have "\<not> owned_by t' job" using 1 assms(3,4) owned_unique [of t job t'] by simp
        ultimately show False using False stored by simp
      next
        case (2 job)
        moreover from this obtain a where a: "a < length jobs" "(jobs ! a)\<lparr>jobSpec := jobSpec job\<rparr> = job"
          "jobs' = jobs[a := set_suspend False job]" using doc by auto
        ultimately have "\<not> owned_by t' job" using assms(3,4) owned_unique [of t job t'] by simp
        then show False
          using filter_update(2) [OF a(1), of "owned_by t'" "set_suspend False job"] spec_update_owner [OF a(2)] a(3) False
          by (simp add: owned_def)
      qed
    qed
    moreover have "api_documented may_change" by (simp add: api_documented_def may_change_def)
    ultimately show ?thesis using effect_runners [where effect = may_change, OF _ change] by simp
  qed simp
qed

definition view_of :: "namespaced_name \<Rightarrow> 'p fleet \<Rightarrow> 'p job list \<times> 'p client_call list" where
  "view_of t s = (owned t (fst s), snd s t)"

definition all_concern :: "'p fleet \<Rightarrow> bool" where
  "all_concern s \<longleftrightarrow> (\<forall>t. \<forall>call \<in> set (snd s t). concerns t call)"

lemma all_concern_iff: "all_concern (jobs, pending) \<longleftrightarrow> (\<forall>t call. call \<in> set (pending t) \<longrightarrow> concerns t call)"
  by (auto simp: all_concern_def simp del: split_paired_All)

definition owners_documented :: "'p job_env \<Rightarrow> bool" where
  "owners_documented env \<longleftrightarrow> only_owner_references env \<and> benign_mutators env \<and> sets_controller env \<and> mutators_keep_owner env"

lemma step_concerns:
  assumes "fleet_step env effect s s'" "all_concern s" "owners_documented (opJobs env)"
  shows "all_concern s'"
  using assms(1)
proof cases
  case (decide w t pending listed jobs now en d)
  have "\<forall>call \<in> set (planned d). concerns (object_name (cj w)) call"
    using planned_concerns [OF decide(7)] decide(5) assms(3) by (simp add: owners_documented_def decide(3))
  then show ?thesis using decide(1-3) assms(2) by (auto simp: all_concern_iff simp del: split_paired_All)
next
  case (call pending t c calls jobs jobs')
  then have "set calls \<subseteq> set (pending t)" by auto
  then show ?thesis using call(1,2) assms(2) by (auto simp: all_concern_iff simp del: split_paired_All)
qed (use assms(2) in \<open>auto simp: all_concern_iff simp del: split_paired_All\<close>)

text \<open>Each step of the fleet is, to each of its ControlledJobs, a step of its own cluster.\<close>

lemma fleet_step_view:
  assumes "fleet_step env effect s s'" "all_concern s" "store_documented effect"
  shows "cluster_step env may_change (view_of t s) (view_of t s')"
  using assms(1)
proof cases
  case (decide w t' pending listed jobs now en d)
  show ?thesis
  proof (cases "t = t'")
    case True
    then show ?thesis
      using cluster_step.decide [OF decide(7,6), of may_change] decide(1,2,4) by (simp add: view_of_def)
  next
    case False
    then show ?thesis using decide(1,2) cluster_step.outside [OF order_refl] by (simp add: view_of_def)
  qed
next
  case (call pending t' c calls jobs jobs')
  show ?thesis
  proof (cases "t = t'")
    case True
    then show ?thesis
      using cluster_step.call [where effect = may_change, OF own_call [OF assms(3) call(4)]] call(1-3) by (simp add: view_of_def)
  next
    case False
    have "concerns t' c" using assms(2) call(1,3) by (simp add: all_concern_iff del: split_paired_All)
    then show ?thesis
      using cluster_step.outside [OF other_call [OF assms(3) call(4) _ False]] call(1,2) False by (simp add: view_of_def)
  qed
next
  case (stop jobs pending t')
  then show ?thesis
    using cluster_step.stop [of env may_change] cluster_step.outside [OF order_refl] by (cases "t = t'") (simp_all add: view_of_def)
next
  case (outside jobs' jobs pending)
  then show ?thesis using cluster_step.outside [OF spec [OF outside(3), of t]] by (simp add: view_of_def)
qed

lemma fleet_views:
  assumes "fleet_reachable env effect s0 s" "all_concern s0" "store_documented effect" "owners_documented (opJobs env)"
  shows "all_concern s" "reachable env may_change (view_of t s0) (view_of t s)"
  using assms(1)
proof induction
  case start
  show "all_concern s0" "reachable env may_change (view_of t s0) (view_of t s0)" by (rule assms(2), rule reachable.start)
next
  case (step s s')
  show "all_concern s'" by (rule step_concerns [OF step(2,3) assms(4)])
  show "reachable env may_change (view_of t s0) (view_of t s')"
    by (rule reachable.step [OF step(4) fleet_step_view [OF step(2,3) assms(3)]])
qed

section \<open>Runs of \<open>Reconcile\<close> in a fleet\<close>

text \<open>
  The contract of the client with all runs: what is read under a name is the ControlledJob of that
  name, a listing for it has only jobs it owns, and the calls do what the API documents.
\<close>

locale fleet_client =
  fixes client :: "('p, 's) job_client" and recorder :: "('p, 's) recorder" and jobs_of :: "'s \<Rightarrow> 'p job list"
  assumes each: "store_client client recorder t jobs_of"
    and named: "fst (GetControlledJob client t s) = (Some c, True, err) \<Longrightarrow> object_name c = t"
    and lists_owned: "fst (ListJobsForControlledJob client t s) = (jobs, None) \<Longrightarrow> \<forall>job \<in> set jobs. owned_by t job"
    and changes: "store_documented (client_effect client jobs_of)"
begin

lemma load_owned:
  assumes "loadFromCluster client t s = ((Some (c, jobs), None), s1)"
  shows "object_name c = t" "\<forall>job \<in> set jobs. owned_by t job"
proof -
  obtain cj ok err s0 where g: "GetControlledJob client t s = ((cj, ok, err), s0)" by (metis prod.collapse)
  obtain js lerr s2 where l: "ListJobsForControlledJob client t s0 = ((js, lerr), s2)" by (metis prod.collapse)
  have "ok" "cj = Some c" "lerr = None" "js = jobs"
    using assms by (auto simp: loadFromCluster_def g l split: if_splits option.splits)
  then show "object_name c = t" "\<forall>job \<in> set jobs. owned_by t job"
    using named [of t s c err] lists_owned [of t s0 jobs] by (simp_all add: g l)
qed

lemma decides_owned:
  assumes "run_decides env t now s c listed d" "reClient env = client" "owners_documented (opJobs (reOp env))"
  shows "object_name c = t" "\<forall>job \<in> set listed. owned_by t job" "\<forall>call \<in> set (planned d). concerns t call"
proof -
  show own: "object_name c = t" "\<forall>job \<in> set listed. owned_by t job"
    using load_owned [of t s c listed] assms(1) unfolding run_decides_def assms(2) by blast+
  show "\<forall>call \<in> set (planned d). concerns t call"
    using planned_concerns [of "reOp env" "\<lparr>cj = c, ticks = 0\<rparr>" listed now _ d] own assms(1,3)
    by (auto simp: run_decides_def owners_documented_def)
qed

text \<open>Calls of one run let no job of another ControlledJob run.\<close>

lemma carries_out_others:
  assumes "carries_out client jobs_of jobs calls ok jobs'" "\<forall>call \<in> set calls. concerns t call" "t' \<noteq> t"
  shows "runners (owned t' jobs') \<le> runners (owned t' jobs)"
  using assms(1,2)
proof induction
  case (fails c s e s')
  then show ?case using other_call [OF changes client_effectI [OF fails.hyps] _ assms(3)] by simp
next
  case (succeeds c s s' calls ok jobs)
  then show ?case using other_call [OF changes client_effectI [OF succeeds.hyps(1)] _ assms(3)] by fastforce
qed simp

end

lemma fleet_reachable_trans:
  "fleet_reachable env effect b c \<Longrightarrow> fleet_reachable env effect a b \<Longrightarrow> fleet_reachable env effect a c"
  by (induction rule: fleet_reachable.induct) (auto intro: fleet_reachable.step)

lemma fleet_call:
  assumes "effect c jobs jobs'"
  shows "fleet_reachable env effect (jobs, pending(t := c # calls)) (jobs', pending(t := calls))"
proof -
  have "fleet_step env effect (jobs, pending(t := c # calls)) (jobs', (pending(t := c # calls))(t := calls))"
    by (rule fleet_step.call [where pending = "pending(t := c # calls)" and t = t]) (use assms in simp_all)
  from fleet_reachable.step [OF fleet_reachable.start this] show ?thesis by simp
qed

lemma carries_out_fleet:
  assumes "carries_out client jobs_of jobs calls ok jobs'"
  shows "fleet_reachable env (client_effect client jobs_of) (jobs, pending(t := calls @ rest)) (jobs', pending(t := rest))"
  using assms
proof induction
  case (nothing jobs)
  show ?case by (simp add: fleet_reachable.start)
next
  case (fails c s e s')
  from fleet_call [where effect = "client_effect client jobs_of", OF client_effectI [OF fails.hyps], of env pending t rest]
  show ?case unfolding append.simps .
next
  case (succeeds c s s' calls ok jobs)
  note call = fleet_call [where effect = "client_effect client jobs_of", OF client_effectI [OF succeeds.hyps(1)], of env pending t "calls @ rest"]
  from fleet_reachable_trans [OF succeeds.IH call] show ?case unfolding append.simps .
qed

text \<open>
  If the list hides no job that may run, what a run carries out is a step of deciding in the fleet
  and then steps of calling, of its own ControlledJob, whatever others have pending.
\<close>

lemma run_in_fleet:
  assumes "run_decides env t now s c listed d" "object_name c = t" "\<forall>job \<in> set listed. owned_by t job"
    and "carries_out (reClient env) jobs_of (jobs_of s) (take n (planned d)) ok jobs'"
    and "pending t = []" "runners (owned t (jobs_of s)) \<le> runners listed"
  shows "fleet_step (reOp env) (client_effect (reClient env) jobs_of) (jobs_of s, pending) (jobs_of s, pending(t := planned d))
    \<and> fleet_reachable (reOp env) (client_effect (reClient env) jobs_of)
        (jobs_of s, pending(t := planned d)) (jobs', pending(t := drop n (planned d)))"
proof
  have d: "makeDecision (reOp env) \<lparr>cj = c, ticks = 0\<rparr> listed now (reEnableAutoRecreate env) = Return d None"
    using assms(1) by (simp add: run_decides_def)
  show "fleet_step (reOp env) (client_effect (reClient env) jobs_of) (jobs_of s, pending) (jobs_of s, pending(t := planned d))"
    by (rule fleet_step.decide [where pending = pending and t = t, OF _ assms(5,3,6) d]) (simp add: assms(2))
  show "fleet_reachable (reOp env) (client_effect (reClient env) jobs_of)
      (jobs_of s, pending(t := planned d)) (jobs', pending(t := drop n (planned d)))"
    using carries_out_fleet [OF assms(4), of "reOp env" pending t "drop n (planned d)"] by simp
qed

section \<open>Properties\<close>

text \<open>
  C6: A run of \<^verbatim>\<open>Reconcile\<close> in a fleet, over one store of the jobs of all ControlledJobs, acts for its
  own ControlledJob only. Let the client read by name and list by owner, and its calls do what the
  API documents; let the run for \<open>t\<close> return or panic, on a client that traces its calls. Without a
  decision it calls for no change of any job and leaves the store as it is. Otherwise the decision
  is one of the ControlledJob named \<open>t\<close> on jobs that \<open>t\<close> owns; every call it plans that can let a job
  run is about a job that \<open>t\<close> owns; the calls made are the first \<open>n\<close> planned ones in their order and
  then one status update, all of them if no error is returned; the store is what these calls,
  each made after the one before it has succeeded, have left, without any other change; and of no
  other ControlledJob may more jobs run than before.
\<close>

theorem reconcile_in_fleet:
  assumes "fleet_client (reClient env) (reRecorder env) jobs_of" "owners_documented (opJobs (reOp env))"
    and "Reconcile (traced_env env) t now (s, []) = Finished r (s', tr)
      \<or> Reconcile (traced_env env) t now (s, []) = Panicked (s', tr)"
  shows "(\<nexists>c listed d. run_decides env t now s c listed d) \<and> jobs_of s' = jobs_of s \<and> (\<forall>call \<in> set tr. \<not> changes_jobs call)
    \<or> (\<exists>c listed d n c'. run_decides env t now s c listed d \<and> object_name c = t \<and> (\<forall>job \<in> set listed. owned_by t job)
        \<and> Reconcile (traced_env env) t now (s, []) = Finished r (s', tr)
        \<and> (\<forall>call \<in> set (planned d). concerns t call)
        \<and> n \<le> length (planned d) \<and> (rrError r = None \<longrightarrow> n = length (planned d))
        \<and> tr = take n (planned d) @ [CallUpdateStatus c']
        \<and> carries_out (reClient env) jobs_of (jobs_of s) (take n (planned d)) (rrError r = None) (jobs_of s')
        \<and> (\<forall>t'. t' \<noteq> t \<longrightarrow> runners (owned t' (jobs_of s')) \<le> runners (owned t' (jobs_of s))))"
  using store_client.run_traced [OF fleet_client.each [OF assms(1)] refl refl assms(3)]
proof (elim disjE exE)
  fix c listed d n c'
  assume run: "run_decides env t now s c listed d
    \<and> Reconcile (traced_env env) t now (s, []) = Finished r (s', tr)
    \<and> n \<le> length (planned d) \<and> (rrError r = None \<longrightarrow> n = length (planned d))
    \<and> tr = take n (planned d) @ [CallUpdateStatus c']
    \<and> carries_out (reClient env) jobs_of (jobs_of s) (take n (planned d)) (rrError r = None) (jobs_of s')"
  note own = fleet_client.decides_owned [OF assms(1) conjunct1 [OF run] refl assms(2)]
  then have "\<forall>call \<in> set (take n (planned d)). concerns t call" by (auto dest: in_set_takeD)
  then have "\<forall>t'. t' \<noteq> t \<longrightarrow> runners (owned t' (jobs_of s')) \<le> runners (owned t' (jobs_of s))"
    using fleet_client.carries_out_others [OF assms(1)] run by blast
  with own run show ?thesis
    by - (rule disjI2, rule exI [of _ c], rule exI [of _ listed], rule exI [of _ d], rule exI [of _ n], rule exI [of _ c'], simp)
qed simp

text \<open>
  C5: A fleet refines one cluster per ControlledJob. Let runs of any number of ControlledJobs
  interleave call by call over one store of jobs, each deciding on jobs the owner index lists for
  it (by a list that hides none of its jobs that may run), over an API that does what it documents. Then what each ControlledJob sees, its own jobs and
  the calls of its own run, is a state its own cluster can reach: runs of others, whatever they
  create, delete or unsuspend, are to it at most changes from outside that let no job run.
\<close>

theorem fleet_refines:
  assumes "fleet_reachable env effect (jobs0, \<lambda>_. []) s" "store_documented effect" "owners_documented (opJobs env)"
  shows "reachable env may_change (owned t jobs0, []) (view_of t s) \<and> (\<forall>call \<in> set (snd s t). concerns t call)"
proof -
  have init: "all_concern (jobs0, \<lambda>_. [])" by (simp add: all_concern_def)
  then show ?thesis
    using fleet_views [OF assms(1) init assms(2,3)] by (cases s) (simp add: view_of_def all_concern_iff del: split_paired_All)
qed

text \<open>
  C4: With any number of ControlledJobs reconciled at the same time, each has at most one job that
  may run. Start from a store in which at most one job of each ControlledJob may run. After any
  interleaving of decisions, calls (which may fail), aborted runs and outside changes this
  still holds of every one of them, and no two different jobs of one owner may run. Each decision is
  made on jobs the ControlledJob owns, by a list that hides none of its jobs that may run.
\<close>

theorem fleet_at_most_one:
  assumes "fleet_reachable env effect (jobs0, \<lambda>_. []) (jobs, pending)" "\<forall>t. runners (owned t jobs0) \<le> 1"
    and "store_documented effect" "owners_documented (opJobs env)"
  shows "runners (owned t jobs) \<le> 1
    \<and> (\<forall>a < length jobs. \<forall>b < length jobs. may_run (jobs ! a) \<longrightarrow> may_run (jobs ! b)
        \<longrightarrow> owned_by t (jobs ! a) \<longrightarrow> owned_by t (jobs ! b) \<longrightarrow> a = b)"
proof -
  have init: "all_concern (jobs0, \<lambda>_. [])" by (simp add: all_concern_def)
  have documented: "api_documented may_change" by (simp add: api_documented_def may_change_def)
  have env: "only_owner_references (opJobs env)" "benign_mutators (opJobs env)"
    using assms(4) by (simp_all add: owners_documented_def)
  have "exclusive (view_of t (jobs0, \<lambda>_. []))" using spec [OF assms(2), of t] by (simp add: exclusive_def view_of_def)
  then have one: "runners (owned t jobs) \<le> 1"
    using reachable_exclusive [OF fleet_views(2) [OF assms(1) init assms(3,4)] _ documented env]
    by (simp add: exclusive_def view_of_def)
  moreover have "a = b"
    if "a < length jobs" "b < length jobs" "may_run (jobs ! a)" "may_run (jobs ! b)" "owned_by t (jobs ! a)" "owned_by t (jobs ! b)"
    for a b
    using that one by (intro filter_singleton_index [where P = "\<lambda>j. may_run j \<and> owned_by t j" and xs = jobs])
      (simp_all add: runners_def owned_def conj_commute)
  ultimately show ?thesis by blast
qed

end
