(* ===== verification/Convergence.thy ===== *)
theory Convergence
  imports Choice RunRefinement
begin

text \<open>
  The operator reaches its goal: inside a run period, over an API server on which calls succeed,
  two runs of \<^verbatim>\<open>Reconcile\<close> lead from any jobs the operator may have made to one current job that
  runs (or has completed, or was stopped by the user) beside completed ones, and further runs
  leave it that way.
\<close>

section \<open>Inside one run period\<close>

text \<open>
  Decisions at different times of one run period see the same schedule state but for the next
  event and the listed jobs.
\<close>

definition period_view :: "rec_state \<Rightarrow> rec_state" where
  "period_view st = st\<lparr>rsAllJobs := [], rsNextEventTime := None\<rparr>"

lemma view_simps:
  "isExpired (period_view st) = isExpired st" "isBetterCandidateJob j k (period_view st) = isBetterCandidateJob j k st"
  "shouldRun (period_view st) = shouldRun st" "rsStartOfCurrentRunPeriod (period_view st) = rsStartOfCurrentRunPeriod st"
  "rsIsSuspended (period_view st) = rsIsSuspended st" "rsLastStopTime (period_view st) = rsLastStopTime st"
  "rsAutoRestartIsEnabled (period_view st) = rsAutoRestartIsEnabled st" "isOutOfDate j (period_view st) = isOutOfDate j st"
  "rsDesiredHash (period_view st) = rsDesiredHash st"
  by (simp_all add: period_view_def isExpired_def [abs_def] isBetterCandidateJob_def shouldRun_def isOutOfDate_def)

lemma view_chosen [simp]: "chosenJob (period_view st) jobs = chosenJob st jobs"
  by (simp add: chosenJob_def currentChoice_def bestCurrent_def view_simps split: option.split)

lemma view_replaced [simp]: "replaced (period_view st) restart job = replaced st restart job"
  by (simp add: replaced_def view_simps)

lemma view_survivor [simp]: "survivor (period_view st) restart jobs = survivor st restart jobs"
  by (simp add: survivor_def split: option.split)

lemma view_plan [simp]:
  "to_delete (period_view st) restart jobs job = to_delete st restart jobs job"
  "to_unsuspend (period_view st) restart jobs = to_unsuspend st restart jobs"
  by (simp_all add: to_delete_def to_unsuspend_def view_simps)

lemma view_request [simp]: "job_request (period_view st) restart jobs = job_request st restart jobs"
  by (simp add: job_request_def view_simps split: option.split)

text \<open>
  A time whose RFC 3339 form is read back, a run period that is under way (the schedule has
  whole seconds), and a job the operator may have made: named after its start time and run id.
\<close>

definition kept_time :: "gotime \<Rightarrow> bool" where
  "kept_time t \<longleftrightarrow> 0 \<le> time_year t \<and> time_year t \<le> 9999
     \<and> (let off = zone_offset (locOf t) (time_unix t) in off mod 60 = 0 \<and> \<bar>off\<bar> \<le> 86400)"

definition period_under_way :: "rec_state \<Rightarrow> bool" where
  "period_under_way st \<longleftrightarrow> shouldRun st \<and> \<not> rsIsSuspended st
     \<and> (\<forall>s. rsStartOfCurrentRunPeriod st = Some s \<longrightarrow> kept_time s)
     \<and> (\<forall>stop. rsLastStopTime st = Some stop \<longrightarrow> nano dvd instant stop
          \<and> (\<forall>s. rsStartOfCurrentRunPeriod st = Some s \<longrightarrow> instant stop \<le> instant s))"

definition sound_job :: "'p controlled_job \<Rightarrow> 'p job \<Rightarrow> bool" where
  "sound_job c job \<longleftrightarrow> (\<exists>t i. GetScheduledTime job = Ok t \<and> GetJobRunId job = Ok i
     \<and> jobName job = JobName (cjName c) t i \<and> kept_time t \<and> 0 \<le> time_unix t \<and> 0 \<le> i \<and> i < 2 ^ 63 - 1)
     \<and> \<not> IsJobBeingDeleted job"

lemma JobName_run_id:
  assumes "JobName n t i = JobName n' t' i'" "0 \<le> time_unix t" "0 \<le> i" "0 \<le> time_unix t'" "0 \<le> i'"
  shows "i = i'"
  using split_JobName(1) [OF assms(2,3), of n] split_JobName(1) [OF assms(4,5), of n'] assms(1) itoa_inject by simp

lemma JobName_time:
  assumes "JobName n t i = JobName n t' i'" "0 \<le> time_unix t'" "0 \<le> i" "0 \<le> i'" "0 \<le> time_unix t"
  shows "time_unix t = time_unix t'"
  using JobName_inject [of t i t' i' n n] assms by (simp add: time_unix_def)

lemma not_expired_cut:
  assumes "\<And>stop. rsLastStopTime st = Some stop \<Longrightarrow> nano dvd instant stop \<and> instant stop \<le> instant t"
    and "GetScheduledTime job = Ok \<lparr>instant = time_sec t * nano, locOf = l\<rparr>"
  shows "\<not> isExpired st job"
proof (cases "rsLastStopTime st")
  case (Some stop)
  then have stop: "nano dvd instant stop" "instant stop \<le> instant t" using assms(1) by simp_all
  then obtain k where k: "instant stop = nano * k" by (auto elim: dvdE)
  with zdiv_mono1 [OF stop(2), of nano] have "k \<le> time_sec t" by (simp add: time_sec_def)
  then show ?thesis using Some assms(2) k by (simp add: isExpired_def time_before_def)
qed (simp add: isExpired_def)

section \<open>Tidy jobs\<close>

text \<open>
  \<open>tidy\<close>: only current jobs, all completed but perhaps the chosen one, which is to stay.
  \<open>calm\<close>: and the chosen one is completed, stopped by the user, or not suspended.
\<close>

definition tidy :: "rec_state \<Rightarrow> bool \<Rightarrow> 'p job list \<Rightarrow> 'p job \<Rightarrow> bool" where
  "tidy st restart jobs x \<longleftrightarrow> distinct (map jobName jobs) \<and> chosenJob st jobs = Some x \<and> \<not> replaced st restart x
     \<and> (\<forall>job \<in> set jobs. \<not> isExpired st job \<and> \<not> IsJobBeingDeleted job \<and> (job = x \<or> IsJobCompleted job))"

definition calm :: "rec_state \<Rightarrow> bool \<Rightarrow> 'p job list \<Rightarrow> 'p job \<Rightarrow> bool" where
  "calm st restart jobs x \<longleftrightarrow>
     tidy st restart jobs x \<and> (IsJobCompleted x \<or> WasJobStoppedByTheUser x \<or> \<not> IsJobSuspended x)"

text \<open>
  The goal, for jobs that were \<open>jobs0\<close> at first. One job is chosen; no job is expired or being
  deleted, and every other one is completed; the chosen one runs, has completed or was stopped by
  the user. It is up to date, with one exception: it was out of date and chosen at first already,
  and is not to be replaced, since it does not run or automatic recreation is off.
\<close>

definition chosen_at_first :: "rec_state \<Rightarrow> 'p job list \<Rightarrow> 'p job \<Rightarrow> bool" where
  "chosen_at_first st jobs0 x \<longleftrightarrow>
     (\<exists>x0. chosenJob st jobs0 = Some x0 \<and> jobName x0 = jobName x \<and> isOutOfDate x0 st)"

definition settled :: "rec_state \<Rightarrow> bool \<Rightarrow> 'p job list \<Rightarrow> 'p job list \<Rightarrow> bool" where
  "settled st restart jobs0 jobs \<longleftrightarrow> distinct (map jobName jobs) \<and>
     (\<exists>x. chosenJob st jobs = Some x
        \<and> (\<forall>job \<in> set jobs. \<not> isExpired st job \<and> \<not> IsJobBeingDeleted job \<and> (job = x \<or> IsJobCompleted job))
        \<and> (IsJobCompleted x \<or> WasJobStoppedByTheUser x \<or> \<not> IsJobSuspended x)
        \<and> (isOutOfDate x st \<longrightarrow>
             (IsJobCompleted x \<or> WasJobStoppedByTheUser x \<or> \<not> restart) \<and> chosen_at_first st jobs0 x))"

text \<open>Where an out-of-date chosen job comes from.\<close>

definition from_first :: "rec_state \<Rightarrow> 'p job list \<Rightarrow> 'p job \<Rightarrow> bool" where
  "from_first st jobs0 x \<longleftrightarrow> (isOutOfDate x st \<longrightarrow> chosen_at_first st jobs0 x)"

lemma from_first_same:
  "from_first st jobs0 x \<Longrightarrow> jobName y = jobName x \<Longrightarrow> isOutOfDate y st = isOutOfDate x st \<Longrightarrow> from_first st jobs0 y"
  by (simp add: from_first_def chosen_at_first_def)

text \<open>What carrying out a decision leaves of the jobs.\<close>

definition unsuspend_in :: "'p job list \<Rightarrow> 'p job list \<Rightarrow> 'p job list" where
  "unsuspend_in xs jobs = map (\<lambda>j. if j \<in> set xs then set_suspend False j else j) jobs"

definition outcome_of :: "rec_state \<Rightarrow> bool \<Rightarrow> 'p job list \<Rightarrow> 'p job list \<Rightarrow> 'p job list" where
  "outcome_of st restart jobs created =
     unsuspend_in (to_unsuspend st restart jobs) (filter (\<lambda>j. \<not> to_delete st restart jobs j) jobs) @ created"

lemma tidy_listed:
  assumes "tidy st restart jobs x"
  shows "x \<in> set jobs" "survivor st restart jobs = Some x" "filter (\<lambda>j. \<not> to_delete st restart jobs j) jobs = jobs"
    "job_request st restart jobs = None"
proof -
  have c: "chosenJob st jobs = Some x" "\<not> replaced st restart x" using assms by (simp_all add: tidy_def)
  then show s: "survivor st restart jobs = Some x" by (simp add: survivor_def)
  then show "x \<in> set jobs" by (rule survivor_listed)
  show "filter (\<lambda>j. \<not> to_delete st restart jobs j) jobs = jobs"
    using assms by (auto simp: filter_id_conv to_delete_def s tidy_def)
  show "job_request st restart jobs = None" using c by (simp add: job_request_def)
qed

lemma calm_settled:
  assumes "calm st restart jobs x" "from_first st jobs0 x"
  shows "settled st restart jobs0 jobs"
proof -
  have t: "tidy st restart jobs x" using assms(1) by (simp add: calm_def)
  then have "\<not> IsJobBeingDeleted x" using tidy_listed(1) [OF t] by (simp add: tidy_def)
  then have "isOutOfDate x st \<longrightarrow> IsJobCompleted x \<or> WasJobStoppedByTheUser x \<or> \<not> restart"
    using t by (auto simp: tidy_def replaced_def IsJobPotentiallyRunning_def)
  then show ?thesis using assms by (auto simp: settled_def calm_def tidy_def from_first_def)
qed

lemma tidy_count:
  assumes "tidy st restart jobs x"
  shows "length (filter IsJobPotentiallyRunning jobs) = (if IsJobCompleted x then 0 else 1)"
proof -
  have d: "distinct jobs" using assms by (simp add: tidy_def distinct_map)
  have "filter IsJobPotentiallyRunning jobs = filter (\<lambda>j. j = x \<and> \<not> IsJobCompleted x) jobs"
    using assms by (intro filter_cong) (auto simp: tidy_def IsJobPotentiallyRunning_def)
  also have "length \<dots> = (if IsJobCompleted x then 0 else 1)"
    using d tidy_listed(1) [OF assms] by (simp add: distinct_length_filter Int_absorb2 flip: distinct_card) (auto simp: Int_def card_1_singleton_iff)
  finally show ?thesis .
qed

lemma set_suspend_readers [simp]:
  "jobName (set_suspend b job) = jobName job"
  "IsJobBeingDeleted (set_suspend b job) = IsJobBeingDeleted job" "IsJobCompleted (set_suspend b job) = IsJobCompleted job"
  "annotation (set_suspend b job) key = annotation job key" "IsManuallyScheduledJob (set_suspend b job) = IsManuallyScheduledJob job"
  "IsJobSuspended (set_suspend b job) = b" "GetScheduledTime (set_suspend b job) = GetScheduledTime job"
  by (simp_all add: set_suspend_def GetScheduledTime_def annotation_def IsJobBeingDeleted_def IsJobCompleted_def
      JobHasCondition_def GetJobCondition_def IsManuallyScheduledJob_def IsJobSuspended_def Let_def)

lemma set_suspend_choice [simp]:
  "isBetterCandidateJob (set_suspend b job) y st = isBetterCandidateJob job y st"
  "isBetterCandidateJob y (set_suspend b job) st = isBetterCandidateJob y job st"
  "isOutOfDate (set_suspend b job) st = isOutOfDate job st" "isExpired st (set_suspend b job) = isExpired st job"
  by (simp_all add: isExpired_def isBetterCandidateJob_def isOutOfDate_def split: option.split)

lemma unsuspend_in_simps [simp]:
  "unsuspend_in [] jobs = jobs" "map jobName (unsuspend_in xs jobs) = map jobName jobs"
  "set (unsuspend_in [x] jobs) = (\<lambda>j. if j = x then set_suspend False j else j) ` set jobs"
  by (induction jobs) (auto simp: unsuspend_in_def)

text \<open>A tidy list becomes calm, and a calm one stays as it is.\<close>

lemma tidy_unsuspend:
  assumes "tidy st r jobs x" "\<not> WasJobStoppedByTheUser x"
  shows "tidy st r (unsuspend_in [x] jobs) (set_suspend False x)"
proof -
  have names: "distinct (map jobName jobs)" and best: "is_best st (set jobs) x" "shouldRun st \<or> IsManuallyScheduledJob x"
    using assms(1) chosenJob_iff [of jobs st x] by (simp_all add: tidy_def)
  have "is_best st (set (unsuspend_in [x] jobs)) (set_suspend False x)"
    using best(1) unfolding is_best_def by auto
  then have "chosenJob st (unsuspend_in [x] jobs) = Some (set_suspend False x)"
    using chosenJob_iff [of "unsuspend_in [x] jobs" st "set_suspend False x"] names best(2) by simp
  moreover have "\<not> replaced st r (set_suspend False x)"
    using assms by (auto simp: tidy_def replaced_def IsJobPotentiallyRunning_def)
  ultimately show ?thesis using assms(1) by (auto simp: tidy_def)
qed

lemma tidy_calms:
  assumes "tidy st r jobs x"
  shows "\<exists>y. calm st r (outcome_of st r jobs []) y \<and> jobName y = jobName x \<and> isOutOfDate y st = isOutOfDate x st"
proof (cases "\<not> IsJobCompleted x \<and> can_unsuspend x")
  case True
  then have "outcome_of st r jobs [] = unsuspend_in [x] jobs"
    using tidy_listed [OF assms] tidy_count [OF assms] by (simp add: outcome_of_def to_unsuspend_def)
  moreover have "tidy st r (unsuspend_in [x] jobs) (set_suspend False x)"
    using tidy_unsuspend [OF assms] True by (simp add: can_unsuspend_def)
  ultimately show ?thesis by (intro exI [of _ "set_suspend False x"]) (simp add: calm_def)
next
  case False
  then have "outcome_of st r jobs [] = jobs"
    using tidy_listed [OF assms] tidy_count [OF assms] by (auto simp: outcome_of_def to_unsuspend_def)
  moreover have "\<not> IsJobBeingDeleted x" using assms tidy_listed(1) [OF assms] by (simp add: tidy_def)
  ultimately show ?thesis using False assms by (intro exI [of _ x]) (auto simp: calm_def can_unsuspend_def)
qed

lemma calm_stays:
  assumes "calm st r jobs x"
  shows "outcome_of st r jobs [] = jobs"
proof -
  have x: "tidy st r jobs x" "IsJobCompleted x \<or> WasJobStoppedByTheUser x \<or> \<not> IsJobSuspended x"
    using assms by (auto simp: calm_def)
  note t = tidy_listed [OF x(1)] tidy_count [OF x(1)]
  then have "to_unsuspend st r jobs = []" using x(2) by (auto simp: to_unsuspend_def can_unsuspend_def)
  then show ?thesis using t by (simp add: outcome_of_def)
qed

text \<open>One decision makes any list tidy.\<close>

lemma kept_tidy:
  assumes "distinct (map jobName jobs)" "\<forall>job \<in> set jobs. \<not> IsJobBeingDeleted job"
    and "chosenJob st jobs = Some x" "\<not> replaced st r x"
  shows "\<exists>x'. tidy st r (outcome_of st r jobs []) x' \<and> jobName x' = jobName x \<and> isOutOfDate x' st = isOutOfDate x st"
proof -
  let ?kept = "filter (\<lambda>j. \<not> to_delete st r jobs j) jobs"
  have surv: "survivor st r jobs = Some x" using assms(3,4) by (simp add: survivor_def)
  have x: "is_best st (set jobs) x" "shouldRun st \<or> IsManuallyScheduledJob x"
    using chosenJob_iff [OF assms(1)] assms(3) by blast+
  have names: "distinct (map jobName ?kept)" using assms(1) by (rule distinct_map_filter)
  have "is_best st (set ?kept) x" using x(1) surv by (auto simp: is_best_def to_delete_def)
  then have "chosenJob st ?kept = Some x" using chosenJob_iff [OF names] x(2) by blast
  then have tidy: "tidy st r ?kept x"
    using names assms(2,4) surv by (auto simp: tidy_def to_delete_def)
  show ?thesis
  proof (cases "to_unsuspend st r jobs = [x]")
    case True
    then have "\<not> WasJobStoppedByTheUser x" by (simp add: to_unsuspend_def surv can_unsuspend_def split: if_splits)
    then show ?thesis
      using tidy_unsuspend [OF tidy] True by (intro exI [of _ "set_suspend False x"]) (simp add: outcome_of_def)
  next
    case False
    then have "to_unsuspend st r jobs = []" by (auto simp: to_unsuspend_def surv)
    then show ?thesis using tidy by (intro exI [of _ x]) (simp add: outcome_of_def)
  qed
qed

lemma created_tidy:
  assumes "distinct (map jobName jobs)" "\<forall>job \<in> set jobs. \<not> IsJobBeingDeleted job" "shouldRun st"
    and "chosenJob st jobs = None \<or> (\<exists>x. chosenJob st jobs = Some x \<and> replaced st r x)"
    and "jobName n \<notin> jobName ` set (filter (\<lambda>j. \<not> to_delete st r jobs j) jobs)"
    and "\<not> IsJobBeingDeleted n" "\<not> isExpired st n" "annotation n TemplateHashAnnotation = rsDesiredHash st"
  shows "tidy st r (outcome_of st r jobs [n]) n"
proof -
  let ?kept = "filter (\<lambda>j. \<not> to_delete st r jobs j) jobs"
  have surv: "survivor st r jobs = None" using assms(4) by (auto simp: survivor_def)
  then have out: "outcome_of st r jobs [n] = ?kept @ [n]" by (simp add: outcome_of_def to_unsuspend_def)
  have kept: "\<not> isExpired st j" "\<not> IsJobBeingDeleted j" "IsJobCompleted j" if "j \<in> set ?kept" for j
    using that assms(2) by (auto simp: to_delete_def surv)
  have "distinct (map jobName ?kept)" using assms(1) by (rule distinct_map_filter)
  then have names: "distinct (map jobName (?kept @ [n]))" using assms(5) by auto
  have old: "annotation j TemplateHashAnnotation \<noteq> rsDesiredHash st" if "j \<in> set ?kept" for j
  proof
    assume hash: "annotation j TemplateHashAnnotation = rsDesiredHash st"
    have j: "j \<in> set jobs" "\<not> isExpired st j" using that kept by auto
    obtain x where x: "chosenJob st jobs = Some x" "replaced st r x"
      using assms(3,4) j chosenJob_None [of st jobs] bestCurrent_None [of st jobs]
      by (auto simp: currentChoice_def split: option.splits if_splits)
    then have "is_best st (set jobs) x" using chosenJob_iff [OF assms(1)] by blast
    then have "j = x \<or> isBetterCandidateJob x j st" using j by (auto simp: is_best_def)
    moreover have "annotation x TemplateHashAnnotation \<noteq> rsDesiredHash st" "\<not> IsJobBeingDeleted x"
      using x(2) by (auto simp: replaced_def isOutOfDate_def)
    ultimately show False using hash kept(2) [OF that] by (auto simp: isBetterCandidateJob_def)
  qed
  have "isBetterCandidateJob n j st" if "j \<in> set ?kept" for j
    using old [OF that] kept(2) [OF that] assms(6,8) by (simp add: isBetterCandidateJob_def)
  then have "is_best st (set (?kept @ [n])) n" using assms(7) by (auto simp: is_best_def)
  then have "chosenJob st (?kept @ [n]) = Some n" using chosenJob_iff [OF names] assms(3) by blast
  moreover have "\<not> replaced st r n" using assms(8) by (simp add: replaced_def isOutOfDate_def)
  ultimately show ?thesis using names kept assms(6,7) by (auto simp: tidy_def out)
qed

section \<open>A decision inside a period\<close>

lemma as_created_readers [simp]:
  "jobName (as_created jobs j) = jobName j" "IsJobBeingDeleted (as_created jobs j) = IsJobBeingDeleted j"
  "annotation (as_created jobs j) key = annotation j key" "GetScheduledTime (as_created jobs j) = GetScheduledTime j"
  by (simp_all add: as_created_def clear_suspend_def IsJobBeingDeleted_def annotation_def GetScheduledTime_def Let_def)

lemma Max_run_id:
  assumes "\<forall>job \<in> set jobs. \<exists>i. GetJobRunId job = Ok i \<and> 0 \<le> i \<and> i < 2 ^ 63 - 1"
  shows "- 1 \<le> maxRunId jobs" "maxRunId jobs < 2 ^ 63 - 1" "job \<in> set jobs \<Longrightarrow> GetJobRunId job = Ok i \<Longrightarrow> i \<le> maxRunId jobs"
proof -
  let ?S = "insert (- 1) {r. \<exists>job \<in> set jobs. GetJobRunId job = Ok r}"
  have "(case GetJobRunId job of Ok r \<Rightarrow> Some r | _ \<Rightarrow> None) = Some r \<longleftrightarrow> GetJobRunId job = Ok r" for job :: "'a job" and r
    by (simp split: outcome.split)
  then have S: "maxRunId jobs = Max ?S" "finite ?S"
    using finite_set [of "List.map_filter (\<lambda>job. case GetJobRunId job of Ok r \<Rightarrow> Some r | _ \<Rightarrow> None) jobs"]
    by (simp_all add: maxRunId_def set_map_filter)
  show "- 1 \<le> maxRunId jobs" "job \<in> set jobs \<Longrightarrow> GetJobRunId job = Ok i \<Longrightarrow> i \<le> maxRunId jobs"
    using Max_ge [OF S(2)] unfolding S(1) by blast+
  have "Max ?S \<in> ?S" by (rule Max_in [OF S(2)]) blast
  then show "maxRunId jobs < 2 ^ 63 - 1" unfolding S(1) using assms by force
qed

text \<open>The job a decision creates inside a period is a current one with a new name.\<close>

text \<open>The requested start time and run id are those of no listed job: for the first job of the period, and for a replacement.\<close>

lemma first_name_free:
  assumes "period_under_way st" "\<forall>job \<in> set jobs. sound_job c job"
    and "chosenJob st jobs = None" "job_request st r jobs = Some (t, i, manual)"
  shows "rsStartOfCurrentRunPeriod st = Some t" "k \<in> set jobs \<Longrightarrow> jobName k \<noteq> JobName (cjName c) t i"
proof -
  show start: "rsStartOfCurrentRunPeriod st = Some t"
    using assms(3,4) by (auto simp: job_request_def split: if_splits)
  show "jobName k \<noteq> JobName (cjName c) t i" if k: "k \<in> set jobs"
  proof
    assume name: "jobName k = JobName (cjName c) t i"
    have "isExpired st k"
      using assms(1,3) k chosenJob_None [of st jobs] bestCurrent_None [of st jobs]
      by (auto simp: currentChoice_def period_under_way_def split: option.splits)
    moreover obtain t' i' where t': "GetScheduledTime k = Ok t'" "jobName k = JobName (cjName c) t' i'" "0 \<le> time_unix t'" "0 \<le> i'"
      using assms(2) k by (force simp: sound_job_def)
    ultimately obtain stop where stop: "rsLastStopTime st = Some stop" "instant t' < instant stop"
      by (auto simp: isExpired_def time_before_def split: option.splits)
    then have "nano dvd instant stop" "instant stop \<le> instant t"
      using assms(1) start by (simp_all add: period_under_way_def)
    then obtain q where q: "instant stop = nano * q" "q \<le> time_sec t" using zdiv_mono1 [of "instant stop" "instant t" nano]
      by (auto simp: time_sec_def elim: dvdE)
    have "time_sec t' < q" using stop(2) zdiv_mono1 [of "instant t'" "nano * q - 1" nano] by (simp add: q(1) time_sec_def)
    moreover have "i = 0" using assms(3,4) by (auto simp: job_request_def split: if_splits)
    ultimately show False
      using JobName_time [of "cjName c" t i t' i'] name t' q(2) by (simp add: time_unix_def)
  qed
qed

lemma next_name_free:
  assumes "\<forall>job \<in> set jobs. sound_job c job" "distinct (map jobName jobs)"
    and "chosenJob st jobs = Some x" "job_request st r jobs = Some (t, i, manual)"
  shows "x \<in> set jobs" "\<not> isExpired st x" "GetScheduledTime x = Ok t" "kept_time t"
    "k \<in> set jobs \<Longrightarrow> jobName k \<noteq> JobName (cjName c) t i"
proof -
  have best: "is_best st (set jobs) x" using chosenJob_iff [OF assms(2)] assms(3) by blast
  then show x: "x \<in> set jobs" "\<not> isExpired st x" by (simp_all add: is_best_def)
  have req: "GetScheduledTime x = Ok t" "i = wrap64 (maxRunId jobs + 1)"
    using assms(3,4) by (auto simp: job_request_def split: if_splits outcome.splits)
  have t: "kept_time t" "0 \<le> time_unix t" using assms(1) x req(1) by (force simp: sound_job_def)+
  show "GetScheduledTime x = Ok t" "kept_time t" by (rule req(1), rule t(1))
  show "jobName k \<noteq> JobName (cjName c) t i" if k: "k \<in> set jobs"
  proof -
    have ids: "\<forall>job \<in> set jobs. \<exists>i. GetJobRunId job = Ok i \<and> 0 \<le> i \<and> i < 2 ^ 63 - 1"
      using assms(1) by (auto simp: sound_job_def)
    note m = Max_run_id [OF ids]
    have i: "i = maxRunId jobs + 1" using req(2) m(1,2) by (simp add: wrap64_id)
    have "sound_job c k" using assms(1) k by blast
    then obtain t' i' where k': "GetJobRunId k = Ok i'" "jobName k = JobName (cjName c) t' i'" "0 \<le> time_unix t'" "0 \<le> i'"
      unfolding sound_job_def by blast
    have "i' \<le> maxRunId jobs" using m(3) [OF k k'(1)] .
    then have "i' \<noteq> i" using i by simp
    then show ?thesis using JobName_run_id [of "cjName c" t' i' "cjName c" t i] k' t(2) i m(1) by auto
  qed
qed

lemma new_job_current:
  assumes "period_under_way st" "rsDesiredHash st = CalculateHashFor (jeHash env) (csJobTemplate (cjSpec c))"
    and "only_owner_references env" "benign_mutators env"
    and "\<forall>job \<in> set jobs. sound_job c job" "distinct (map jobName jobs)"
    and "job_request st r jobs = Some (t, i, manual)" "same_but_status c c'" "buildJob env c' t i manual True = Ok j"
  shows "\<not> IsJobBeingDeleted j" "\<not> isExpired st j" "annotation j TemplateHashAnnotation = rsDesiredHash st"
    "chosenJob st jobs = None \<or> (\<exists>x. chosenJob st jobs = Some x \<and> replaced st r x)"
    "jobName j \<notin> jobName ` set jobs"
proof -
  note view = view_readers [OF buildJob_view [OF assms(3,4,9)]]
  note read = newJobFor_readers [where env = env and c = c' and t = t and i = i and manual = manual and susp = True]
  have same: "cjSpec c' = cjSpec c" "cjName c' = cjName c" using assms(8) by (simp_all add: same_but_status_fields)
  show "\<not> IsJobBeingDeleted j" "annotation j TemplateHashAnnotation = rsDesiredHash st"
    by (simp_all add: view read same assms(2))
  have name: "jobName j = JobName (cjName c) t i" by (simp add: view read same)
  show "chosenJob st jobs = None \<or> (\<exists>x. chosenJob st jobs = Some x \<and> replaced st r x)"
    using assms(7) by (auto simp: job_request_def split: option.splits if_splits)
  have t: "kept_time t \<and> (\<forall>stop. rsLastStopTime st = Some stop \<longrightarrow> nano dvd instant stop \<and> instant stop \<le> instant t)
      \<and> (\<forall>k \<in> set jobs. jobName k \<noteq> JobName (cjName c) t i)"
  proof (cases "chosenJob st jobs")
    case None
    note free = first_name_free [OF assms(1,5) None assms(7)]
    show ?thesis using assms(1) free by (auto simp: period_under_way_def)
  next
    case (Some x)
    note free = next_name_free [OF assms(5,6) Some assms(7)]
    have "\<forall>stop. rsLastStopTime st = Some stop \<longrightarrow> nano dvd instant stop \<and> instant stop \<le> instant t"
      using assms(1) free(2,3) by (auto simp: isExpired_def time_before_def period_under_way_def)
    then show ?thesis using free(4,5) by blast
  qed
  then show "jobName j \<notin> jobName ` set jobs" using name by auto
  have "GetScheduledTime j = Ok \<lparr>instant = time_sec t * nano, locOf = fixed_zone [] (zone_offset (locOf t) (time_unix t))\<rparr>"
    using newJobFor_read_back(1) [of t "zone_offset (locOf t) (time_unix t)"] t by (simp add: view kept_time_def Let_def)
  then show "\<not> isExpired st j" by (rule not_expired_cut [rotated]) (use t in blast)
qed

section \<open>An API on which calls succeed\<close>

text \<open>
  Jobs are deleted in the foreground: a deleted job is removed or, while it has dependents, only
  marked, and stays listed until the garbage collector is done. \<open>present\<close> are the jobs without
  a mark.
\<close>

definition present :: "'p job list \<Rightarrow> 'p job list" where
  "present jobs = filter (\<lambda>j. \<not> IsJobBeingDeleted j) jobs"

definition removed_or_marked :: "string \<Rightarrow> 'p job list \<Rightarrow> 'p job list \<Rightarrow> bool" where
  "removed_or_marked n jobs jobs' \<longleftrightarrow> jobs' = filter (\<lambda>j. jobName j \<noteq> n) jobs
     \<or> (\<exists>t. jobs' = map (\<lambda>j. if jobName j = n then j\<lparr>jobDeletionTimestamp := Some t\<rparr> else j) jobs)"

lemma removed_or_marked_present:
  assumes "removed_or_marked n jobs jobs'"
  shows "present jobs' = filter (\<lambda>j. jobName j \<noteq> n) (present jobs)"
    "distinct (map jobName jobs) \<Longrightarrow> distinct (map jobName jobs')" "set (map jobName jobs') \<subseteq> set (map jobName jobs)"
proof -
  consider "jobs' = filter (\<lambda>j. jobName j \<noteq> n) jobs"
    | t where "jobs' = map (\<lambda>j. if jobName j = n then j\<lparr>jobDeletionTimestamp := Some t\<rparr> else j) jobs"
    using assms by (auto simp: removed_or_marked_def)
  then have "present jobs' = filter (\<lambda>j. jobName j \<noteq> n) (present jobs) \<and> (distinct (map jobName jobs) \<longrightarrow> distinct (map jobName jobs'))
      \<and> set (map jobName jobs') \<subseteq> set (map jobName jobs)"
  proof cases
    case 1
    then show ?thesis by (auto simp: present_def distinct_map_filter intro: filter_cong)
  next
    case (2 t)
    have "map jobName jobs' = map jobName jobs" by (simp add: 2)
    moreover have "present jobs' = filter (\<lambda>j. jobName j \<noteq> n) (present jobs)"
      unfolding 2 present_def by (induction jobs) (simp_all add: IsJobBeingDeleted_def)
    ultimately show ?thesis by (simp del: map_map)
  qed
  then show "present jobs' = filter (\<lambda>j. jobName j \<noteq> n) (present jobs)"
    "distinct (map jobName jobs) \<Longrightarrow> distinct (map jobName jobs')" "set (map jobName jobs') \<subseteq> set (map jobName jobs)"
    by blast+
qed

lemma present_simps [simp]:
  "present (xs @ ys) = present xs @ present ys" "job \<in> set (present jobs) \<longleftrightarrow> job \<in> set jobs \<and> \<not> IsJobBeingDeleted job"
  "present [job] = (if IsJobBeingDeleted job then [] else [job])" "present (unsuspend_in xs jobs) = unsuspend_in xs (present jobs)"
  by (induction jobs) (auto simp: present_def unsuspend_in_def)

lemma present_id: "\<forall>job \<in> set jobs. \<not> IsJobBeingDeleted job \<Longrightarrow> present jobs = jobs"
  by (simp add: present_def)

text \<open>
  \<open>responsive_api\<close>: the ControlledJob is found with a fixed specification, its jobs are listed as they
  are (the cache has caught up), and every write takes effect: a job whose name is not taken is
  created, an update of a stored job replaces it, a deleted job is removed or marked.
\<close>

definition same_object :: "'p controlled_job \<Rightarrow> 'p controlled_job \<Rightarrow> bool" where
  "same_object c c' \<longleftrightarrow> cjSpec c' = cjSpec c \<and> cjName c' = cjName c \<and> cjNamespace c' = cjNamespace c"

locale responsive_api = api_store api recorder target jobs_of
  for api :: "('p, 's) api_client" and recorder :: "('p, 's) recorder" and target :: namespaced_name
    and jobs_of :: "'s \<Rightarrow> 'p job list" +
  fixes c :: "'p controlled_job"
  assumes api_serves: "\<exists>c'. fst (apiGet api target s) = (c', None) \<and> same_object c c'"
    and api_lists: "fst (apiListByOwner api target s) = (jobs_of s, None)"
    and api_creates: "jobName job \<notin> jobName ` set (jobs_of s) \<Longrightarrow>
      fst (apiCreate api job s) = None \<and> jobs_of (snd (apiCreate api job s)) = jobs_of s @ [job]"
    and api_updates: "stored \<in> set (jobs_of s) \<Longrightarrow> distinct (map jobName (jobs_of s)) \<Longrightarrow>
      stored\<lparr>jobSpec := jobSpec job\<rparr> = job \<Longrightarrow> fst (apiUpdateJob api job s) = None
      \<and> jobs_of (snd (apiUpdateJob api job s)) = map (\<lambda>j. if j = stored then job else j) (jobs_of s)"
    and api_deletes: "fst (apiDelete api job DeletePropagationForeground s) = None
      \<and> removed_or_marked (jobName job) (jobs_of s) (jobs_of (snd (apiDelete api job DeletePropagationForeground s)))"
begin

text \<open>The reconciler's environment over this API.\<close>

definition reconciles_here :: "('p, 's) rec_env \<Rightarrow> bool" where
  "reconciles_here env \<longleftrightarrow> reClient env = NewFromClient api \<and> reRecorder env = recorder"

lemma loop_succeeds:
  assumes "reconciles_here env" "call job s = (None, s1)"
  shows "\<exists>w' s'. jobs_of s' = jobs_of s1
    \<and> actOnJobs (actOnJob env call event verb ty action okS okR okM) (job # js) (w, s)
      = actOnJobs (actOnJob env call event verb ty action okS okR okM) js (w', s')"
proof -
  obtain w1 s2 where n: "recordNow (opClock (reOp env)) recorder (\<lambda>now. action now (jobName job)) (w, s1) = (w1, s2)"
    by (metis prod.collapse)
  then have "jobs_of s2 = jobs_of s1" using adapter.recordNow_view [of "opClock (reOp env)" _ "(w, s1)"] by (metis snd_conv)
  moreover obtain w' where "actOnJob env call event verb ty action okS okR okM job (w, s) = (None, w', s2)"
    using n assms by (simp add: actOnJob_def reconciles_here_def)
  ultimately show ?thesis by (intro exI [of _ w'] exI [of _ s2]) simp
qed

lemma deletes_succeed:
  assumes "reconciles_here env" "distinct (map jobName (jobs_of s))"
  shows "\<exists>w' s'. deleteJobs env js (w, s) = (None, w', s') \<and> distinct (map jobName (jobs_of s'))
    \<and> set (map jobName (jobs_of s')) \<subseteq> set (map jobName (jobs_of s))
    \<and> present (jobs_of s') = filter (\<lambda>j. jobName j \<notin> jobName ` set js) (present (jobs_of s))"
  using assms(2)
proof (induction js arbitrary: w s)
  case Nil
  then show ?case by (simp add: deleteJobs_def)
next
  case (Cons job js)
  obtain s1 where s1: "apiDelete api job DeletePropagationForeground s = (None, s1)"
    "removed_or_marked (jobName job) (jobs_of s) (jobs_of s1)"
    using api_deletes [of job s] by (metis prod.collapse)
  then have "DeleteJob (reClient env) job DeletePropagationForeground s = (None, s1)"
    using assms(1) by (simp add: reconciles_here_def NewFromClient_def adapterDeleteJob_def IgnoreNotFound_def)
  from loop_succeeds [where call = "\<lambda>job. DeleteJob (reClient env) job DeletePropagationForeground" and job = job, OF assms(1) this]
  obtain w2 s2 where s2: "deleteJobs env (job # js) (w, s) = deleteJobs env js (w2, s2)" "jobs_of s2 = jobs_of s1"
    unfolding deleteJobs_def by blast
  note marked = removed_or_marked_present [OF s1(2), folded s2(2)]
  show ?case
    using Cons.IH [OF marked(2) [OF Cons.prems], of w2] marked(1,3) s2(1) by (auto intro: filter_cong)
qed

lemma create_succeeds:
  assumes "reconciles_here env" "js = [] \<or> (\<exists>job. js = [job] \<and> jobName job \<notin> jobName ` set (jobs_of s))"
  shows "\<exists>w' s'. createJobs env js (w, s) = (None, w', s') \<and> jobs_of s' = jobs_of s @ js"
  using assms(2)
proof (elim disjE exE conjE)
  fix job assume js: "js = [job]" and new: "jobName job \<notin> jobName ` set (jobs_of s)"
  obtain s1 where "apiCreate api job s = (None, s1)" "jobs_of s1 = jobs_of s @ [job]"
    using api_creates [OF new] by (metis prod.collapse)
  then have "CreateJob (reClient env) job s = (None, s1)"
    using assms(1) by (simp add: reconciles_here_def NewFromClient_def adapterCreateJob_def)
  from loop_succeeds [where call = "CreateJob (reClient env)" and job = job, OF assms(1) this] obtain w2 s2 where
    "createJobs env js (w, s) = createJobs env [] (w2, s2)" "jobs_of s2 = jobs_of s1"
    unfolding createJobs_def js by blast
  then show ?thesis using \<open>jobs_of s1 = _\<close> by (simp add: createJobs_def js)
qed (simp add: createJobs_def)

lemma unsuspend_succeeds:
  assumes "reconciles_here env" "js = [] \<or> (\<exists>job. js = [job] \<and> job \<in> set (jobs_of s))" "distinct (map jobName (jobs_of s))"
  shows "\<exists>w' s'. unsuspendJobs env js (w, s) = (None, w', s') \<and> jobs_of s' = unsuspend_in js (jobs_of s)"
  using assms(2)
proof (elim disjE exE conjE)
  fix job assume js: "js = [job]" and stored: "job \<in> set (jobs_of s)"
  have spec: "job\<lparr>jobSpec := jobSpec (set_suspend False job)\<rparr> = set_suspend False job"
    by (simp add: set_suspend_def)
  obtain s1 where "apiUpdateJob api (set_suspend False job) s = (None, s1)"
    "jobs_of s1 = map (\<lambda>j. if j = job then set_suspend False job else j) (jobs_of s)"
    using api_updates [OF stored assms(3) spec] by (metis prod.collapse)
  then have "UnsuspendJob (reClient env) job s = (None, s1)" "jobs_of s1 = unsuspend_in [job] (jobs_of s)"
    using assms(1) by (auto simp: reconciles_here_def NewFromClient_def adapterUnsuspendJob_def unsuspend_in_def)
  moreover from loop_succeeds [where call = "UnsuspendJob (reClient env)" and job = job, OF assms(1) this(1)] obtain w2 s2 where
    "unsuspendJobs env js (w, s) = unsuspendJobs env [] (w2, s2)" "jobs_of s2 = jobs_of s1"
    unfolding unsuspendJobs_def js by blast
  ultimately show ?thesis by (simp add: unsuspendJobs_def js)
qed (simp add: unsuspendJobs_def)

text \<open>A whole decision: what it leaves, but for jobs being deleted, is \<open>outcome_of\<close>.\<close>

lemma decision_carried_out:
  assumes here: "reconciles_here env"
    and d: "makeDecision (reOp env) w (jobs_of s) now en = Return d None" "buildState (reOp env) (cj w) (jobs_of s) now = Ok st"
    and st: "\<not> rsIsSuspended st" and names: "distinct (map jobName (jobs_of s))"
    and alive: "\<forall>job \<in> set (jobs_of s). \<not> IsJobBeingDeleted job"
    and r_def: "r = (en \<and> rsAutoRestartIsEnabled st)"
    and fresh: "jobs_at d (dCreate d) = created"
    "created = [] \<or> (\<exists>job. created = [job] \<and> jobName job \<notin> jobName ` set (jobs_of s) \<and> \<not> IsJobBeingDeleted job)"
    and single: "to_unsuspend st r (jobs_of s) = [] \<or> created = []"
  shows "\<exists>w' s'. applyDecision env d s = (None, w', s') \<and> present (jobs_of s') = outcome_of st r (jobs_of s) created"
proof -
  let ?jobs = "jobs_of s" and ?kept = "filter (\<lambda>j. \<not> to_delete st r (jobs_of s) j) (jobs_of s)"
  have del: "set (jobs_at d (dDelete d)) = {j \<in> set ?jobs. to_delete st r ?jobs j}"
    using mset_eq_setD [OF decision_deletions [OF d st names, folded r_def, folded mset_filter]] by auto
  have same: "j = k" if "j \<in> set ?jobs" "k \<in> set ?jobs" "jobName j = jobName k" for j k
    using names that by (auto simp: distinct_map inj_on_def)
  then have kept: "filter (\<lambda>j. jobName j \<notin> jobName ` set (jobs_at d (dDelete d))) (present ?jobs) = ?kept"
    unfolding present_id [OF alive] by (intro filter_cong) (auto simp: del)
  obtain w1 s1 where 1: "deleteJobs env (jobs_at d (dDelete d)) (dW d, s) = (None, w1, s1)" "present (jobs_of s1) = ?kept"
    "distinct (map jobName (jobs_of s1))" "set (map jobName (jobs_of s1)) \<subseteq> set (map jobName ?jobs)"
    using deletes_succeed [OF here names, of "jobs_at d (dDelete d)" "dW d"] kept by auto
  have new: "created = [] \<or> (\<exists>job. created = [job] \<and> jobName job \<notin> jobName ` set (jobs_of s1) \<and> \<not> IsJobBeingDeleted job)"
    using fresh(2) 1(4) unfolding set_map by blast
  obtain w2 s2 where 2: "createJobs env created (w1, s1) = (None, w2, s2)" "jobs_of s2 = jobs_of s1 @ created"
    using create_succeeds [OF here, of created s1 w1] new by auto
  have uns: "jobs_at d (dUnsuspend d) = to_unsuspend st r ?jobs" "dSuspend d = []"
    using decision_unsuspends [OF d st names] decision_cases [OF d st] by (auto simp: r_def)
  have listed: "to_unsuspend st r ?jobs = [] \<or> (\<exists>x. to_unsuspend st r ?jobs = [x] \<and> x \<in> set ?kept)"
  proof (cases "to_unsuspend st r ?jobs")
    case (Cons x xs)
    then have x: "survivor st r ?jobs = Some x" "xs = []"
      by (auto simp: to_unsuspend_def split: option.splits if_splits)
    then show ?thesis using Cons survivor_listed(1,2) [OF x(1)] by (simp add: to_delete_def)
  qed simp
  have "distinct (map jobName (jobs_of s2))" using new 1(3) by (elim disjE exE conjE) (simp_all add: 2(2))
  moreover have "set ?kept \<subseteq> set (jobs_of s2)" by (auto simp: 2(2) simp flip: 1(2))
  ultimately obtain w3 s3 where 3: "unsuspendJobs env (to_unsuspend st r ?jobs) (w2, s2) = (None, w3, s3)"
    "jobs_of s3 = unsuspend_in (to_unsuspend st r ?jobs) (jobs_of s1 @ created)"
    using unsuspend_succeeds [OF here, of "to_unsuspend st r ?jobs" s2 w2] listed 2(2) by auto
  have "jobs_at d (dSuspend d) = []" by (simp add: uns(2) jobs_at_def)
  then have "applyDecision env d s = (None, w3, s3)"
    using 1(1) 2(1) 3(1) fresh(1) by (simp add: applyDecision_def orElse_def uns(1) suspendJobs_def)
  moreover have "present created = created" using new by (auto simp: present_def)
  then have "present (jobs_of s3) = unsuspend_in (to_unsuspend st r ?jobs) (?kept @ created)"
    by (simp add: 3(2) 1(2) del: present_simps(2))
  then have "present (jobs_of s3) = outcome_of st r ?jobs created"
    using single by (auto simp: outcome_of_def unsuspend_in_def)
  ultimately show ?thesis by blast
qed

lemma run_outcome:
  assumes "reconciles_here env"
    and "\<And>c' s1. same_object c c' \<Longrightarrow> jobs_of s1 = jobs_of s \<Longrightarrow> \<exists>d w' s'.
      makeDecision (reOp env) \<lparr>cj = c', ticks = 0\<rparr> (jobs_of s) now (reEnableAutoRecreate env) = Return d None
      \<and> applyDecision env d s1 = (None, w', s') \<and> P (jobs_of s')"
  shows "\<exists>r s'. Reconcile env target now s = Finished r s' \<and> rrError r = None \<and> P (jobs_of s')"
proof -
  have env: "reClient env = NewFromClient api" "reRecorder env = recorder"
    using assms(1) by (simp_all add: reconciles_here_def)
  obtain c' where c': "fst (apiGet api target s) = (c', None)" "same_object c c'" using api_serves by blast
  obtain s0 where g: "apiGet api target s = ((c', None), s0)" using c'(1) by (metis prod.collapse)
  have s0: "jobs_of s0 = jobs_of s" using api_get [of s] g by simp
  obtain jobs s1 where l: "apiListByOwner api target s0 = ((jobs, None), s1)"
    using api_lists [of s0] by (metis prod.collapse)
  then have s1: "jobs = jobs_of s" "jobs_of s1 = jobs_of s" using api_lists [of s0] api_list [of s0] s0 by simp_all
  have load: "loadFromCluster (NewFromClient api) target s = ((Some (c', jobs_of s), None), s1)"
    using g l s1(1) by (simp add: loadFromCluster_def NewFromClient_def adapterGetControlledJob_def adapterListJobs_def
        IgnoreNotFound_def)
  obtain d w' s2 where d: "makeDecision (reOp env) \<lparr>cj = c', ticks = 0\<rparr> (jobs_of s) now (reEnableAutoRecreate env) = Return d None"
    "applyDecision env d s1 = (None, w', s2)" "P (jobs_of s2)"
    using assms(2) [OF c'(2) s1(2)] by blast
  obtain w3 s3 where f: "deferredCalls env None (w', s2) = (w3, s3)" by (metis prod.collapse)
  then have "P (jobs_of s3)" using adapter.deferred_view [OF env, of None "(w', s2)"] d(3) by simp
  then show ?thesis using load d f env by (simp add: Reconcile_def)
qed

end

section \<open>Runs inside a period\<close>

text \<open>The schedule evaluates to the same period \<open>per\<close> at all times of \<open>T\<close>.\<close>

definition same_period :: "'p op_env \<Rightarrow> 'p controlled_job \<Rightarrow> rec_state \<Rightarrow> gotime set \<Rightarrow> bool" where
  "same_period op c per T \<longleftrightarrow> (\<forall>now \<in> T. \<forall>c' jobs. same_object c c' \<longrightarrow>
     (\<exists>st. buildState op c' jobs now = Ok st \<and> period_view st = per))"

definition restarts :: "('p, 's) rec_env \<Rightarrow> rec_state \<Rightarrow> bool" where
  "restarts env per \<longleftrightarrow> reEnableAutoRecreate env \<and> rsAutoRestartIsEnabled per"

lemma view_outcome [simp]:
  "outcome_of (period_view st) r jobs created = outcome_of st r jobs created"
  "tidy (period_view st) r jobs x = tidy st r jobs x" "calm (period_view st) r jobs x = calm st r jobs x"
  "from_first (period_view st) jobs0 x = from_first st jobs0 x"
  by (simp_all add: outcome_of_def tidy_def calm_def from_first_def chosen_at_first_def view_simps)

context responsive_api
begin

text \<open>The first run: from jobs the operator may have made to a tidy list.\<close>

text \<open>The first decision of the period: no job is chosen that is to be replaced, or one is created that is kept.\<close>

lemma no_request_kept:
  assumes "job_request st r jobs = None" "shouldRun st" "rsStartOfCurrentRunPeriod st \<noteq> None"
    and "distinct (map jobName jobs)" "\<forall>job \<in> set jobs. \<exists>t. GetScheduledTime job = Ok t"
  shows "\<exists>x. chosenJob st jobs = Some x \<and> \<not> replaced st r x"
proof (cases "chosenJob st jobs")
  case None
  then show ?thesis using assms(1-3) by (auto simp: job_request_def)
next
  case (Some x)
  then have "x \<in> set jobs" using chosenJob_iff [OF assms(4)] by (auto simp: is_best_def)
  then show ?thesis using assms(1,5) Some by (fastforce simp: job_request_def split: if_splits outcome.splits)
qed

lemma first_decision:
  assumes here: "reconciles_here env" and per: "same_period (reOp env) c per T" "now \<in> T" "period_under_way per"
    and builder: "only_owner_references (opJobs (reOp env))" "benign_mutators (opJobs (reOp env))" "builder_works (opJobs (reOp env))"
    and deadline: "\<not> startingDeadlineSecondsExceeded c (rsStartOfCurrentRunPeriod per) now"
    and jobs: "\<forall>job \<in> set (jobs_of s). sound_job c job" "distinct (map jobName (jobs_of s))"
    and c': "same_object c c'" and s1: "jobs_of s1 = jobs_of s"
  shows "\<exists>d w' s'. makeDecision (reOp env) \<lparr>cj = c', ticks = 0\<rparr> (jobs_of s) now (reEnableAutoRecreate env) = Return d None
      \<and> applyDecision env d s1 = (None, w', s')
      \<and> (\<exists>x. tidy per (restarts env per) (present (jobs_of s')) x \<and> from_first per (jobs_of s) x)"
proof -
  let ?en = "reEnableAutoRecreate env" and ?R = "restarts env per"
  let ?w = "\<lparr>cj = c', ticks = 0\<rparr>" and ?jobs = "jobs_of s"
  obtain st where st: "buildState (reOp env) (cj ?w) ?jobs now = Ok st" and view: "per = period_view st"
    using per(1,2) c' unfolding same_period_def by (metis cjw.select_convs(1))
  have r: "?en \<and> rsAutoRestartIsEnabled st \<longleftrightarrow> ?R" by (simp add: restarts_def view view_simps)
  have way: "period_under_way st" using per(3) by (simp add: period_under_way_def view view_simps)
  then have run: "\<not> rsIsSuspended st" "shouldRun st" by (simp_all add: period_under_way_def)
  have sound: "\<forall>job \<in> set ?jobs. sound_job c' job" using jobs(1) c' by (simp add: sound_job_def same_object_def)
  then have alive: "\<forall>job \<in> set ?jobs. \<not> IsJobBeingDeleted job" by (simp add: sound_job_def)
  have "\<not> startingDeadlineSecondsExceeded c' (rsStartOfCurrentRunPeriod st) now"
    using deadline c' by (simp add: view view_simps same_object_def startingDeadlineSecondsExceeded_def)
  moreover have "\<exists>t. GetScheduledTime (?jobs ! a) = Ok t" if "currentChoice st ?jobs = Some a" for a
  proof -
    have "?jobs ! a \<in> set ?jobs" using bestCurrent_Some(1) [OF currentChoice_Some(1) [OF that]] by simp
    then show ?thesis using sound by (auto simp: sound_job_def)
  qed
  ultimately obtain d where d: "makeDecision (reOp env) ?w ?jobs now ?en = Return d None"
    using decision_reached [OF st run(1), of ?en] builder(3) by auto
  note creates = decision_creates [OF d st run(1), unfolded r]
  show ?thesis
  proof (cases "job_request st ?R ?jobs")
    case None
    have "\<forall>job \<in> set ?jobs. \<exists>t. GetScheduledTime job = Ok t" using sound by (auto simp: sound_job_def)
    from no_request_kept [OF None run(2) _ jobs(2) this] have "\<exists>x. chosenJob st ?jobs = Some x \<and> \<not> replaced st ?R x"
      using shouldRun_start [OF st run(2)] by blast
    then obtain x where x: "chosenJob st ?jobs = Some x" "\<not> replaced st ?R x" by blast
    from kept_tidy [OF jobs(2) alive x] obtain x' where "tidy st ?R (outcome_of st ?R ?jobs []) x'"
      "jobName x' = jobName x" "isOutOfDate x' st = isOutOfDate x st" by blast
    then have "tidy st ?R (outcome_of st ?R ?jobs []) x' \<and> from_first st ?jobs x'"
      using x(1) by (simp add: from_first_def chosen_at_first_def)
    moreover have "jobs_at d (dCreate d) = []" using creates None by (simp add: jobs_at_def)
    ultimately show ?thesis
      using decision_carried_out [OF here, where s = s1 and created = "[]", unfolded s1, OF d st run(1) jobs(2) alive r [symmetric]] d
      by (auto simp: view)
  next
    case (Some req)
    obtain t i manual where req: "req = (t, i, manual)" by (cases req)
    obtain c'' j where j: "same_but_status c' c''" "buildJob (opJobs (reOp env)) c'' t i manual True = Ok j"
      "jobs_at d (dCreate d) = [as_created ?jobs j]"
      using creates Some req by auto
    note new = new_job_current [OF way buildState_fields(3) [OF st, simplified] builder(1,2) sound jobs(2) Some [unfolded req] j(1,2)]
    have expired: "\<not> isExpired st (as_created ?jobs j)" using new(2) by (simp add: isExpired_def split: option.splits)
    have "tidy st ?R (outcome_of st ?R ?jobs [as_created ?jobs j]) (as_created ?jobs j) \<and> from_first st ?jobs (as_created ?jobs j)"
      using created_tidy [OF jobs(2) alive run(2) new(4), where n = "as_created ?jobs j"] new(1,3,5) expired
      by (auto simp: from_first_def isOutOfDate_def)
    moreover have "to_unsuspend st ?R ?jobs = []"
      using new(4) by (auto simp: to_unsuspend_def survivor_def)
    ultimately show ?thesis
      using decision_carried_out [OF here, where s = s1 and created = "[as_created ?jobs j]", unfolded s1, OF d st run(1) jobs(2) alive r [symmetric] j(3)]
        new(1,5) d by (auto simp: view)
  qed
qed

lemma first_run:
  assumes here: "reconciles_here env" and per: "same_period (reOp env) c per T" "now \<in> T" "period_under_way per"
    and builder: "only_owner_references (opJobs (reOp env))" "benign_mutators (opJobs (reOp env))" "builder_works (opJobs (reOp env))"
    and deadline: "\<not> startingDeadlineSecondsExceeded c (rsStartOfCurrentRunPeriod per) now"
    and jobs: "\<forall>job \<in> set (jobs_of s). sound_job c job" "distinct (map jobName (jobs_of s))"
  shows "\<exists>r s' x. Reconcile env target now s = Finished r s' \<and> rrError r = None
    \<and> tidy per (restarts env per) (present (jobs_of s')) x \<and> from_first per (jobs_of s) x"
proof -
  have "\<exists>r s'. Reconcile env target now s = Finished r s' \<and> rrError r = None
      \<and> (\<exists>x. tidy per (restarts env per) (present (jobs_of s')) x \<and> from_first per (jobs_of s) x)"
    by (rule run_outcome [OF here]) (rule first_decision [OF assms])
  then show ?thesis by blast
qed

text \<open>A run on a tidy list creates and deletes nothing.\<close>

lemma tidy_run:
  assumes here: "reconciles_here env" and per: "same_period (reOp env) c per T" "now \<in> T" "period_under_way per"
    and tidy: "tidy per (restarts env per) (jobs_of s) x"
  shows "\<exists>r s'. Reconcile env target now s = Finished r s' \<and> rrError r = None
    \<and> present (jobs_of s') = outcome_of per (restarts env per) (jobs_of s) []"
proof (rule run_outcome [OF here])
  let ?en = "reEnableAutoRecreate env" and ?R = "restarts env per" and ?jobs = "jobs_of s"
  fix c' s1
  assume c': "same_object c c'" and s1: "jobs_of s1 = ?jobs"
  let ?w = "\<lparr>cj = c', ticks = 0\<rparr>"
  obtain st where st: "buildState (reOp env) (cj ?w) ?jobs now = Ok st" and view: "per = period_view st"
    using per(1,2) c' unfolding same_period_def by (metis cjw.select_convs(1))
  have r: "?R = (?en \<and> rsAutoRestartIsEnabled st)" by (simp add: restarts_def view view_simps)
  have run: "\<not> rsIsSuspended st" using per(3) by (simp add: period_under_way_def view view_simps)
  have chosen: "chosenJob st ?jobs = Some x" "\<not> replaced st ?R x" and names: "distinct (map jobName ?jobs)"
    and alive: "\<forall>job \<in> set ?jobs. \<not> IsJobBeingDeleted job"
    using tidy by (simp_all add: view tidy_def)
  have due: "\<not> recreate_due st ?R ?jobs" "currentChoice st ?jobs \<noteq> None"
    using chosen by (auto simp: recreate_due_chosen chosenJob_None [symmetric])
  obtain d where d: "makeDecision (reOp env) ?w ?jobs now ?en = Return d None"
    using decision_reached [OF st run, of ?en] due unfolding r by blast
  have "dCreate d = []"
    using decision_creates [OF d st run, folded r] tidy_listed(4) [OF tidy] by (simp add: view)
  then have created: "jobs_at d (dCreate d) = []" by (simp add: jobs_at_def)
  obtain w' s' where "applyDecision env d s1 = (None, w', s')" "present (jobs_of s') = outcome_of st ?R ?jobs []"
    using decision_carried_out [OF here, where s = s1 and created = "[]", unfolded s1, OF d st run names alive r created] by auto
  then show "\<exists>d w' s'. makeDecision (reOp env) ?w ?jobs now ?en = Return d None \<and> applyDecision env d s1 = (None, w', s')
      \<and> present (jobs_of s') = outcome_of per ?R ?jobs []"
    using d by (auto simp: view)
qed

lemma calming_runs:
  assumes "reconciles_here env" "same_period (reOp env) c per T" "now \<in> T" "period_under_way per"
  shows "tidy per (restarts env per) (jobs_of s) x \<Longrightarrow> from_first per jobs0 x \<Longrightarrow>
      \<exists>r s' y. Reconcile env target now s = Finished r s' \<and> rrError r = None
        \<and> calm per (restarts env per) (present (jobs_of s')) y \<and> from_first per jobs0 y"
    and "calm per (restarts env per) (jobs_of s) x \<Longrightarrow>
      \<exists>r s'. Reconcile env target now s = Finished r s' \<and> rrError r = None \<and> present (jobs_of s') = jobs_of s"
proof -
  note run = tidy_run [OF assms]
  show "\<exists>r s' y. Reconcile env target now s = Finished r s' \<and> rrError r = None
      \<and> calm per (restarts env per) (present (jobs_of s')) y \<and> from_first per jobs0 y"
    if "tidy per (restarts env per) (jobs_of s) x" "from_first per jobs0 x"
    using run [OF that(1)] tidy_calms [OF that(1)] from_first_same [OF that(2)] by metis
  show "\<exists>r s'. Reconcile env target now s = Finished r s' \<and> rrError r = None \<and> present (jobs_of s') = jobs_of s"
    if "calm per (restarts env per) (jobs_of s) x"
    using run [of s x] that by (simp add: calm_stays [OF that]) (simp add: calm_def)
qed

end

section \<open>Sequences of runs\<close>

text \<open>
  \<open>run_all\<close>: one run after the other, at the given times, as long as none fails; \<open>world\<close> is what
  happens in the cluster between two runs. \<open>collects\<close>: the garbage collector finishes its
  deletions, and nothing else happens to the jobs.
\<close>

fun run_all :: "('p, 's) rec_env \<Rightarrow> ('s \<Rightarrow> 's) \<Rightarrow> namespaced_name \<Rightarrow> gotime list \<Rightarrow> 's \<Rightarrow> 's option" where
  "run_all env world target [] s = Some s"
| "run_all env world target (now # runs) s =
     (case Reconcile env target now s of
        Finished r s' \<Rightarrow> if rrError r = None then run_all env world target runs (world s') else None
      | _ \<Rightarrow> None)"

definition collects :: "('s \<Rightarrow> 's) \<Rightarrow> ('s \<Rightarrow> 'p job list) \<Rightarrow> bool" where
  "collects world jobs_of \<longleftrightarrow> (\<forall>s. jobs_of (world s) = present (jobs_of s))"

context responsive_api
begin

lemma calm_runs:
  assumes "reconciles_here env" "same_period (reOp env) c per T" "period_under_way per" "collects world jobs_of"
    and "set runs \<subseteq> T" "calm per (restarts env per) (jobs_of s) x"
  shows "\<exists>s'. run_all env world target runs s = Some s' \<and> jobs_of s' = jobs_of s"
  using assms(5,6)
proof (induction runs arbitrary: s)
  case (Cons now runs)
  have "now \<in> T" using Cons.prems(1) by simp
  from calming_runs(2) [OF assms(1,2) this assms(3) Cons.prems(2)] obtain r s1 where
    1: "Reconcile env target now s = Finished r s1" "rrError r = None" "present (jobs_of s1) = jobs_of s" by blast
  then have "jobs_of (world s1) = jobs_of s" using assms(4) by (simp add: collects_def)
  then show ?case using Cons.IH [of "world s1"] Cons.prems 1 by auto
qed simp

end

text \<open>
  C7: Inside a run period the operator reaches its goal and stays there. The ControlledJob is served
  with a fixed specification, its jobs are listed exactly as they are, every call succeeds (deleted
  jobs may be gone or marked), and between two runs deletions are completed and nothing else
  happens to the jobs. The builder works; the jobs at first are of the kind the operator makes, with
  different names; all runs fall into one run period that is under way, and the first is made before
  the starting deadline. Then the first and the second run succeed and leave one chosen job that
  runs, has completed or was stopped by the user, no expired job and none being deleted, and every
  other job completed. With automatic recreation on, the chosen job is up to date unless it does
  not run. With it off, it is up to date unless it was chosen, and out of date, at first; such a job
  is left alone. Every later run of the period succeeds and leaves the jobs exactly as they are.
\<close>

theorem operator_converges:
  assumes "responsive_api api (reRecorder env) target jobs_of c" "reClient env = NewFromClient api"
    and "same_period (reOp env) c per T" "period_under_way per"
    and "only_owner_references (opJobs (reOp env))" "benign_mutators (opJobs (reOp env))" "builder_works (opJobs (reOp env))"
    and "\<not> startingDeadlineSecondsExceeded c (rsStartOfCurrentRunPeriod per) now"
    and "\<forall>job \<in> set (jobs_of s). sound_job c job" "distinct (map jobName (jobs_of s))"
    and "set (now # now2 # runs) \<subseteq> T" "collects world jobs_of"
  shows "\<exists>s2 s'. run_all env world target [now, now2] s = Some s2
    \<and> settled per (restarts env per) (jobs_of s) (jobs_of s2)
    \<and> run_all env world target (now # now2 # runs) s = Some s' \<and> jobs_of s' = jobs_of s2"
proof -
  note api = assms(1)
  have here: "responsive_api.reconciles_here api (reRecorder env) env"
    by (simp add: responsive_api.reconciles_here_def [OF api] assms(2))
  have T: "now \<in> T" "now2 \<in> T" "set runs \<subseteq> T" using assms(11) by simp_all
  have world: "jobs_of (world s) = present (jobs_of s)" for s using assms(12) by (simp add: collects_def)
  from responsive_api.first_run [OF api here assms(3) T(1) assms(4-10)] obtain r1 s1 x where
    1: "Reconcile env target now s = Finished r1 s1" "rrError r1 = None"
    "tidy per (restarts env per) (jobs_of (world s1)) x" "from_first per (jobs_of s) x" by (auto simp: world)
  from responsive_api.calming_runs(1) [OF api here assms(3) T(2) assms(4) 1(3,4)] obtain r2 s2 y where
    2: "Reconcile env target now2 (world s1) = Finished r2 s2" "rrError r2 = None"
    "calm per (restarts env per) (jobs_of (world s2)) y" "from_first per (jobs_of s) y" by (auto simp: world)
  from responsive_api.calm_runs [OF api here assms(3,4,12) T(3) 2(3)] obtain s' where
    "run_all env world target runs (world s2) = Some s'" "jobs_of s' = jobs_of (world s2)" by blast
  then show ?thesis using 1 2 calm_settled [OF 2(3,4)] by auto
qed

end
