(* ===== verification/Mocks.thy ===== *)
theory Mocks
  imports ReconcileCorrect
begin

text \<open>
  The generated mocks \<^verbatim>\<open>controlled_job_client_mock.go\<close>, \<^verbatim>\<open>event_recorder_mock.go\<close> and
  \<^verbatim>\<open>handler_mock.go\<close>, on which the tests of the reconciler run. A mock has one function per
  method, which may be nil, and a list of the arguments of the calls made to each method. Its
  functions do not change during a test, so a mock is a record of functions, and its lists are
  state, beside the state \<open>'s\<close> its functions work on. Contexts are left out, and the locks, as a
  test makes one call at a time. Arguments are recorded as they are passed: \<open>'c\<close> and \<open>'j\<close> stand
  for the pointers to ControlledJobs and jobs.
\<close>

section \<open>Calling a mock\<close>

text \<open>A method panics if its function is nil; otherwise the call is recorded before it is made.\<close>

definition mocked :: "('s \<Rightarrow> 'r \<times> 's) option \<Rightarrow> ('calls \<Rightarrow> 'calls) \<Rightarrow> 'calls \<times> 's \<Rightarrow> ('r \<times> 'calls \<times> 's) outcome" where
  "mocked func note st =
     (case func of
        None \<Rightarrow> Panic
      | Some f \<Rightarrow> let (calls, s) = st; (r, s') = f s in Ok (r, note calls, s'))"

section \<open>\<open>ControlledJobClientMock\<close>\<close>

record ('c, 'j, 's) client_mock =
  CreateJobFunc :: "('j \<Rightarrow> 's \<Rightarrow> go_error option \<times> 's) option"
  DeleteJobFunc :: "('j \<Rightarrow> string \<Rightarrow> 's \<Rightarrow> go_error option \<times> 's) option"
  GetControlledJobFunc :: "(namespaced_name \<Rightarrow> 's \<Rightarrow> ('c option \<times> bool \<times> go_error option) \<times> 's) option"
  ListJobsForControlledJobFunc :: "(namespaced_name \<Rightarrow> 's \<Rightarrow> ('j list \<times> go_error option) \<times> 's) option"
  SuspendJobFunc :: "('j \<Rightarrow> 's \<Rightarrow> go_error option \<times> 's) option"
  UnsuspendJobFunc :: "('j \<Rightarrow> 's \<Rightarrow> go_error option \<times> 's) option"
  UpdateControlledJobFunc :: "('c \<Rightarrow> 's \<Rightarrow> go_error option \<times> 's) option"
  UpdateStatusFunc :: "('c \<Rightarrow> 's \<Rightarrow> go_error option \<times> 's) option"

record ('c, 'j) client_calls =
  calledCreateJob :: "'j list"
  calledDeleteJob :: "('j \<times> string) list"
  calledGetControlledJob :: "namespaced_name list"
  calledListJobsForControlledJob :: "namespaced_name list"
  calledSuspendJob :: "'j list"
  calledUnsuspendJob :: "'j list"
  calledUpdateControlledJob :: "'c list"
  calledUpdateStatus :: "'c list"

definition mockCreateJob ::
  "('c, 'j, 's) client_mock \<Rightarrow> 'j \<Rightarrow> ('c, 'j) client_calls \<times> 's \<Rightarrow> (go_error option \<times> ('c, 'j) client_calls \<times> 's) outcome" where
  "mockCreateJob mock job =
     mocked (map_option (\<lambda>f. f job) (CreateJobFunc mock))
       (\<lambda>calls. calls\<lparr>calledCreateJob := calledCreateJob calls @ [job]\<rparr>)"

definition mockDeleteJob ::
  "('c, 'j, 's) client_mock \<Rightarrow> 'j \<Rightarrow> string \<Rightarrow> ('c, 'j) client_calls \<times> 's
   \<Rightarrow> (go_error option \<times> ('c, 'j) client_calls \<times> 's) outcome" where
  "mockDeleteJob mock job propagation =
     mocked (map_option (\<lambda>f. f job propagation) (DeleteJobFunc mock))
       (\<lambda>calls. calls\<lparr>calledDeleteJob := calledDeleteJob calls @ [(job, propagation)]\<rparr>)"

definition mockGetControlledJob ::
  "('c, 'j, 's) client_mock \<Rightarrow> namespaced_name \<Rightarrow> ('c, 'j) client_calls \<times> 's
   \<Rightarrow> (('c option \<times> bool \<times> go_error option) \<times> ('c, 'j) client_calls \<times> 's) outcome" where
  "mockGetControlledJob mock namespacedName =
     mocked (map_option (\<lambda>f. f namespacedName) (GetControlledJobFunc mock))
       (\<lambda>calls. calls\<lparr>calledGetControlledJob := calledGetControlledJob calls @ [namespacedName]\<rparr>)"

definition mockListJobsForControlledJob ::
  "('c, 'j, 's) client_mock \<Rightarrow> namespaced_name \<Rightarrow> ('c, 'j) client_calls \<times> 's
   \<Rightarrow> (('j list \<times> go_error option) \<times> ('c, 'j) client_calls \<times> 's) outcome" where
  "mockListJobsForControlledJob mock namespacedName =
     mocked (map_option (\<lambda>f. f namespacedName) (ListJobsForControlledJobFunc mock))
       (\<lambda>calls. calls\<lparr>calledListJobsForControlledJob := calledListJobsForControlledJob calls @ [namespacedName]\<rparr>)"

definition mockSuspendJob ::
  "('c, 'j, 's) client_mock \<Rightarrow> 'j \<Rightarrow> ('c, 'j) client_calls \<times> 's \<Rightarrow> (go_error option \<times> ('c, 'j) client_calls \<times> 's) outcome" where
  "mockSuspendJob mock job =
     mocked (map_option (\<lambda>f. f job) (SuspendJobFunc mock))
       (\<lambda>calls. calls\<lparr>calledSuspendJob := calledSuspendJob calls @ [job]\<rparr>)"

definition mockUnsuspendJob ::
  "('c, 'j, 's) client_mock \<Rightarrow> 'j \<Rightarrow> ('c, 'j) client_calls \<times> 's \<Rightarrow> (go_error option \<times> ('c, 'j) client_calls \<times> 's) outcome" where
  "mockUnsuspendJob mock job =
     mocked (map_option (\<lambda>f. f job) (UnsuspendJobFunc mock))
       (\<lambda>calls. calls\<lparr>calledUnsuspendJob := calledUnsuspendJob calls @ [job]\<rparr>)"

definition mockUpdateControlledJob ::
  "('c, 'j, 's) client_mock \<Rightarrow> 'c \<Rightarrow> ('c, 'j) client_calls \<times> 's \<Rightarrow> (go_error option \<times> ('c, 'j) client_calls \<times> 's) outcome" where
  "mockUpdateControlledJob mock controlledJob =
     mocked (map_option (\<lambda>f. f controlledJob) (UpdateControlledJobFunc mock))
       (\<lambda>calls. calls\<lparr>calledUpdateControlledJob := calledUpdateControlledJob calls @ [controlledJob]\<rparr>)"

definition mockUpdateStatus ::
  "('c, 'j, 's) client_mock \<Rightarrow> 'c \<Rightarrow> ('c, 'j) client_calls \<times> 's \<Rightarrow> (go_error option \<times> ('c, 'j) client_calls \<times> 's) outcome" where
  "mockUpdateStatus mock controlledJob =
     mocked (map_option (\<lambda>f. f controlledJob) (UpdateStatusFunc mock))
       (\<lambda>calls. calls\<lparr>calledUpdateStatus := calledUpdateStatus calls @ [controlledJob]\<rparr>)"

text \<open>What a test reads: the calls so far, by method.\<close>

definition CreateJobCalls :: "('c, 'j) client_calls \<times> 's \<Rightarrow> 'j list" where
  "CreateJobCalls st = calledCreateJob (fst st)"

definition DeleteJobCalls :: "('c, 'j) client_calls \<times> 's \<Rightarrow> ('j \<times> string) list" where
  "DeleteJobCalls st = calledDeleteJob (fst st)"

definition GetControlledJobCalls :: "('c, 'j) client_calls \<times> 's \<Rightarrow> namespaced_name list" where
  "GetControlledJobCalls st = calledGetControlledJob (fst st)"

definition ListJobsForControlledJobCalls :: "('c, 'j) client_calls \<times> 's \<Rightarrow> namespaced_name list" where
  "ListJobsForControlledJobCalls st = calledListJobsForControlledJob (fst st)"

definition SuspendJobCalls :: "('c, 'j) client_calls \<times> 's \<Rightarrow> 'j list" where
  "SuspendJobCalls st = calledSuspendJob (fst st)"

definition UnsuspendJobCalls :: "('c, 'j) client_calls \<times> 's \<Rightarrow> 'j list" where
  "UnsuspendJobCalls st = calledUnsuspendJob (fst st)"

definition UpdateControlledJobCalls :: "('c, 'j) client_calls \<times> 's \<Rightarrow> 'c list" where
  "UpdateControlledJobCalls st = calledUpdateControlledJob (fst st)"

definition UpdateStatusCalls :: "('c, 'j) client_calls \<times> 's \<Rightarrow> 'c list" where
  "UpdateStatusCalls st = calledUpdateStatus (fst st)"

section \<open>\<open>EventRecorderMock\<close>\<close>

record ('o, 'a, 's) recorder_mock =
  AnnotatedEventfFunc :: "('o \<Rightarrow> (string \<rightharpoonup> string) \<Rightarrow> string \<Rightarrow> string \<Rightarrow> string \<Rightarrow> 'a list \<Rightarrow> 's \<Rightarrow> 's) option"
  EventFunc :: "('o \<Rightarrow> string \<Rightarrow> string \<Rightarrow> string \<Rightarrow> 's \<Rightarrow> 's) option"
  EventfFunc :: "('o \<Rightarrow> string \<Rightarrow> string \<Rightarrow> string \<Rightarrow> 'a list \<Rightarrow> 's \<Rightarrow> 's) option"

record ('o, 'a) recorder_calls =
  calledAnnotatedEventf :: "('o \<times> (string \<rightharpoonup> string) \<times> string \<times> string \<times> string \<times> 'a list) list"
  calledEvent :: "('o \<times> string \<times> string \<times> string) list"
  calledEventf :: "('o \<times> string \<times> string \<times> string \<times> 'a list) list"

definition mockAnnotatedEventf ::
  "('o, 'a, 's) recorder_mock \<Rightarrow> 'o \<Rightarrow> (string \<rightharpoonup> string) \<Rightarrow> string \<Rightarrow> string \<Rightarrow> string \<Rightarrow> 'a list
   \<Rightarrow> ('o, 'a) recorder_calls \<times> 's \<Rightarrow> (unit \<times> ('o, 'a) recorder_calls \<times> 's) outcome" where
  "mockAnnotatedEventf mock object annotations eventtype reason messageFmt args =
     mocked (map_option (\<lambda>f s. ((), f object annotations eventtype reason messageFmt args s)) (AnnotatedEventfFunc mock))
       (\<lambda>calls. calls\<lparr>calledAnnotatedEventf :=
          calledAnnotatedEventf calls @ [(object, annotations, eventtype, reason, messageFmt, args)]\<rparr>)"

definition mockEvent ::
  "('o, 'a, 's) recorder_mock \<Rightarrow> 'o \<Rightarrow> string \<Rightarrow> string \<Rightarrow> string
   \<Rightarrow> ('o, 'a) recorder_calls \<times> 's \<Rightarrow> (unit \<times> ('o, 'a) recorder_calls \<times> 's) outcome" where
  "mockEvent mock object eventtype reason message =
     mocked (map_option (\<lambda>f s. ((), f object eventtype reason message s)) (EventFunc mock))
       (\<lambda>calls. calls\<lparr>calledEvent := calledEvent calls @ [(object, eventtype, reason, message)]\<rparr>)"

definition mockEventf ::
  "('o, 'a, 's) recorder_mock \<Rightarrow> 'o \<Rightarrow> string \<Rightarrow> string \<Rightarrow> string \<Rightarrow> 'a list
   \<Rightarrow> ('o, 'a) recorder_calls \<times> 's \<Rightarrow> (unit \<times> ('o, 'a) recorder_calls \<times> 's) outcome" where
  "mockEventf mock object eventtype reason messageFmt args =
     mocked (map_option (\<lambda>f s. ((), f object eventtype reason messageFmt args s)) (EventfFunc mock))
       (\<lambda>calls. calls\<lparr>calledEventf := calledEventf calls @ [(object, eventtype, reason, messageFmt, args)]\<rparr>)"

definition AnnotatedEventfCalls :: "('o, 'a) recorder_calls \<times> 's \<Rightarrow> ('o \<times> (string \<rightharpoonup> string) \<times> string \<times> string \<times> string \<times> 'a list) list" where
  "AnnotatedEventfCalls st = calledAnnotatedEventf (fst st)"

definition EventCalls :: "('o, 'a) recorder_calls \<times> 's \<Rightarrow> ('o \<times> string \<times> string \<times> string) list" where
  "EventCalls st = calledEvent (fst st)"

definition EventfCalls :: "('o, 'a) recorder_calls \<times> 's \<Rightarrow> ('o \<times> string \<times> string \<times> string \<times> 'a list) list" where
  "EventfCalls st = calledEventf (fst st)"

section \<open>\<open>HandlerMock\<close>\<close>

record ('c, 'e, 's) handler_mock =
  RecordEventFunc :: "('c \<Rightarrow> 'e \<Rightarrow> 's \<Rightarrow> 's) option"

definition mockRecordEvent ::
  "('c, 'e, 's) handler_mock \<Rightarrow> 'c \<Rightarrow> 'e \<Rightarrow> ('c \<times> 'e) list \<times> 's \<Rightarrow> (unit \<times> ('c \<times> 'e) list \<times> 's) outcome" where
  "mockRecordEvent mock controlledJob action =
     mocked (map_option (\<lambda>f s. ((), f controlledJob action s)) (RecordEventFunc mock))
       (\<lambda>calls. calls @ [(controlledJob, action)])"

definition RecordEventCalls :: "('c \<times> 'e) list \<times> 's \<Rightarrow> ('c \<times> 'e) list" where
  "RecordEventCalls st = fst st"

lemmas calls_accessors = CreateJobCalls_def DeleteJobCalls_def GetControlledJobCalls_def ListJobsForControlledJobCalls_def
  SuspendJobCalls_def UnsuspendJobCalls_def UpdateControlledJobCalls_def UpdateStatusCalls_def
  AnnotatedEventfCalls_def EventCalls_def EventfCalls_def RecordEventCalls_def

end
