(* ===== verification/RunMorphism.thy ===== *)
theory RunMorphism
  imports Mocks
begin

text \<open>
  \<^verbatim>\<open>Reconcile\<close> knows its client by its answers only. \<open>run_morphism\<close> is the interface for that:
  two environments whose clients give the same answers on states related by \<open>abs\<close>, so their runs
  are related too. It is used for the client that traces its calls, and for the mock the tests
  use.
\<close>

section \<open>Related runs\<close>

primrec map_run :: "('s \<Rightarrow> 't) \<Rightarrow> 's rec_outcome \<Rightarrow> 't rec_outcome" where
  "map_run f (Finished r s) = Finished r (f s)"
| "map_run f (Panicked s) = Panicked (f s)"
| "map_run f NeverReturns = NeverReturns"

lemma map_run_eqs:
  "map_run f x = Finished r t \<longleftrightarrow> (\<exists>s. x = Finished r s \<and> t = f s)"
  "map_run f x = Panicked t \<longleftrightarrow> (\<exists>s. x = Panicked s \<and> t = f s)"
  by (cases x; auto)+

locale run_morphism =
  fixes env :: "('p, 's) rec_env" and env' :: "('p, 't) rec_env" and abs :: "'s \<Rightarrow> 't"
  assumes same_op: "reOp env' = reOp env" "reEnableAutoRecreate env' = reEnableAutoRecreate env"
    and get: "GetControlledJob (reClient env') target (abs s) = apsnd abs (GetControlledJob (reClient env) target s)"
    and lst: "ListJobsForControlledJob (reClient env') target (abs s) = apsnd abs (ListJobsForControlledJob (reClient env) target s)"
    and status: "UpdateStatus (reClient env') c (abs s) = apsnd abs (UpdateStatus (reClient env) c s)"
    and create: "CreateJob (reClient env') job (abs s) = apsnd abs (CreateJob (reClient env) job s)"
    and suspend: "SuspendJob (reClient env') job (abs s) = apsnd abs (SuspendJob (reClient env) job s)"
    and unsuspend: "UnsuspendJob (reClient env') job (abs s) = apsnd abs (UnsuspendJob (reClient env) job s)"
    and delete: "DeleteJob (reClient env') job DeletePropagationForeground (abs s)
      = apsnd abs (DeleteJob (reClient env) job DeletePropagationForeground s)"
    and events: "reRecorder env' c ty reason message (abs s) = abs (reRecorder env c ty reason message s)"
begin

lemma recordNow_abs:
  "recordNow clock (reRecorder env') action (w, abs s) = apsnd abs (recordNow clock (reRecorder env) action (w, s))"
  by (simp add: recordNow_def RecordEvent_def Let_def recordWarningEvent_def recordNormalEvent_def recordEvent_def events)

lemma actOnJob_abs:
  assumes "\<And>job s. call' job (abs s) = apsnd abs (call job s)"
  shows "actOnJob env' call' event verb ty action okS okR okM job (w, abs s)
    = apsnd (apsnd abs) (actOnJob env call event verb ty action okS okR okM job (w, s))"
  by (auto simp: actOnJob_def Let_def assms same_op recordNow_abs split: prod.split option.split)

lemma actOnJobs_abs:
  assumes "\<And>job w s. act' job (w, abs s) = apsnd (apsnd abs) (act job (w, s))"
  shows "actOnJobs act' jobs (w, abs s) = apsnd (apsnd abs) (actOnJobs act jobs (w, s))"
  by (induction jobs arbitrary: w s) (auto simp: assms split: prod.split option.split)

lemma orElse_abs:
  assumes "r' = apsnd (apsnd abs) r" "\<And>w s. f' (w, abs s) = apsnd (apsnd abs) (f (w, s))"
  shows "orElse r' f' = apsnd (apsnd abs) (orElse r f)"
  using assms by (auto simp: orElse_def split: prod.split option.split)

lemma applyDecision_abs: "applyDecision env' d (abs s) = apsnd (apsnd abs) (applyDecision env d s)"
  unfolding applyDecision_def deleteJobs_def createJobs_def suspendJobs_def unsuspendJobs_def
  by (intro orElse_abs actOnJobs_abs actOnJob_abs) (rule create delete suspend unsuspend)+

lemma deferredCalls_abs: "snd (deferredCalls env' err (w, abs s)) = abs (snd (deferredCalls env err (w, s)))"
  by (simp add: deferredCalls_def recordFailedReconcile_def writeStatus_def Let_def same_op status recordNow_abs split: option.split)

lemma loadFromCluster_abs:
  "loadFromCluster (reClient env') target (abs s) = apsnd abs (loadFromCluster (reClient env) target s)"
  by (auto simp: loadFromCluster_def Let_def get lst split: prod.split option.split)

theorem Reconcile_abs: "Reconcile env' target now (abs s) = map_run abs (Reconcile env target now s)"
proof -
  obtain loaded err s1 where l: "loadFromCluster (reClient env) target s = ((loaded, err), s1)" by (metis prod.collapse)
  then have l': "loadFromCluster (reClient env') target (abs s) = ((loaded, err), abs s1)" by (simp add: loadFromCluster_abs)
  have a: "applyDecision env' d (abs s1) = (e, w, t) \<longleftrightarrow> (\<exists>s2. applyDecision env d s1 = (e, w, s2) \<and> t = abs s2)" for d e w t
    by (cases "applyDecision env d s1") (auto simp: applyDecision_abs)
  show ?thesis
    using a by (auto simp: Reconcile_def l l' same_op deferredCalls_abs applyDecision_abs
        split: option.split prod.split ctl.split)
qed

end

end
