(* ===== verification/MockRuns.thy ===== *)
theory MockRuns
  imports RunMorphism
begin

text \<open>
  Runs of \<^verbatim>\<open>Reconcile\<close> on \<^verbatim>\<open>ControlledJobClientMock\<close>: what a test sees in the call lists of the
  mock is what the run did. Tracing a client does not change a run either.
\<close>

section \<open>The calls of a run, per method\<close>

definition no_calls :: "('c, 'j) client_calls" where
  "no_calls = \<lparr>calledCreateJob = [], calledDeleteJob = [], calledGetControlledJob = [], calledListJobsForControlledJob = [],
     calledSuspendJob = [], calledUnsuspendJob = [], calledUpdateControlledJob = [], calledUpdateStatus = []\<rparr>"

primrec note_call :: "'p client_call \<Rightarrow> ('p controlled_job, 'p job) client_calls \<Rightarrow> ('p controlled_job, 'p job) client_calls" where
  "note_call (CallUpdateStatus c) calls = calls\<lparr>calledUpdateStatus := calledUpdateStatus calls @ [c]\<rparr>"
| "note_call (CallCreate job) calls = calls\<lparr>calledCreateJob := calledCreateJob calls @ [job]\<rparr>"
| "note_call (CallSuspend job) calls = calls\<lparr>calledSuspendJob := calledSuspendJob calls @ [job]\<rparr>"
| "note_call (CallUnsuspend job) calls = calls\<lparr>calledUnsuspendJob := calledUnsuspendJob calls @ [job]\<rparr>"
| "note_call (CallDelete job) calls =
     calls\<lparr>calledDeleteJob := calledDeleteJob calls @ [(job, DeletePropagationForeground)]\<rparr>"

definition tally :: "'p client_call list \<Rightarrow> ('p controlled_job, 'p job) client_calls" where
  "tally tr = fold note_call tr no_calls"

text \<open>\<open>writes\<close> leaves out the reads, which a trace does not hold.\<close>

definition writes :: "('c, 'j) client_calls \<Rightarrow> ('c, 'j) client_calls" where
  "writes calls = calls\<lparr>calledGetControlledJob := [], calledListJobsForControlledJob := [], calledUpdateControlledJob := []\<rparr>"

lemma writes_no_calls [simp]: "writes no_calls = no_calls"
  by (simp add: writes_def no_calls_def)

lemma tally_snoc: "tally (tr @ [c]) = note_call c (tally tr)"
  by (simp add: tally_def)

lemma fold_notes:
  "fold note_call (map CallDelete js) calls
     = calls\<lparr>calledDeleteJob := calledDeleteJob calls @ map (\<lambda>j. (j, DeletePropagationForeground)) js\<rparr>"
  "fold note_call (map CallCreate js) calls = calls\<lparr>calledCreateJob := calledCreateJob calls @ js\<rparr>"
  "fold note_call (map CallSuspend js) calls = calls\<lparr>calledSuspendJob := calledSuspendJob calls @ js\<rparr>"
  "fold note_call (map CallUnsuspend js) calls = calls\<lparr>calledUnsuspendJob := calledUnsuspendJob calls @ js\<rparr>"
  by (induction js arbitrary: calls) simp_all

lemma tally_planned:
  "tally (planned d @ [CallUpdateStatus c]) = no_calls\<lparr>
     calledDeleteJob := map (\<lambda>j. (j, DeletePropagationForeground)) (jobs_at d (dDelete d)),
     calledCreateJob := jobs_at d (dCreate d), calledSuspendJob := jobs_at d (dSuspend d),
     calledUnsuspendJob := jobs_at d (dUnsuspend d), calledUpdateStatus := [c]\<rparr>"
  by (simp add: tally_def planned_def fold_notes no_calls_def)

lemma one_status_write: "length (calledUpdateStatus (tally (take n (planned d) @ [CallUpdateStatus c]))) = 1"
proof -
  have "calledUpdateStatus (fold note_call tr calls) = calledUpdateStatus calls" if "\<forall>c. CallUpdateStatus c \<notin> set tr"
    for tr :: "'a client_call list" and calls
    using that
  proof (induction tr arbitrary: calls)
    case (Cons x tr)
    then show ?case by (cases x) auto
  qed simp
  moreover have "\<forall>c. CallUpdateStatus c \<notin> set (take n (planned d))" by (auto simp: planned_def dest!: in_set_takeD)
  ultimately show ?thesis by (simp add: tally_snoc) (simp add: tally_def no_calls_def)
qed

section \<open>Environments\<close>

definition tallying :: "('p, 's) job_client \<Rightarrow> ('p, ('p controlled_job, 'p job) client_calls \<times> 's) job_client" where
  "tallying client =
     (let run = (\<lambda>f note (calls, s). let (r, s') = f s in (r, note calls, s'));
          get = (\<lambda>f (calls, s). let (r, s') = f s in (r, calls, s'));
          list = (\<lambda>f (calls, s). let (r, s') = f s in (r, calls, s')) in
      \<lparr>GetControlledJob = (\<lambda>t. get (GetControlledJob client t)), UpdateControlledJob = (\<lambda>c. run (UpdateControlledJob client c) id),
       UpdateStatus = (\<lambda>c. run (UpdateStatus client c) (note_call (CallUpdateStatus c))),
       ListJobsForControlledJob = (\<lambda>t. list (ListJobsForControlledJob client t)),
       CreateJob = (\<lambda>j. run (CreateJob client j) (note_call (CallCreate j))),
       SuspendJob = (\<lambda>j. run (SuspendJob client j) (note_call (CallSuspend j))),
       UnsuspendJob = (\<lambda>j. run (UnsuspendJob client j) (note_call (CallUnsuspend j))),
       DeleteJob = (\<lambda>j p. run (DeleteJob client j p) (note_call (CallDelete j)))\<rparr>)"

text \<open>The environment of a run on another client, which keeps call lists beside the cluster.\<close>

definition calls_env ::
  "('p, 's) rec_env \<Rightarrow> ('p, ('p controlled_job, 'p job) client_calls \<times> 's) job_client
   \<Rightarrow> ('p, ('p controlled_job, 'p job) client_calls \<times> 's) rec_env" where
  "calls_env env client =
     \<lparr>reOp = reOp env, reClient = client,
      reRecorder = (\<lambda>c ty reason message (calls, s). (calls, reRecorder env c ty reason message s)),
      reEnableAutoRecreate = reEnableAutoRecreate env\<rparr>"

text \<open>A mock whose functions are those of a client, and the interface value that is this mock.\<close>

definition mock_of :: "('p, 's) job_client \<Rightarrow> ('p controlled_job, 'p job, 's) client_mock" where
  "mock_of client =
     \<lparr>CreateJobFunc = Some (CreateJob client), DeleteJobFunc = Some (DeleteJob client),
      GetControlledJobFunc = Some (GetControlledJob client),
      ListJobsForControlledJobFunc = Some (ListJobsForControlledJob client),
      SuspendJobFunc = Some (SuspendJob client), UnsuspendJobFunc = Some (UnsuspendJob client),
      UpdateControlledJobFunc = Some (UpdateControlledJob client), UpdateStatusFunc = Some (UpdateStatus client)\<rparr>"

definition plays ::
  "('p controlled_job, 'p job, 's) client_mock \<Rightarrow> ('p, ('p controlled_job, 'p job) client_calls \<times> 's) job_client \<Rightarrow> bool" where
  "plays mock client \<longleftrightarrow>
     (\<forall>job st. mockCreateJob mock job st = Ok (CreateJob client job st))
     \<and> (\<forall>job p st. mockDeleteJob mock job p st = Ok (DeleteJob client job p st))
     \<and> (\<forall>t st. mockGetControlledJob mock t st = Ok (GetControlledJob client t st))
     \<and> (\<forall>t st. mockListJobsForControlledJob mock t st = Ok (ListJobsForControlledJob client t st))
     \<and> (\<forall>job st. mockSuspendJob mock job st = Ok (SuspendJob client job st))
     \<and> (\<forall>job st. mockUnsuspendJob mock job st = Ok (UnsuspendJob client job st))
     \<and> (\<forall>c st. mockUpdateControlledJob mock c st = Ok (UpdateControlledJob client c st))
     \<and> (\<forall>c st. mockUpdateStatus mock c st = Ok (UpdateStatus client c st))"

section \<open>Morphisms\<close>

interpretation erase: run_morphism "traced_env env" env fst for env
by unfold_locales (auto simp: traced_env_def traced_def lift_call_def split: prod.split)

lemma tally_morphism:
  "run_morphism (traced_env env) (calls_env env (tallying (reClient env))) (\<lambda>(s, tr). (tally tr, s))"
  by unfold_locales
    (auto simp: traced_env_def traced_def lift_call_def calls_env_def tallying_def Let_def tally_snoc split: prod.split)

lemma mock_methods:
  "mockCreateJob (mock_of cl) job (calls, s)
     = Ok (let (r, s') = CreateJob cl job s in (r, calls\<lparr>calledCreateJob := calledCreateJob calls @ [job]\<rparr>, s'))"
  "mockDeleteJob (mock_of cl) job p (calls, s)
     = Ok (let (r, s') = DeleteJob cl job p s in (r, calls\<lparr>calledDeleteJob := calledDeleteJob calls @ [(job, p)]\<rparr>, s'))"
  "mockGetControlledJob (mock_of cl) target (calls, s) = Ok (let (r, s') = GetControlledJob cl target s in
     (r, calls\<lparr>calledGetControlledJob := calledGetControlledJob calls @ [target]\<rparr>, s'))"
  "mockListJobsForControlledJob (mock_of cl) target (calls, s) = Ok (let (r, s') = ListJobsForControlledJob cl target s in
     (r, calls\<lparr>calledListJobsForControlledJob := calledListJobsForControlledJob calls @ [target]\<rparr>, s'))"
  "mockSuspendJob (mock_of cl) job (calls, s)
     = Ok (let (r, s') = SuspendJob cl job s in (r, calls\<lparr>calledSuspendJob := calledSuspendJob calls @ [job]\<rparr>, s'))"
  "mockUnsuspendJob (mock_of cl) job (calls, s)
     = Ok (let (r, s') = UnsuspendJob cl job s in (r, calls\<lparr>calledUnsuspendJob := calledUnsuspendJob calls @ [job]\<rparr>, s'))"
  "mockUpdateControlledJob (mock_of cl) c (calls, s) = Ok (let (r, s') = UpdateControlledJob cl c s in
     (r, calls\<lparr>calledUpdateControlledJob := calledUpdateControlledJob calls @ [c]\<rparr>, s'))"
  "mockUpdateStatus (mock_of cl) c (calls, s) = Ok (let (r, s') = UpdateStatus cl c s in
     (r, calls\<lparr>calledUpdateStatus := calledUpdateStatus calls @ [c]\<rparr>, s'))"
  by (simp_all add: mockCreateJob_def mockDeleteJob_def mockGetControlledJob_def mockListJobsForControlledJob_def
      mockSuspendJob_def mockUnsuspendJob_def mockUpdateControlledJob_def mockUpdateStatus_def mocked_def mock_of_def
      split: prod.split)

lemma played:
  assumes "plays (mock_of cl) client"
  shows "Ok (CreateJob client job st) = mockCreateJob (mock_of cl) job st"
    "Ok (DeleteJob client job p st) = mockDeleteJob (mock_of cl) job p st"
    "Ok (GetControlledJob client target st) = mockGetControlledJob (mock_of cl) target st"
    "Ok (ListJobsForControlledJob client target st) = mockListJobsForControlledJob (mock_of cl) target st"
    "Ok (SuspendJob client job st) = mockSuspendJob (mock_of cl) job st"
    "Ok (UnsuspendJob client job st) = mockUnsuspendJob (mock_of cl) job st"
    "Ok (UpdateStatus client c st) = mockUpdateStatus (mock_of cl) c st"
  using assms unfolding plays_def by presburger+

lemmas played_methods = played [where st = "(calls, s)" for calls s, unfolded mock_methods outcome.inject]

lemma mock_morphism:
  assumes "plays (mock_of (reClient env)) client"
  shows "run_morphism (calls_env env client) (calls_env env (tallying (reClient env))) (\<lambda>(calls, s). (writes calls, s))"
  by unfold_locales (auto simp: calls_env_def tallying_def Let_def writes_def played_methods [OF assms] split: prod.split)

text \<open>A method whose function is nil panics; the other mocks record their calls in the same way.\<close>

lemma mock_panics:
  "mockCreateJob mock job st = Panic \<longleftrightarrow> CreateJobFunc mock = None"
  "mockDeleteJob mock job p st = Panic \<longleftrightarrow> DeleteJobFunc mock = None"
  "mockGetControlledJob mock target st = Panic \<longleftrightarrow> GetControlledJobFunc mock = None"
  "mockListJobsForControlledJob mock target st = Panic \<longleftrightarrow> ListJobsForControlledJobFunc mock = None"
  "mockSuspendJob mock job st = Panic \<longleftrightarrow> SuspendJobFunc mock = None"
  "mockUnsuspendJob mock job st = Panic \<longleftrightarrow> UnsuspendJobFunc mock = None"
  "mockUpdateControlledJob mock c st = Panic \<longleftrightarrow> UpdateControlledJobFunc mock = None"
  "mockUpdateStatus mock c st = Panic \<longleftrightarrow> UpdateStatusFunc mock = None"
  by (auto simp: mockCreateJob_def mockDeleteJob_def mockGetControlledJob_def mockListJobsForControlledJob_def
      mockSuspendJob_def mockUnsuspendJob_def mockUpdateControlledJob_def mockUpdateStatus_def mocked_def
      split: option.split prod.split)

lemma RecordEvent_mock:
  assumes "\<And>c ty reason message st. mockEvent mock c ty reason message st = Ok ((), recorder c ty reason message st)"
  shows "calledEvent (fst (snd (RecordEvent recorder action (w, calls, s))))
    = calledEvent calls @ [(cj w, if IsWarningEvent (ahType action) then ''Warning'' else ''Normal'', ahType action, ahMessage action)]"
proof -
  have "calledEvent (fst (recorder c ty reason message (calls, s))) = calledEvent calls @ [(c, ty, reason, message)]"
    for c ty reason message
  proof -
    obtain f where "EventFunc mock = Some f"
      using assms [of c ty reason message "(calls, s)"] by (cases "EventFunc mock") (simp_all add: mockEvent_def mocked_def)
    then have "recorder c ty reason message (calls, s)
        = (calls\<lparr>calledEvent := calledEvent calls @ [(c, ty, reason, message)]\<rparr>, f c ty reason message s)"
      using assms [of c ty reason message "(calls, s)"] by (simp add: mockEvent_def mocked_def)
    then show ?thesis by simp
  qed
  then show ?thesis by (simp add: RecordEvent_def Let_def recordWarningEvent_def recordNormalEvent_def recordEvent_def)
qed

text \<open>The interface value of a mock of a client.\<close>

definition mock_interface :: "('p, 's) job_client \<Rightarrow> ('p, ('p controlled_job, 'p job) client_calls \<times> 's) job_client" where
  "mock_interface cl =
     \<lparr>GetControlledJob = (\<lambda>target (calls, s). let (r, s') = GetControlledJob cl target s in
        (r, calls\<lparr>calledGetControlledJob := calledGetControlledJob calls @ [target]\<rparr>, s')),
      UpdateControlledJob = (\<lambda>c (calls, s). let (r, s') = UpdateControlledJob cl c s in
        (r, calls\<lparr>calledUpdateControlledJob := calledUpdateControlledJob calls @ [c]\<rparr>, s')),
      UpdateStatus = (\<lambda>c (calls, s). let (r, s') = UpdateStatus cl c s in
        (r, calls\<lparr>calledUpdateStatus := calledUpdateStatus calls @ [c]\<rparr>, s')),
      ListJobsForControlledJob = (\<lambda>target (calls, s). let (r, s') = ListJobsForControlledJob cl target s in
        (r, calls\<lparr>calledListJobsForControlledJob := calledListJobsForControlledJob calls @ [target]\<rparr>, s')),
      CreateJob = (\<lambda>job (calls, s). let (r, s') = CreateJob cl job s in
        (r, calls\<lparr>calledCreateJob := calledCreateJob calls @ [job]\<rparr>, s')),
      SuspendJob = (\<lambda>job (calls, s). let (r, s') = SuspendJob cl job s in
        (r, calls\<lparr>calledSuspendJob := calledSuspendJob calls @ [job]\<rparr>, s')),
      UnsuspendJob = (\<lambda>job (calls, s). let (r, s') = UnsuspendJob cl job s in
        (r, calls\<lparr>calledUnsuspendJob := calledUnsuspendJob calls @ [job]\<rparr>, s')),
      DeleteJob = (\<lambda>job p (calls, s). let (r, s') = DeleteJob cl job p s in
        (r, calls\<lparr>calledDeleteJob := calledDeleteJob calls @ [(job, p)]\<rparr>, s'))\<rparr>"

lemma mock_interface_plays: "plays (mock_of cl) (mock_interface cl)"
  unfolding plays_def split_paired_All mock_methods by (simp add: mock_interface_def)

section \<open>Properties\<close>

text \<open>
  C39: What the tests see. Run \<^verbatim>\<open>Reconcile\<close> on a mock whose functions are those of any client, with
  empty call lists, and let loading and the decision succeed. Then the run has the same result
  and the same effect as on the client itself. The call lists of the mock hold a prefix of the
  planned calls and one status update; if no error is returned they hold exactly the
  decision's deletions (in the foreground), creations, suspensions and unsuspensions in order.
\<close>

theorem mock_observes_run:
  assumes "plays (mock_of (reClient env)) client"
    and "loadFromCluster (reClient env) target s = ((Some (c, jobs), None), s1)"
    and "makeDecision (reOp env) \<lparr>cj = c, ticks = 0\<rparr> jobs now (reEnableAutoRecreate env) = Return d None"
  shows "\<exists>r calls s' n c'. Reconcile (calls_env env client) target now (no_calls, s) = Finished r (calls, s')
    \<and> Reconcile env target now s = Finished r s'
    \<and> writes calls = tally (take n (planned d) @ [CallUpdateStatus c']) \<and> length (UpdateStatusCalls (calls, s')) = 1
    \<and> (rrError r = None \<longrightarrow>
        DeleteJobCalls (calls, s') = map (\<lambda>j. (j, DeletePropagationForeground)) (jobs_at d (dDelete d))
        \<and> CreateJobCalls (calls, s') = jobs_at d (dCreate d) \<and> SuspendJobCalls (calls, s') = jobs_at d (dSuspend d)
        \<and> UnsuspendJobCalls (calls, s') = jobs_at d (dUnsuspend d))"
proof -
  obtain r s' n c' where t: "Reconcile (traced_env env) target now (s, []) = Finished r (s', take n (planned d) @ [CallUpdateStatus c'])"
    "rrError r = None \<longrightarrow> n = length (planned d)"
    using reconcile_calls_lemma [OF assms(2,3)] by (elim exE conjE) (rule that)
  let ?tr = "take n (planned d) @ [CallUpdateStatus c']" and ?tallying = "calls_env env (tallying (reClient env))"
  have plain: "Reconcile env target now s = Finished r s'"
    using erase.Reconcile_abs [of env target now "(s, [])"] t(1) by simp
  have "Reconcile ?tallying target now (no_calls, s) = Finished r (tally ?tr, s')"
    using run_morphism.Reconcile_abs [OF tally_morphism, of env target now "(s, [])"] t(1) by (simp add: tally_def)
  then have "map_run (\<lambda>(calls, s). (writes calls, s)) (Reconcile (calls_env env client) target now (no_calls, s))
      = Finished r (tally ?tr, s')"
    using run_morphism.Reconcile_abs [OF mock_morphism [OF assms(1)], of target now "(no_calls, s)"] by simp
  then obtain calls where calls: "Reconcile (calls_env env client) target now (no_calls, s) = Finished r (calls, s')"
    "writes calls = tally ?tr"
    by (auto simp: map_run_eqs)
  have lists: "calledCreateJob calls = calledCreateJob (writes calls)" "calledDeleteJob calls = calledDeleteJob (writes calls)"
    "calledSuspendJob calls = calledSuspendJob (writes calls)" "calledUnsuspendJob calls = calledUnsuspendJob (writes calls)"
    "calledUpdateStatus calls = calledUpdateStatus (writes calls)"
    by (simp_all add: writes_def)
  show ?thesis
    using plain calls one_status_write [of n d c'] t(2)
    by (intro exI [of _ r] exI [of _ calls] exI [of _ s'] exI [of _ n] exI [of _ c'])
      (auto simp: calls_accessors lists calls(2) tally_planned)
qed

end
