(* ===== verification/StatusTypes.thy ===== *)
theory StatusTypes
  imports ReconcileCorrect
begin

text \<open>
  The types of a status. The CustomResourceDefinition (\<^verbatim>\<open>config/crd/bases\<close>) and the comments of
  \<^verbatim>\<open>controlledjob_types.go\<close> say what a condition list may hold; an update that breaks the schema is
  refused by the API server. \<open>status_law\<close> is the contract of a property of the status that every
  write of the operator keeps; it is interpreted for the schema and for the types reported.
\<close>

section \<open>The schema\<close>

text \<open>
  Which values the operator gives each condition type. A type outside the table has none.
\<close>

abbreviation any_status :: "condition_status list" where
  "any_status \<equiv> [ConditionTrue, ConditionFalse, ConditionUnknown]"

definition condition_table :: "(condition_type \<times> condition_status list) list" where
  "condition_table =
     [(ConditionTypeShouldBeRunning, any_status), (ConditionTypeSuspended, [ConditionTrue, ConditionFalse]),
      (ConditionTypeOutOfDate, [ConditionTrue, ConditionFalse]), (ConditionTypeJobManuallyScheduled, any_status),
      (ConditionTypeJobExists, [ConditionTrue, ConditionFalse]), (ConditionTypeJobRunning, any_status),
      (ConditionTypeJobComplete, any_status), (ConditionTypeJobFailed, any_status), (ConditionTypeJobBeingDeleted, any_status),
      (ConditionTypeJobSuspended, any_status), (ConditionTypeJobStoppedByUser, any_status),
      (ConditionTypeFailedToCreateJob, [ConditionTrue, ConditionFalse]), (ConditionTypeFailedToSuspendJob, [ConditionTrue]),
      (ConditionTypeFailedToUnsuspendJob, [ConditionTrue]), (ConditionTypeFailedToDeleteJob, [ConditionTrue, ConditionFalse]),
      (ConditionTypeStartingDeadlineExceeded, any_status),
      (ConditionTypeRunningExpectedly, [ConditionTrue, ConditionUnknown]),
      (ConditionTypeRunningUnexpectedly, [ConditionTrue, ConditionUnknown]),
      (ConditionTypeNotRunningExpectedly, [ConditionTrue, ConditionUnknown]),
      (ConditionTypeNotRunningUnexpectedly, [ConditionTrue, ConditionUnknown]),
      (ConditionTypeError, [ConditionTrue, ConditionFalse])]"

definition status_types :: "condition_type \<Rightarrow> condition_status set" where
  "status_types ty = (case map_of condition_table ty of None \<Rightarrow> {} | Some sts \<Rightarrow> set sts)"

text \<open>The pattern of a reason, \<^verbatim>\<open>^[A-Za-z]([A-Za-z0-9_,:]*[A-Za-z0-9_])?$\<close>, of at most 1024 characters.\<close>

definition reason_char :: "char \<Rightarrow> bool" where
  "reason_char c \<longleftrightarrow> is_alpha c \<or> is_digit c \<or> c = CHR ''_''"

definition reason_matches :: "string \<Rightarrow> bool" where
  "reason_matches s \<longleftrightarrow>
     s \<noteq> [] \<and> length s \<le> 1024 \<and> is_alpha (hd s) \<and> reason_char (last s)
     \<and> list_all (\<lambda>c. reason_char c \<or> c = CHR '','' \<or> c = CHR '':'') s"

text \<open>
  Messages have at most 32768 characters; those of the failure conditions quote an error of any
  length, and are left out.
\<close>

definition quoting_types :: "condition_type list" where
  "quoting_types = [ConditionTypeError, ConditionTypeFailedToCreateJob, ConditionTypeFailedToSuspendJob,
     ConditionTypeFailedToUnsuspendJob, ConditionTypeFailedToDeleteJob]"

definition write_ok :: "condition_type \<Rightarrow> condition_status \<Rightarrow> string \<Rightarrow> string \<Rightarrow> bool" where
  "write_ok ty status reason message \<longleftrightarrow>
     status \<in> status_types ty \<and> reason_matches reason \<and> (ty \<in> set quoting_types \<or> length message \<le> 32768)"

definition condition_ok :: "condition \<Rightarrow> bool" where
  "condition_ok c \<longleftrightarrow>
     write_ok (condType c) (condStatus c) (condReason c) (condMessage c)
     \<and> \<not> time_is_zero (condLastTransitionTime c) \<and> 0 \<le> sint (condObservedGeneration c)"

definition schema_ok :: "'p controlled_job \<Rightarrow> bool" where
  "schema_ok c \<longleftrightarrow>
     0 \<le> sint (cjGeneration c) \<and> distinct (map condType (stConditions (cjStatus c)))
     \<and> (\<forall>d \<in> set (stConditions (cjStatus c)). condition_ok d)"

lemmas schema_eval = write_ok_def status_types_def condition_table_def quoting_types_def reason_matches_def reason_char_def
  is_alpha_def is_digit_def

section \<open>What every write keeps\<close>

locale status_law =
  fixes clock :: "nat \<Rightarrow> gotime" and good :: "'p controlled_job \<Rightarrow> bool"
  assumes frame: "stConditions (cjStatus c') = stConditions (cjStatus c) \<Longrightarrow> cjGeneration c' = cjGeneration c \<Longrightarrow> good c \<Longrightarrow> good c'"
    and set: "good (cj w) \<Longrightarrow> write_ok ty status reason message \<Longrightarrow> good (cj (SetCondition clock ty status reason message w))"
begin

lemma upd: "good (cj w) \<Longrightarrow> stConditions (f (cjStatus (cj w))) = stConditions (cjStatus (cj w)) \<Longrightarrow> good (cj (upd_status f w))"
  using frame [of "cj (upd_status f w)" "cj w"] by simp

lemma flag:
  "good (cj w) \<Longrightarrow> write_ok ty ConditionTrue reasonT messageT \<Longrightarrow> write_ok ty ConditionFalse reasonF messageF \<Longrightarrow>
   good (cj (SetConditionBasedOnFlag clock ty b reasonT messageT reasonF messageF w))"
  by (simp add: SetConditionBasedOnFlag_def set)

lemma ShouldBeRunning: "good (cj w) \<Longrightarrow> good (cj (recordScheduleStatus clock st w))"
  by (auto simp: recordScheduleStatus_def setShouldBeRunningStatus_def Let_def schema_eval simp del: cj_upd_status
      intro!: set upd split: option.split)

lemma forAllJobs: "good (cj w) \<Longrightarrow> good (cj (setConditionsForAllJobs clock jobs w))"
  by (auto simp: setConditionsForAllJobs_def setConditionIfTrueForAnyJob_def schema_eval intro!: set flag)

lemma relay:
  assumes "good (cj w)" "\<And>st. st \<in> status_types ty" "length message \<le> 32768" "length unknownMessage \<le> 32768"
    and "reason_matches (prefix @ ''True'')" "reason_matches (prefix @ ''False'')" "reason_matches (prefix @ ''Unknown'')"
    and "reason_matches unknownReason"
  shows "good (cj (relayCondition clock ty job jc prefix message unknownReason unknownMessage w))"
  using assms by (auto intro!: set simp: relayCondition_def JobConditionToReason_def write_ok_def split: option.split)

lemma status_types_any:
  "st \<in> status_types ConditionTypeJobComplete" "st \<in> status_types ConditionTypeJobFailed"
  by (cases st; simp add: status_types_def condition_table_def)+

lemma reportJobs: "good (cj w) \<Longrightarrow> good (cj (reportJobs clock st store metricsJob w))"
  by (auto simp: reportJobs_def setJobConditions_def Let_def schema_eval
      intro!: set flag relay forAllJobs status_types_any split: option.split)

lemma scanJob: "good (cj (dW d)) \<Longrightarrow> good (cj (dW (scanJob env st a d)))"
  by (auto simp: scanJob_def countIfRunning_def Let_def simp del: cj_upd_status intro!: upd split: option.split)

lemma scanJobs: "good (cj (dW d)) \<Longrightarrow> good (cj (dW (scanJobs env st d)))"
proof -
  have fold: "good (cj (dW d)) \<Longrightarrow> good (cj (dW (fold (scanJob env st) as d)))" for as d
    by (induction as arbitrary: d) (simp_all add: scanJob)
  assume "good (cj (dW d))"
  then show ?thesis unfolding scanJobs_def by (intro fold) (auto intro: upd simp del: cj_upd_status)
qed

text \<open>Decisions, also those that fail or panic.\<close>

lemma createWith: "good (cj (dW d)) \<Longrightarrow> ctl_all (\<lambda>d. good (cj (dW d))) (createWith b d)"
  by (cases b) (simp_all add: createWith_def addNewJob_def Let_def)

lemma setOutOfDate:
  "good (cj (dW d)) \<Longrightarrow> reason_matches reason \<Longrightarrow> length message \<le> 32768 \<Longrightarrow>
   good (cj (dW (setOutOfDate clock b reason message d)))"
  by (cases b) (auto simp: setOutOfDate_def write_ok_def status_types_def condition_table_def intro: set)

lemma outOfDate:
  assumes "opClock env = clock" "good (cj (dW d))"
  shows "ctl_all (\<lambda>d. good (cj (dW d))) (outOfDateStep env st restart m d)"
  using assms(2) by (auto simp: outOfDateStep_def assms(1) Let_def reason_matches_def reason_char_def is_alpha_def is_digit_def
      intro!: ctl_all_cbind createWith setOutOfDate split: option.split)

lemma setDeadline:
  "good (cj (dW d)) \<Longrightarrow> reason_matches reason \<Longrightarrow> length message \<le> 32768 \<Longrightarrow>
   good (cj (dW (setDeadline clock status reason message d)))"
  by (cases status) (auto simp: setDeadline_def write_ok_def status_types_def condition_table_def intro: set)

lemma ensureRunning:
  assumes "opClock env = clock" "good (cj (dW d))"
  shows "ctl_all (\<lambda>d. good (cj (dW d))) (ensureRunningStep env st b now d)"
  using assms(2) by (auto simp: ensureRunningStep_def assms(1) Let_def reason_matches_def reason_char_def is_alpha_def is_digit_def
      intro!: createWith setDeadline split: option.split)

lemma steps:
  "good (cj (dW d)) \<Longrightarrow> good (cj (dW (setIsRunning d)))"
  "good (cj (dW d)) \<Longrightarrow> good (cj (dW (requeueStep rs (unsuspendStep (deleteStep d)))))"
  by (auto simp: setIsRunning_def requeueStep_def unsuspendStep_def deleteStep_def Let_def simp del: cj_upd_status
      intro!: upd split: option.split)

lemma decideRunning:
  assumes "opClock env = clock" "good (cj (dW d))"
  shows "ctl_all (\<lambda>d. good (cj (dW d))) (decideRunning env st now en d)"
proof -
  have "good (cj (SetCondition clock ConditionTypeSuspended ConditionFalse ''NotSuspended'' ''IsSuspended flag not set'' (dW d)))"
    by (intro set assms(2)) (simp add: schema_eval)
  then show ?thesis
    by (auto simp: decideRunning_def assms(1) Let_def split: prod.split
        intro!: ctl_all_onReturn ctl_all_cbind steps outOfDate ensureRunning scanJobs reportJobs assms(1))
qed

lemma makeDecision:
  assumes "opClock env = clock" "good (cj w)"
  shows "ctl_all (\<lambda>d. good (cj (dW d))) (makeDecision env w jobs now en)"
proof -
  have "good (cj (dW d)) \<Longrightarrow> ctl_all (\<lambda>d. good (cj (dW d))) (decideSuspended env st d)" for st d
    by (auto simp: decideSuspended_def assms(1) schema_eval intro!: set)
  then show ?thesis
    using assms(2) ShouldBeRunning [OF assms(2)]
    by (auto simp: makeDecision_def initial_decision_def assms(1) Let_def split: outcome.split intro!: decideRunning assms(1))
qed

text \<open>The calls of a run and its deferred calls, which end with the status that is written.\<close>

lemma recordNow: "good (cj w) \<Longrightarrow> good (cj (fst (recordNow clock' recorder action (w, s))))"
  by (auto simp: recordNow_def RecordEvent_def Let_def addActionHistoryEntryIgnoringDuplicates_def addActionHistoryEntryImpl_def
      intro: frame [of _ "cj w"])

lemma actOnJob:
  assumes "opClock (reOp env) = clock" "good (cj (fst ws))"
    and "\<And>message. write_ok ty ConditionTrue event message" "write_ok ty okStatus okReason okMessage"
  shows "good (cj (fst (snd (actOnJob env call event verb ty action okStatus okReason okMessage job ws))))"
proof -
  obtain w s where ws: "ws = (w, s)" by (cases ws)
  obtain err s1 where call: "call job s = (err, s1)" by (cases "call job s")
  obtain w1 s2 where rec: "recordNow clock (reRecorder env) (\<lambda>now. action now (jobName job)) (w, s1) = (w1, s2)"
    by (metis prod.collapse)
  have "good (cj w)" using assms(2) by (simp add: ws)
  moreover have "good (cj w1)" using recordNow [OF \<open>good (cj w)\<close>] rec by (metis fst_conv)
  ultimately show ?thesis
    using assms(3,4) by (cases err) (simp_all add: actOnJob_def ws call assms(1) rec Let_def set)
qed

lemma actOnJobs:
  assumes "\<And>job ws. good (cj (fst ws)) \<Longrightarrow> good (cj (fst (snd (act job ws))))"
  shows "good (cj (fst ws)) \<Longrightarrow> good (cj (fst (snd (actOnJobs act jobs ws))))"
proof (induction jobs arbitrary: ws)
  case (Cons job jobs)
  then show ?case using assms [of ws job] by (auto split: prod.split option.split)
qed simp

lemma loops:
  assumes "opClock (reOp env) = clock" "good (cj (fst ws))"
  shows "good (cj (fst (snd (deleteJobs env jobs ws))))" "good (cj (fst (snd (createJobs env jobs ws))))"
    "good (cj (fst (snd (suspendJobs env jobs ws))))" "good (cj (fst (snd (unsuspendJobs env jobs ws))))"
  unfolding deleteJobs_def createJobs_def suspendJobs_def unsuspendJobs_def
  by (intro actOnJobs actOnJob assms; simp add: schema_eval assms)+

lemma orElse:
  assumes "good (cj (fst (snd r)))" "\<And>ws. good (cj (fst ws)) \<Longrightarrow> good (cj (fst (snd (f ws))))"
  shows "good (cj (fst (snd (orElse r f))))"
  using assms by (auto simp: orElse_def split: prod.split option.split)

lemma applyDecision:
  assumes "opClock (reOp env) = clock" "good (cj (dW d))"
  shows "good (cj (fst (snd (applyDecision env d s))))"
  unfolding applyDecision_def using assms by (intro orElse loops) simp_all

lemma unknown:
  assumes "good (cj w)"
  shows "good (cj (runningExpectedlyIsUnknown clock w))" "good (cj (runningUnexpectedlyIsUnknown clock w))"
    "good (cj (notRunningExpectedlyIsUnknown clock w))" "good (cj (notRunningUnexpectedlyIsUnknown clock w))"
  unfolding runningExpectedlyIsUnknown_def runningUnexpectedlyIsUnknown_def notRunningExpectedlyIsUnknown_def
    notRunningUnexpectedlyIsUnknown_def setUnknown_def
  by (rule set [OF assms], simp add: schema_eval)+

lemma because:
  assumes "good (cj w)" "ty \<in> List.set overall_types" "reason_matches reason" "length message \<le> 32768"
  shows "good (cj (setBecause clock ty reason message w))"
proof -
  have "ConditionTrue \<in> status_types ty" using assms(2) by (auto simp: overall_types_def status_types_def condition_table_def)
  then show ?thesis unfolding setBecause_def using assms by (intro set) (simp_all add: write_ok_def)
qed

lemma errorCondition: "good (cj w) \<Longrightarrow> good (cj (setErrorCondition clock err w))"
  by (cases err) (auto simp: setErrorCondition_def schema_eval intro!: set)

lemma calculateOverall:
  assumes "good (cj w)"
  shows "good (cj (calculateOverallConditions clock err w))"
proof -
  note steps = because unknown errorCondition assms
  show ?thesis
    unfolding calculateOverallConditions_def setOverallConditions_def Let_def o_apply
    by (auto intro!: steps simp: overall_types_def reason_matches_def reason_char_def is_alpha_def is_digit_def)
qed

end

section \<open>The schema is kept\<close>

lemma set_update_first: "set (update_first p f xs) \<subseteq> set xs \<union> f ` {x \<in> set xs. p x}"
  by (induction xs) auto

lemma condition_ok_update:
  "condition_ok old \<Longrightarrow> condition_ok new \<Longrightarrow> condType new = condType old \<Longrightarrow> condition_ok (update_condition new old)"
  by (simp add: condition_ok_def update_condition_def Let_def)

lemma schema_SetCondition:
  assumes "schema_ok (cj w)" "write_ok ty status reason message" "\<not> time_is_zero (clock (ticks w))"
  shows "schema_ok (cj (SetCondition clock ty status reason message w))"
proof -
  let ?cs = "stConditions (cjStatus (cj w))"
  define new where "new = \<lparr>condType = ty, condStatus = status, condLastTransitionTime = clock (ticks w),
    condObservedGeneration = cjGeneration (cj w), condReason = reason, condMessage = message\<rparr>"
  have old: "0 \<le> sint (cjGeneration (cj w))" "\<forall>d \<in> set ?cs. condition_ok d" "unique_conditions (cjStatus (cj w))"
    using assms(1) by (simp_all add: schema_ok_def unique_conditions_def)
  then have new: "condition_ok new" "condType new = ty" using assms by (simp_all add: condition_ok_def new_def)
  have "set (stConditions (cjStatus (cj (SetCondition clock ty status reason message w))))
      \<subseteq> set ?cs \<union> insert new (update_condition new ` {x \<in> set ?cs. condType x = ty})"
    using set_update_first [of "\<lambda>c. condType c = ty" "update_condition new" ?cs]
    by (auto simp: SetCondition_def Let_def new_def split: option.split)
  moreover have "condition_ok (update_condition new d)" if "d \<in> set ?cs" "condType d = ty" for d
    using that old(2) new by (simp add: condition_ok_update)
  ultimately have "\<forall>d \<in> set (stConditions (cjStatus (cj (SetCondition clock ty status reason message w)))). condition_ok d"
    using old(2) new(1) by blast
  then show ?thesis using old(1,3) unique_conditions_SetCondition [of clock ty status reason message w]
    by (simp add: schema_ok_def unique_conditions_def)
qed

interpretation schema: status_law clock "\<lambda>c. (\<forall>n. \<not> time_is_zero (clock n)) \<longrightarrow> schema_ok c" for clock
proof
  show "(\<forall>n. \<not> time_is_zero (clock n)) \<longrightarrow> schema_ok c'"
    if "stConditions (cjStatus c') = stConditions (cjStatus c)" "cjGeneration c' = cjGeneration c"
      "(\<forall>n. \<not> time_is_zero (clock n)) \<longrightarrow> schema_ok c" for c' c :: "'a controlled_job"
    using that by (simp add: schema_ok_def)
qed (blast intro: schema_SetCondition)

section \<open>The types that are reported\<close>

definition reported :: "'p controlled_job \<Rightarrow> condition_type set" where
  "reported c = condType ` set (stConditions (cjStatus c))"

lemma reported_SetCondition [simp]:
  "reported (cj (SetCondition clock ty status reason message w)) = insert ty (reported (cj w))"
proof -
  have "condType ` set (update_first p (update_condition new) cs) = condType ` set cs" for p new cs
    by (metis condType_update list.set_map map_update_first)
  then show ?thesis
    by (auto simp: reported_def SetCondition_def FindCondition_def Let_def find_Some_iff split: option.split)
qed

lemma reported_status [simp]: "stConditions s = stConditions (cjStatus c) \<Longrightarrow> reported (c\<lparr>cjStatus := s\<rparr>) = reported c"
  by (simp add: reported_def)

interpretation kept: status_law clock "\<lambda>c. tys \<subseteq> reported c" for clock tys
proof
  show "tys \<subseteq> reported c'" if "stConditions (cjStatus c') = stConditions (cjStatus c)" "tys \<subseteq> reported c"
    for c' c :: "'a controlled_job"
    using that by (simp add: reported_def)
qed auto

section \<open>What a successful decision reports\<close>

definition decision_types :: "condition_type list" where
  "decision_types = [ConditionTypeShouldBeRunning, ConditionTypeSuspended, ConditionTypeJobBeingDeleted,
     ConditionTypeJobManuallyScheduled, ConditionTypeJobExists, ConditionTypeJobRunning, ConditionTypeJobComplete,
     ConditionTypeJobFailed, ConditionTypeJobSuspended, ConditionTypeJobStoppedByUser, ConditionTypeOutOfDate,
     ConditionTypeStartingDeadlineExceeded]"

lemma reported_recordScheduleStatus: "ConditionTypeShouldBeRunning \<in> reported (cj (recordScheduleStatus clock st w))"
  by (auto simp: recordScheduleStatus_def setShouldBeRunningStatus_def Let_def split: option.split)

lemma reported_setters [simp]:
  "reported (cj (SetConditionBasedOnFlag clock ty b reasonT messageT reasonF messageF w)) = insert ty (reported (cj w))"
  "reported (cj (relayCondition clock ty job jc prefix message reason unknown w)) = insert ty (reported (cj w))"
  by (simp_all add: SetConditionBasedOnFlag_def relayCondition_def split: option.split)

lemma reported_reportJobs:
  "reported (cj (reportJobs clock st store metricsJob w)) =
     insert ConditionTypeJobStoppedByUser (insert ConditionTypeJobSuspended (insert ConditionTypeJobFailed
      (insert ConditionTypeJobComplete (insert ConditionTypeJobRunning (insert ConditionTypeJobExists
      (insert ConditionTypeJobBeingDeleted (insert ConditionTypeJobManuallyScheduled (reported (cj w)))))))))"
  by (simp add: reportJobs_def setJobConditions_def setConditionsForAllJobs_def setConditionIfTrueForAnyJob_def
      Let_def split: option.split)

lemma reported_OutOfDate: "outOfDateStep env st restart m d = Continue d' \<Longrightarrow> ConditionTypeOutOfDate \<in> reported (cj (dW d'))"
  by (auto simp: outOfDateStep_def setOutOfDate_def Let_def cbind_Continue split: option.splits if_splits)

lemma reported_deadline:
  "ensureRunningStep env st b now d = Continue d' \<Longrightarrow> ConditionTypeStartingDeadlineExceeded \<in> reported (cj (dW d'))"
  by (auto simp: ensureRunningStep_def setDeadline_def createWith_eqs addNewJob_def Let_def split: option.splits if_splits)

lemma decision_reports:
  assumes "makeDecision env w jobs now en = Return d None" "csSuspend (cjSpec (cj w)) \<noteq> Some True"
  shows "set decision_types \<subseteq> reported (cj (dW d))"
proof -
  obtain st where st: "buildState env (cj w) jobs now = Ok st"
    using assms(1) by (auto simp: makeDecision_def Let_def split: outcome.splits)
  let ?d1 = "(initial_decision w jobs)\<lparr>dW := recordScheduleStatus (opClock env) st w\<rparr>"
  let ?w1 = "SetCondition (opClock env) ConditionTypeSuspended ConditionFalse ''NotSuspended'' ''IsSuspended flag not set'' (dW ?d1)"
  obtain m j where mj: "runIdLoop st jobs [0..<length jobs] (- 1) None = (m, j)" by force
  let ?d0 = "?d1\<lparr>dW := reportJobs (opClock env) st jobs j ?w1\<rparr>"
  let ?d2 = "stopStep (shouldRun st) (scanJobs env st ?d0)"
  let ?T = "set (take 10 decision_types)"
  have "\<not> rsIsSuspended st" using buildState_fields(2) [OF st] assms(2) by simp
  then have "decideRunning env st now en ?d1 = Return d None"
    using assms(1) by (simp add: makeDecision_def Let_def st)
  then obtain d3 d4 where d3: "outOfDateStep env st (en \<and> rsAutoRestartIsEnabled st) m ?d2 = Continue d3"
    and d4: "ensureRunningStep env st (shouldRun st) now d3 = Continue d4"
    and d: "d = setIsRunning (requeueStep st (unsuspendStep (deleteStep d4)))"
    using mj buildState_fields(1) [OF st]
    by (auto simp: decideRunning_def initial_decision_def Let_def onReturn_Return cbind_Continue cbind_Return steps_no_None_error)
  have "?T \<subseteq> reported (cj (dW ?d0))"
    using reported_recordScheduleStatus [of "opClock env" st w] by (simp add: decision_types_def reported_reportJobs)
  then have "?T \<subseteq> reported (cj (dW ?d2))" using kept.scanJobs [of ?T ?d0 env st] by simp
  then have "insert ConditionTypeOutOfDate ?T \<subseteq> reported (cj (dW d3))"
    using kept.outOfDate [of env "opClock env" ?T ?d2 st _ m] reported_OutOfDate [OF d3] by (metis ctl_all.simps(1) d3 insert_subset)
  then have "insert ConditionTypeStartingDeadlineExceeded (insert ConditionTypeOutOfDate ?T) \<subseteq> reported (cj (dW d4))"
    using kept.ensureRunning [of env "opClock env" "insert ConditionTypeOutOfDate ?T" d3 st "shouldRun st" now]
      reported_deadline [OF d4] by (metis ctl_all.simps(1) d4 insert_subset)
  moreover have "set decision_types = insert ConditionTypeStartingDeadlineExceeded (insert ConditionTypeOutOfDate ?T)"
    by (simp add: decision_types_def insert_commute)
  ultimately have "set decision_types \<subseteq> reported (cj (dW d4))" by simp
  then show ?thesis unfolding d by (intro kept.steps)
qed

lemma reported_overall:
  "insert ConditionTypeError (set overall_types) \<subseteq> reported (cj (calculateOverallConditions clock err w))"
proof -
  have reports: "ty \<in> reported (cj w')" if "status_of w' ty = Some st" for w' :: "'a cjw" and ty st
    using that by (auto simp: status_of_def cond_of_def FindCondition_def reported_def find_Some_iff)
  let ?w = "calculateOverallConditions clock err w"
  have "setOverallConditions clock (setErrorCondition clock err w) = ?w" by (simp add: calculateOverallConditions_def)
  then have "\<exists>st. status_of ?w ty = Some st" if "ty \<in> set overall_types" for ty
    using that setOverallConditions_spec [of clock "setErrorCondition clock err w"] by simp
  moreover have "\<exists>st. status_of ?w ConditionTypeError = Some st" by simp
  ultimately show ?thesis using reports by blast
qed

section \<open>The statuses a run writes\<close>

primrec status_writes :: "'p client_call list \<Rightarrow> 'p controlled_job list" where
  "status_writes [] = []"
| "status_writes (call # calls) = (case call of CallUpdateStatus c \<Rightarrow> [c] | _ \<Rightarrow> []) @ status_writes calls"

lemma status_writes_append [simp]: "status_writes (tr @ tr') = status_writes tr @ status_writes tr'"
  by (induction tr) auto

lemma status_writes_planned: "status_writes (take n (planned d)) = []"
proof -
  have "status_writes tr = []" if "\<forall>c. CallUpdateStatus c \<notin> set tr" for tr :: "'a client_call list"
    using that by (induction tr) (auto split: client_call.split)
  moreover have "\<forall>c. CallUpdateStatus c \<notin> set (take n (planned d))" by (auto simp: planned_def dest!: in_set_takeD)
  ultimately show ?thesis by blast
qed

text \<open>What the written status was computed from: a decision that failed or panicked, or the calls.\<close>

lemma run_written:
  assumes "loadFromCluster (reClient env) target s = ((Some (c, jobs), None), s1)"
    and "Reconcile (traced_env env) target now (s, []) \<in> {Finished r (s', tr), Panicked (s', tr)}"
  obtains w err where "status_writes tr = [cj (calculateOverallConditions (opClock (reOp env)) err w)]"
    "(\<exists>d e. makeDecision (reOp env) \<lparr>cj = c, ticks = 0\<rparr> jobs now (reEnableAutoRecreate env) \<in> {Return d (Some e), Crash d} \<and> w = dW d)
     \<or> (\<exists>d. makeDecision (reOp env) \<lparr>cj = c, ticks = 0\<rparr> jobs now (reEnableAutoRecreate env) = Return d None
         \<and> w = fst (snd (applyDecision (traced_env env) d (s1, []))))"
proof -
  let ?m = "makeDecision (reOp env) \<lparr>cj = c, ticks = 0\<rparr> jobs now (reEnableAutoRecreate env)"
  let ?c = "\<lambda>err w. cj (calculateOverallConditions (opClock (reOp env)) err w)"
  note load = loadFromCluster_traced [of "reClient env" target s "[]"] assms(1)
  have writes: "status_writes (snd (snd (deferredCalls (traced_env env) err (w, s2, tr2)))) = status_writes tr2 @ [?c err w]" for err w s2 tr2
    by (simp add: deferredCalls_traced)
  show ?thesis
  proof (cases ?m)
    case (Return d e)
    show ?thesis
    proof (cases e)
      case (Some x)
      then have "status_writes tr = [?c e (dW d)]"
        using assms(2) load Return writes [of e "dW d" s1 "[]"] by (auto simp: Reconcile_def)
      then show ?thesis using that Return Some by blast
    next
      case None
      obtain err w s2 tr2 where a: "applyDecision (traced_env env) d (s1, []) = (err, w, s2, tr2)" by (metis prod.collapse)
      have "status_writes tr2 = []"
        using applyDecision_follows [of d "(s1, [])" env] status_writes_planned by (fastforce simp: follows_def a)
      then have "status_writes tr = [?c err w]"
        using assms(2) load Return None a writes [of err w s2 tr2] by (cases err) (auto simp: Reconcile_def)
      then show ?thesis using that Return None a by simp
    qed
  next
    case (Crash d)
    then have "status_writes tr = [?c None (dW d)]"
      using assms(2) load writes [of None "dW d" s1 "[]"] by (auto simp: Reconcile_def)
    then show ?thesis using that Crash by blast
  qed (use assms(2) load in \<open>simp_all add: Reconcile_def\<close>)
qed

text \<open>
  C14: Every status a run writes has the types of the schema. Start from any ControlledJob whose
  conditions conform to it (one condition per type; of a declared type, with a value the type
  may have, a reason of the pattern, a message of bounded length unless it quotes an error, a
  transition time and a generation), with a clock that never reads the zero time. Whether the
  run succeeds, fails or panics, and whatever the client answers, it writes one status, and this
  conforms again. After a decision that succeeded while not suspended it reports the twelve
  types of a decision, the four overall ones and Error, each once.
\<close>

theorem run_writes_typed:
  assumes "loadFromCluster (reClient env) target s = ((Some (c, jobs), None), s1)"
    and "schema_ok c" "\<forall>n. \<not> time_is_zero (opClock (reOp env) n)"
    and "Reconcile (traced_env env) target now (s, []) \<in> {Finished r (s', tr), Panicked (s', tr)}"
  shows "\<exists>c'. status_writes tr = [c'] \<and> schema_ok c' \<and> distinct (map condType (stConditions (cjStatus c')))
    \<and> (\<forall>d. makeDecision (reOp env) \<lparr>cj = c, ticks = 0\<rparr> jobs now (reEnableAutoRecreate env) = Return d None
        \<longrightarrow> csSuspend (cjSpec c) \<noteq> Some True
        \<longrightarrow> set decision_types \<union> set overall_types \<union> {ConditionTypeError} \<subseteq> reported c')"
proof -
  let ?w0 = "\<lparr>cj = c, ticks = 0\<rparr>" and ?clock = "opClock (reOp env)"
  let ?m = "makeDecision (reOp env) ?w0 jobs now (reEnableAutoRecreate env)"
  obtain w err where w: "status_writes tr = [cj (calculateOverallConditions ?clock err w)]"
    "(\<exists>d e. ?m \<in> {Return d (Some e), Crash d} \<and> w = dW d)
     \<or> (\<exists>d. ?m = Return d None \<and> w = fst (snd (applyDecision (traced_env env) d (s1, []))))"
    by (rule run_written [OF assms(1,4)])
  have dec: "ctl_all (\<lambda>d. (\<forall>n. \<not> time_is_zero (?clock n)) \<longrightarrow> schema_ok (cj (dW d))) ?m"
    using schema.makeDecision [of "reOp env" ?clock ?w0 jobs now "reEnableAutoRecreate env"] assms(2) by (simp del: cj_upd_status)
  have "schema_ok (cj w)"
    using w(2)
  proof (elim disjE exE conjE)
    fix d e assume "?m \<in> {Return d (Some e), Crash d}" "w = dW d"
    then show ?thesis using dec assms(3) by (elim insertE emptyE) simp_all
  next
    fix d assume m: "?m = Return d None" and d: "w = fst (snd (applyDecision (traced_env env) d (s1, [])))"
    then show ?thesis using dec assms(3) schema.applyDecision [of "traced_env env" ?clock d] by simp
  qed
  then have "schema_ok (cj (calculateOverallConditions ?clock err w))"
    using schema.calculateOverall [of ?clock w err] assms(3) by simp
  moreover have "set decision_types \<union> set overall_types \<union> {ConditionTypeError} \<subseteq> reported (cj (calculateOverallConditions ?clock err w))"
    if "?m = Return d None" "csSuspend (cjSpec c) \<noteq> Some True" for d
  proof -
    have "set decision_types \<subseteq> reported (cj (dW d))" using decision_reports [OF that(1)] that(2) by simp
    then have "set decision_types \<subseteq> reported (cj w)"
      using w(2) that(1) kept.applyDecision [of "traced_env env" ?clock "set decision_types" d] by auto
    then show ?thesis using kept.calculateOverall [of "set decision_types" w ?clock err] reported_overall [of ?clock err w] by blast
  qed
  moreover have "schema_ok c' \<Longrightarrow> distinct (map condType (stConditions (cjStatus c')))" for c' :: "'a controlled_job"
    by (simp add: schema_ok_def)
  ultimately show ?thesis using w(1) by blast
qed

end
