(* ===== verification/DecisionInstance.thy ===== *)
theory DecisionInstance
  imports DecisionBehaviour NineToFive
begin

text \<open>
  A concrete ControlledJob, run daily from 09:00 to 17:00 UTC, decided on at noon, on which the
  hypotheses of the theorems on \<^verbatim>\<open>makeDecision\<close> are discharged.
\<close>

section \<open>The environment and the schedule at noon\<close>

definition toy_env :: "unit op_env" where
  "toy_env = \<lparr>opCron = nine_env, opJobs = plain_env, opGetReference = (\<lambda>_. None), opClock = (\<lambda>_. noon)\<rparr>"

lemma toy_env_fields [simp]:
  "opCron toy_env = nine_env" "opJobs toy_env = plain_env" "opClock toy_env = (\<lambda>_. noon)"
  by (simp_all add: toy_env_def)

lemma toy_builder: "builder_works plain_env"
proof -
  have "buildJob plain_env c t i manual susp = Ok ((newJobFor plain_env c t i manual susp)\<lparr>jobOwnerReferences :=
       [\<lparr>orAPIVersion = ApiGVStr, orKind = ''ControlledJob'', orName = cjName c, orUID = cjUID c,
         orController = Some True, orBlockOwnerDeletion = Some True\<rparr>]\<rparr>)" for c t i manual susp
  proof -
    have "applyMutators Map.empty names job = Ok job" for names and job :: "unit job"
      by (induction names) simp_all
    then show ?thesis by (simp add: buildJob_def plain_env_def)
  qed
  then show ?thesis unfolding builder_works_def by blast
qed

definition nine_like :: "unit controlled_job \<Rightarrow> bool" where
  "nine_like c \<longleftrightarrow> csEvents (cjSpec c) = nine_to_five \<and> csTimezone (cjSpec c) = csTimezone (cjSpec blank_cj)"

lemma nine_like_exact:
  assumes "nine_like c"
  shows "schedule_exact nine_env c UTC daily_acts noon"
proof -
  have "csTimezone (cjSpec nine_cj) = csTimezone (cjSpec blank_cj)" by (simp add: nine_cj_def)
  then show ?thesis
    using nine_exact [OF noon_whole] assms by (simp add: schedule_exact_def nine_like_def)
qed

lemma nine_deciding:
  "deciding_event daily_acts nine_to_five (instant noon) (daily_event EventTypeStart 9) ((1657616400 + unix_epoch) * nano)"
proof -
  have bound: "y \<le> last_at h (1657627200 + unix_epoch) * nano"
    if "y \<in> daily_acts (daily_event a h)" "y \<le> instant noon" "h = 9 \<or> h = 17" for y a h
  proof -
    note y = that
    obtain z where z: "y = z * nano" "z mod 86400 = int h * 3600" using y(1,3) by (auto simp: daily_acts_def)
    then have "z \<le> 1657627200 + unix_epoch" using y(2) by (simp add: noon_def utc_at_def)
    then have "z \<le> last_at h (1657627200 + unix_epoch)" using z(2) y(3) by (intro last_at(4)) auto
    then show ?thesis using z(1) by simp
  qed
  have "last_at 9 (1657627200 + unix_epoch) = 1657616400 + unix_epoch"
    "last_at 17 (1657627200 + unix_epoch) = 1657558800 + unix_epoch" by (simp_all add: last_at_def)
  then have "\<forall>e \<in> set nine_to_five. \<forall>y \<in> daily_acts e. y \<le> instant noon \<longrightarrow> y \<le> (1657616400 + unix_epoch) * nano"
    using bound [of _ EventTypeStart 9] bound [of _ EventTypeStop 17] by (force simp: nine_to_five_def)
  moreover have "(1657616400 + unix_epoch) * nano \<in> daily_acts (daily_event EventTypeStart 9)"
    by (rule daily_act) simp_all
  ultimately show ?thesis
    unfolding deciding_event_def
    by (intro exI [of _ "[]"] exI [of _ "[daily_event EventTypeStop 17]"]) (auto simp: nine_to_five_def noon_def utc_at_def)
qed

lemma nine_state:
  assumes "nine_like c"
  obtains st stop where "StateFor nine_env c noon = Ok st" "LastStopTime st = Some stop"
    "instant stop = (1657558800 + unix_epoch) * nano" "ShouldBeRunning st" "StartOfCurrentRunPeriod st \<noteq> None"
proof -
  have ev: "csEvents (cjSpec c) = nine_to_five" using assms by (simp add: nine_like_def)
  obtain st stop e x where st: "StateFor nine_env c noon = Ok st" "LastStopTime st = Some stop"
    "adjacent_in directionPrevious (acts_of daily_acts is_stop nine_to_five) (instant noon) (Some stop)"
    "adjacent_in directionNext (acts_of daily_acts is_start nine_to_five) (instant stop) (StartOfCurrentRunPeriod st)"
    "deciding_event daily_acts nine_to_five (instant noon) e x" "ShouldBeRunning st \<longleftrightarrow> is_start e"
    using StateFor_conclusions [OF nine_like_exact [OF assms], unfolded ev, OF nine_past_stop] by metis
  have "is_start e"
    using deciding_event_unique [OF st(5) nine_deciding] by (simp add: is_start_def)
  have stops: "acts_of daily_acts is_stop nine_to_five = daily_acts (daily_event EventTypeStop 17)"
    and starts: "acts_of daily_acts is_start nine_to_five = daily_acts (daily_event EventTypeStart 9)"
  proof -
    have "{e \<in> set nine_to_five. is_stop e} = {daily_event EventTypeStop 17}"
      "{e \<in> set nine_to_five. is_start e} = {daily_event EventTypeStart 9}"
      by (auto simp: nine_to_five_def is_stop_def is_start_def)
    then show "acts_of daily_acts is_stop nine_to_five = daily_acts (daily_event EventTypeStop 17)"
      "acts_of daily_acts is_start nine_to_five = daily_acts (daily_event EventTypeStart 9)"
      by (simp_all add: acts_of_def)
  qed
  let ?T = "1657558800 + unix_epoch"
  have "instant stop \<in> daily_acts (daily_event EventTypeStop 17)"
    using st(3) unfolding stops adjacent_in_def by simp
  then obtain z where z: "instant stop = z * nano" "z mod 86400 = 61200" by (auto simp: daily_acts_def)
  have in17: "?T * nano \<in> daily_acts (daily_event EventTypeStop 17)" by (rule daily_act) simp_all
  have "z \<le> 1657627200 + unix_epoch"
    using st(3) z(1) by (simp add: adjacent_in_def noon_def utc_at_def)
  then have "z \<le> last_at 17 (1657627200 + unix_epoch)" using z(2) by (intro last_at(4)) simp_all
  moreover have "?T * nano \<le> z * nano"
    using st(3) in17 unfolding adjacent_in_def stops z(1) [symmetric] by (simp add: noon_def utc_at_def)
  ultimately have stop: "instant stop = ?T * nano" using z(1) by (simp add: last_at_def)
  have "(1657616400 + unix_epoch) * nano \<in> daily_acts (daily_event EventTypeStart 9)" by (rule daily_act) simp_all
  then have "StartOfCurrentRunPeriod st \<noteq> None"
    using st(4) stop bspec [of _ _ "(1657616400 + unix_epoch) * nano"]
    unfolding starts adjacent_in_def by (fastforce split: option.splits)
  with st(1,2,6) stop \<open>is_start e\<close> that show ?thesis by blast
qed

lemma nine_build:
  assumes "nine_like c"
  obtains st stop where "buildState toy_env c jobs noon = Ok st" "shouldRun st" "rsLastStopTime st = Some stop"
    "instant stop = (1657558800 + unix_epoch) * nano" "rsIsSuspended st \<longleftrightarrow> csSuspend (cjSpec c) = Some True"
    "rsDesiredHash st = jtOther (csJobTemplate (cjSpec c))"
    "rsAutoRestartIsEnabled st \<longleftrightarrow> equal_fold (csSpecChangePolicy (cjSpec c)) RecreateSpecChangePolicy"
proof -
  obtain ss stop where ss: "StateFor nine_env c noon = Ok ss" "LastStopTime ss = Some stop"
    "instant stop = (1657558800 + unix_epoch) * nano" "ShouldBeRunning ss" "StartOfCurrentRunPeriod ss \<noteq> None"
    using nine_state [OF assms] .
  then obtain s where s: "StartOfCurrentRunPeriod ss = Some s" by blast
  show ?thesis
    by (rule that [where stop = stop], unfold buildState_def)
      (auto simp: ss s shouldRun_def CalculateHashFor_def plain_env_def)
qed

section \<open>Jobs\<close>

text \<open>
  \<open>nine_with\<close> varies the suspend flag, the policy and the deadline. \<open>current_job\<close> is the job the
  operator starts at 09:00, \<open>bare_job\<close> one without annotations, which counts as expired.
\<close>

definition nine_with :: "bool option \<Rightarrow> string \<Rightarrow> unit cjw" where
  "nine_with susp policy = \<lparr>cj = nine_cj\<lparr>cjSpec := (cjSpec nine_cj)\<lparr>csSuspend := susp, csSpecChangePolicy := policy\<rparr>\<rparr>,
     ticks = 0\<rparr>"

lemma nine_with_fields [simp]:
  "csSuspend (cjSpec (cj (nine_with susp policy))) = susp"
  "csSpecChangePolicy (cjSpec (cj (nine_with susp policy))) = policy"
  "csStartingDeadlineSeconds (cjSpec (cj (nine_with susp policy))) = None"
  "jtOther (csJobTemplate (cjSpec (cj (nine_with susp policy)))) = []"
  "jtAnnotations (csJobTemplate (cjSpec (cj (nine_with susp policy)))) = Map.empty"
  by (simp_all add: nine_with_def nine_cj_def blank_cj_def)

lemma nine_with_like: "nine_like (cj (nine_with susp policy))"
  by (simp add: nine_like_def nine_with_def nine_cj_def)

definition bare_job :: "unit job" where
  "bare_job = (newJobFor plain_env blank_cj nine_oclock 0 False False)\<lparr>jobAnnotations := Map.empty\<rparr>"

definition current_job :: "string \<Rightarrow> bool option \<Rightarrow> unit job" where
  "current_job hash susp = (newJobFor plain_env blank_cj nine_oclock 0 False False)\<lparr>jobAnnotations :=
     [ScheduledTimeAnnotation \<mapsto> format_rfc3339 nine_oclock, JobRunIdAnnotation \<mapsto> ''0'', TemplateHashAnnotation \<mapsto> hash],
     jobSpec := \<lparr>jsSuspend = susp, jsRest = ()\<rparr>\<rparr>"

lemma bare_job_readers [simp]:
  "GetScheduledTime bare_job = Err (GoErr (''No '' @ ScheduledTimeAnnotation @ '' annotation found on job '' @ jobName bare_job))"
  "\<not> IsJobBeingDeleted bare_job" "\<not> IsJobCompleted bare_job" "\<not> IsManuallyScheduledJob bare_job"
  by (simp_all add: GetScheduledTime_def bare_job_def annotation_def newJobFor_def IsJobBeingDeleted_def
      IsJobCompleted_def JobHasCondition_def GetJobCondition_def Let_def IsManuallyScheduledJob_def)

lemma current_job_readers [simp]:
  "GetScheduledTime (current_job hash susp) = Ok \<lparr>instant = (1657616400 + unix_epoch) * nano, locOf = fixed_zone [] 0\<rparr>"
  "\<not> IsJobBeingDeleted (current_job hash susp)" "\<not> IsJobCompleted (current_job hash susp)"
  "\<not> IsManuallyScheduledJob (current_job hash susp)" "GetJobRunId (current_job hash susp) = Ok 0"
  "annotation (current_job hash susp) TemplateHashAnnotation = hash" "\<not> WasJobStoppedByTheUser (current_job hash susp)"
  "IsJobSuspended (current_job hash susp) \<longleftrightarrow> susp = Some True"
proof -
  have "parse_rfc3339 (format_rfc3339 nine_oclock) = Some \<lparr>instant = (1657616400 + unix_epoch) * nano, locOf = fixed_zone [] 0\<rparr>"
    using parse_format [OF _ _ nine_oclock_props(2) [symmetric]] nine_oclock_props(1)
    by (simp add: nine_oclock_def time_sec_def)
  moreover have "ScheduledTimeAnnotation \<noteq> JobRunIdAnnotation" "ScheduledTimeAnnotation \<noteq> TemplateHashAnnotation"
    "JobRunIdAnnotation \<noteq> TemplateHashAnnotation" "ManualJobAnnotation \<noteq> ScheduledTimeAnnotation"
    "ManualJobAnnotation \<noteq> JobRunIdAnnotation" "ManualJobAnnotation \<noteq> TemplateHashAnnotation" using annotation_keys_distinct by auto
  moreover have "atoi ''0'' = Some 0" by code_simp
  ultimately show "GetScheduledTime (current_job hash susp) = Ok \<lparr>instant = (1657616400 + unix_epoch) * nano, locOf = fixed_zone [] 0\<rparr>"
    "\<not> IsJobBeingDeleted (current_job hash susp)" "\<not> IsJobCompleted (current_job hash susp)"
    "\<not> IsManuallyScheduledJob (current_job hash susp)" "GetJobRunId (current_job hash susp) = Ok 0"
    "annotation (current_job hash susp) TemplateHashAnnotation = hash" "\<not> WasJobStoppedByTheUser (current_job hash susp)"
    "IsJobSuspended (current_job hash susp) \<longleftrightarrow> susp = Some True"
    using format_not_empty
    by (simp_all add: GetScheduledTime_def current_job_def annotation_def newJobFor_def IsJobBeingDeleted_def
        IsJobCompleted_def JobHasCondition_def GetJobCondition_def Let_def IsManuallyScheduledJob_def GetJobRunId_def
        WasJobStoppedByTheUser_def IsJobSuspended_def SuspendReason_neq)
qed

lemma expired_at_noon:
  assumes "rsLastStopTime st = Some stop" "instant stop = (1657558800 + unix_epoch) * nano"
  shows "isExpired st bare_job" "\<not> isExpired st (current_job hash susp)"
  using assms by (simp_all add: isExpired_def time_before_def)

lemma current_choice_one:
  "\<not> isExpired st job \<Longrightarrow> shouldRun st \<Longrightarrow> currentChoice st [job] = Some 0"
  by (simp add: currentChoice_def bestCurrent_def)

section \<open>The theorems at noon\<close>

definition noon_state :: "bool option \<Rightarrow> string \<Rightarrow> rec_state \<Rightarrow> bool" where
  "noon_state susp policy st \<longleftrightarrow> shouldRun st
     \<and> (rsIsSuspended st \<longleftrightarrow> susp = Some True) \<and> (rsAutoRestartIsEnabled st \<longleftrightarrow> equal_fold policy RecreateSpecChangePolicy)
     \<and> isExpired st bare_job \<and> (\<forall>hash b. \<not> isExpired st (current_job hash b)) \<and> rsDesiredHash st = []"

lemma nine_decides:
  "\<exists>st. buildState toy_env (cj (nine_with susp policy)) jobs noon = Ok st \<and> noon_state susp policy st"
proof -
  obtain st stop where "buildState toy_env (cj (nine_with susp policy)) jobs noon = Ok st" "shouldRun st"
    "rsLastStopTime st = Some stop" "instant stop = (1657558800 + unix_epoch) * nano"
    "rsIsSuspended st \<longleftrightarrow> susp = Some True" "rsDesiredHash st = []"
    "rsAutoRestartIsEnabled st \<longleftrightarrow> equal_fold policy RecreateSpecChangePolicy"
    using nine_build [OF nine_with_like [of susp policy]] by (metis nine_with_fields(1,2,4))
  then show ?thesis using expired_at_noon unfolding noon_state_def by blast
qed

lemma no_deadline: "\<not> startingDeadlineSecondsExceeded (cj (nine_with susp policy)) s now"
  by (simp add: startingDeadlineSecondsExceeded_def)

lemma nine_succeeds:
  assumes "\<forall>job \<in> set jobs. job = bare_job \<or> (\<exists>t. GetScheduledTime job = Ok t)"
  shows "\<exists>d. makeDecision toy_env (nine_with None policy) jobs noon en = Return d None"
proof -
  obtain st where st: "buildState toy_env (cj (nine_with None policy)) jobs noon = Ok st"
    "noon_state None policy st"
    using nine_decides by blast
  have "\<exists>t. GetScheduledTime (jobs ! a) = Ok t" if "currentChoice st jobs = Some a" for a
  proof -
    note b = bestCurrent_Some(1,2) [OF currentChoice_Some(1) [OF that]]
    then have "jobs ! a \<in> set jobs" "jobs ! a \<noteq> bare_job" using st(2) by (auto simp: noon_state_def)
    then show ?thesis using assms by blast
  qed
  then show ?thesis
    using decision_reached [OF st(1), of en] st(2) toy_builder no_deadline by (simp add: noon_state_def)
qed

theorem decision_deletes_witness:
  "\<exists>d. makeDecision toy_env (nine_with None []) [bare_job, current_job [] None] noon False = Return d None
     \<and> 0 \<in> set (dDelete d)"
proof -
  let ?jobs = "[bare_job, current_job [] None]"
  obtain d where d: "makeDecision toy_env (nine_with None []) ?jobs noon False = Return d None"
    using nine_succeeds [of ?jobs] by auto
  obtain st where st: "buildState toy_env (cj (nine_with None [])) ?jobs noon = Ok st"
    "noon_state None [] st"
    using nine_decides by blast
  then have "0 \<in> set (dDelete d)" using decision_deletes [OF d st(1)] by (simp add: noon_state_def)
  then show ?thesis using d by blast
qed

theorem decision_single_runner_witness:
  "\<exists>d. makeDecision toy_env (nine_with None []) [current_job [] (Some True)] noon False = Return d None
     \<and> (\<forall>a \<in> set (dUnsuspend d). dCreate d = [] \<and> dChosen d = Some a)"
proof -
  let ?jobs = "[current_job [] (Some True)]"
  obtain d where d: "makeDecision toy_env (nine_with None []) ?jobs noon False = Return d None"
    using nine_succeeds [of ?jobs] by auto
  obtain st where st: "buildState toy_env (cj (nine_with None [])) ?jobs noon = Ok st"
    "noon_state None [] st"
    using nine_decides by blast
  then show ?thesis using d decision_single_runner [OF d st(1)] plain_env_ok by (auto simp: noon_state_def)
qed

text \<open>A suspended ControlledJob with a schedule that does not parse: its jobs are not deleted.\<close>

definition broken_cjw :: "unit cjw" where
  "broken_cjw = \<lparr>cj = blank_cj\<lparr>cjSpec := (cjSpec blank_cj)\<lparr>csSuspend := Some True,
     csEvents := [\<lparr>esAction = EventTypeStop, esCronSchedule = ''x'', esSchedule = None\<rparr>]\<rparr>\<rparr>, ticks = 0\<rparr>"

theorem decision_error_witness:
  "\<exists>d e. makeDecision toy_env broken_cjw [current_job [] None] noon False = Return d (Some e) \<and> dDelete d = []"
proof -
  have "\<exists>e. buildState toy_env (cj broken_cjw) [current_job [] None] noon = Err e"
    by (simp add: buildState_def StateFor_def broken_cjw_def blank_cj_def nine_env_def findNearestEvent_def
        mapEventToSpecSchedule_def AsCronSpec_def at_hour_def Let_def)
  then obtain d e where "makeDecision toy_env broken_cjw [current_job [] None] noon False = Return d (Some e)"
    by (auto simp: makeDecision_def)
  then show ?thesis using decision_error by blast
qed

theorem decision_starts_witness:
  "\<exists>d. makeDecision toy_env (nine_with None []) [] noon False = Return d None \<and> dCreate d = [0]
     \<and> \<not> IsJobSuspended (dStore d ! 0)"
proof -
  obtain st where st: "buildState toy_env (cj (nine_with None [])) [] noon = Ok st"
    "noon_state None [] st"
    using nine_decides by blast
  show ?thesis
    using decision_starts [OF st(1), of False] st(2) plain_env_ok toy_builder no_deadline by (auto simp: noon_state_def)
qed

theorem decision_recreates_witness:
  "\<exists>d. makeDecision toy_env (nine_with None ''Recreate'') [current_job ''old'' None] noon True = Return d None
     \<and> dCreate d = [1] \<and> 0 \<in> set (dDelete d)"
proof -
  let ?jobs = "[current_job ''old'' None]"
  obtain d where d: "makeDecision toy_env (nine_with None ''Recreate'') ?jobs noon True = Return d None"
    using nine_succeeds [of ?jobs] by auto
  obtain st where st: "buildState toy_env (cj (nine_with None ''Recreate'')) ?jobs noon = Ok st"
    "noon_state None ''Recreate'' st"
    using nine_decides by blast
  have "equal_fold ''Recreate'' RecreateSpecChangePolicy" by (simp add: equal_fold_def)
  moreover have "currentChoice st ?jobs = Some 0" by (rule current_choice_one) (use st(2) in \<open>simp_all add: noon_state_def\<close>)
  ultimately show ?thesis
    using decision_recreates [OF d st(1), of 0] st(2) plain_env_ok d by (auto simp: isOutOfDate_def noon_state_def)
qed

theorem decision_suspended_witness:
  "\<exists>d. makeDecision toy_env (nine_with (Some True) []) [current_job [] None] noon False = Return d None \<and> dDelete d = [0]"
proof -
  obtain st where st: "buildState toy_env (cj (nine_with (Some True) [])) [current_job [] None] noon = Ok st"
    "noon_state (Some True) [] st"
    using nine_decides by blast
  show ?thesis using decision_suspended [OF st(1), of False] by auto
qed

theorem decision_steady_witness:
  "\<exists>d. makeDecision toy_env (nine_with None []) [current_job [] None] noon True = Return d None
     \<and> dCreate d = [] \<and> dDelete d = [] \<and> dUnsuspend d = []"
proof -
  let ?jobs = "[current_job [] None]"
  obtain st where st: "buildState toy_env (cj (nine_with None [])) ?jobs noon = Ok st"
    "noon_state None [] st"
    using nine_decides by blast
  have "currentChoice st ?jobs = Some 0" by (rule current_choice_one) (use st(2) in \<open>simp_all add: noon_state_def\<close>)
  then show ?thesis
    using decision_steady [OF st(1) _ , of 0 True] st(2) by (auto simp: isOutOfDate_def noon_state_def)
qed

theorem starting_deadline_witness:
  "startingDeadlineSecondsExceeded (blank_cj\<lparr>cjSpec := (cjSpec blank_cj)\<lparr>csStartingDeadlineSeconds := Some 60\<rparr>\<rparr>)
     (Some nine_oclock) noon"
  using starting_deadline [of "blank_cj\<lparr>cjSpec := (cjSpec blank_cj)\<lparr>csStartingDeadlineSeconds := Some 60\<rparr>\<rparr>" 60 nine_oclock noon]
  by (simp add: nine_oclock_def noon_def utc_at_def)

text \<open>A schedule with stops only is never inside a run period.\<close>

definition stop_only_cjw :: "unit cjw" where
  "stop_only_cjw = \<lparr>cj = blank_cj\<lparr>cjSpec := (cjSpec blank_cj)\<lparr>csEvents := [daily_event EventTypeStop 9]\<rparr>\<rparr>, ticks = 0\<rparr>"

theorem decision_stops_witness:
  "\<exists>d. makeDecision toy_env stop_only_cjw [bare_job] noon False = Return d None \<and> 0 \<in> set (dDelete d)"
proof -
  let ?c = "cj stop_only_cjw"
  have ev: "csEvents (cjSpec ?c) = [daily_event EventTypeStop 9]" by (simp add: stop_only_cjw_def)
  have ex: "schedule_exact nine_env ?c UTC daily_acts noon"
    by (rule daily_schedule_exact [where actions = "[EventTypeStop]"]) (simp_all add: noon_whole stop_only_cjw_def)
  have "past_stop daily_acts (csEvents (cjSpec ?c)) (instant noon)"
    unfolding past_stop_def ev using daily_act [of 9 "1657616400 + unix_epoch" EventTypeStop]
    by (intro bexI [of _ "(1657616400 + unix_epoch) * nano"]) (auto simp: acts_of_def is_stop_def noon_def utc_at_def)
  then obtain ss stop where ss: "StateFor nine_env ?c noon = Ok ss" "LastStopTime ss = Some stop"
    "adjacent_in directionNext (acts_of daily_acts is_start (csEvents (cjSpec ?c))) (instant stop) (StartOfCurrentRunPeriod ss)"
    using StateFor_conclusions [OF ex] by metis
  have "acts_of daily_acts is_start (csEvents (cjSpec ?c)) = {}" by (simp add: ev acts_of_def is_start_def)
  then have "StartOfCurrentRunPeriod ss = None" using ss(3) by (auto simp: adjacent_in_def split: option.splits)
  then obtain st where st: "buildState toy_env ?c [bare_job] noon = Ok st" "\<not> shouldRun st" "rsLastStopTime st = Some stop"
    "\<not> rsIsSuspended st"
    using ss(1,2) by (simp add: buildState_def shouldRun_def) (simp add: stop_only_cjw_def blank_cj_def)
  then have exp: "isExpired st bare_job" by (simp add: isExpired_def)
  then have "currentChoice st [bare_job] = None" by (intro currentChoice_expired) simp
  then obtain d where d: "makeDecision toy_env stop_only_cjw [bare_job] noon False = Return d None"
    using decision_reached [OF st(1,4), of False] st(2) by (auto simp: recreate_due_def)
  show ?thesis using decision_stops [OF d st(1,4,2)] exp d by simp
qed

end
