(* ===== verification/ReconcileInstance.thy ===== *)
theory ReconcileInstance
  imports RunRefinement DecisionInstance
begin

text \<open>
  Concrete runs: a client that always finds one ControlledJob with its jobs and on which every
  call succeeds (its state counts the calls), and a cluster that carries calls out.
\<close>

section \<open>A client and an environment\<close>

definition toy_client :: "unit controlled_job \<Rightarrow> unit job list \<Rightarrow> (unit, nat) job_client" where
  "toy_client c jobs =
     \<lparr>GetControlledJob = (\<lambda>_ s. ((Some c, True, None), s)), UpdateControlledJob = (\<lambda>_ s. (None, s)),
      UpdateStatus = (\<lambda>_ s. (None, s + 1)),
      ListJobsForControlledJob = (\<lambda>_ s. ((jobs, None), s)), CreateJob = (\<lambda>_ s. (None, s + 1)),
      SuspendJob = (\<lambda>_ s. (None, s + 1)), UnsuspendJob = (\<lambda>_ s. (None, s + 1)),
      DeleteJob = (\<lambda>_ _ s. (None, s + 1))\<rparr>"

definition toy_run :: "unit controlled_job \<Rightarrow> unit job list \<Rightarrow> (unit, nat) rec_env" where
  "toy_run c jobs = \<lparr>reOp = toy_env, reClient = toy_client c jobs, reRecorder = (\<lambda>_ _ _ _ s. s), reEnableAutoRecreate = False\<rparr>"

lemma toy_run_fields [simp]:
  "reOp (toy_run c jobs) = toy_env" "reClient (toy_run c jobs) = toy_client c jobs"
  "reEnableAutoRecreate (toy_run c jobs) = False"
  by (simp_all add: toy_run_def)

lemma toy_load [simp]: "loadFromCluster (toy_client c jobs) target s = ((Some (c, jobs), None), s)"
  by (simp add: loadFromCluster_def toy_client_def)

lemma nine_with_eta: "\<lparr>cj = cj (nine_with susp policy), ticks = 0\<rparr> = nine_with susp policy"
  by (simp add: nine_with_def)

lemma actOnJobs_never_fails:
  assumes "\<And>job ws. fst (act job ws) = None"
  shows "fst (actOnJobs act jobs ws) = None"
proof (induction jobs arbitrary: ws)
  case (Cons job jobs)
  obtain ws1 where "act job ws = (None, ws1)" using assms by (metis prod.collapse)
  then show ?case using Cons by simp
qed simp

lemma toy_applies: "fst (applyDecision (toy_run c jobs) d s) = None"
proof -
  have act: "fst (actOnJob (toy_run c jobs) f event verb ty action okS okR okM job ws) = None"
    if "\<And>job s. fst (f job s) = None" for f event verb ty action okS okR okM job ws
    using that by (auto simp: actOnJob_def Let_def split: prod.split option.split) (metis fst_conv option.distinct(1))
  have loops: "fst (deleteJobs (toy_run c jobs) js ws) = None" "fst (createJobs (toy_run c jobs) js ws) = None"
    "fst (suspendJobs (toy_run c jobs) js ws) = None" "fst (unsuspendJobs (toy_run c jobs) js ws) = None" for js ws
    unfolding deleteJobs_def createJobs_def suspendJobs_def unsuspendJobs_def
    by (intro actOnJobs_never_fails act; simp add: toy_client_def)+
  have "fst (orElse r f) = None" if "fst r = None" "\<And>ws. fst (f ws) = None" for r :: "go_error option \<times> unit cjw \<times> nat" and f
    using that by (auto simp: orElse_def split: prod.split option.split)
  then show ?thesis by (simp add: applyDecision_def loops)
qed

section \<open>The theorems on runs\<close>

theorem reconcile_calls_witness:
  "\<exists>d r s' n c'. Reconcile (traced_env (toy_run (cj (nine_with None [])) [bare_job])) (''ns'', ''cj'') noon (0, [])
      = Finished r (s', take n (planned d) @ [CallUpdateStatus c']) \<and> dDelete d \<noteq> []"
proof -
  obtain d where d: "makeDecision toy_env (nine_with None []) [bare_job] noon False = Return d None"
    using nine_succeeds [of "[bare_job]"] by auto
  obtain st where st: "buildState toy_env (cj (nine_with None [])) [bare_job] noon = Ok st" "noon_state None [] st"
    using nine_decides by blast
  have "\<not> rsIsSuspended st" using st(2) by (simp add: noon_state_def)
  obtain new d4 where dec: "decided toy_env st (False \<and> rsAutoRestartIsEnabled st) noon (cj (nine_with None [])) [bare_job] new d4"
    "dDelete d = dDelete (deleteStep d4)"
    using decision_cases [OF d st(1) \<open>\<not> rsIsSuspended st\<close>] by metis
  then have "0 \<in> set (dDelete d)" using deleteStep_set(1) [OF dec(1)] st(2) by (simp add: noon_state_def)
  then have "dDelete d \<noteq> []" by auto
  moreover have "\<exists>r s' n c'. Reconcile (traced_env (toy_run (cj (nine_with None [])) [bare_job])) (''ns'', ''cj'') noon (0, [])
      = Finished r (s', take n (planned d) @ [CallUpdateStatus c'])"
    using reconcile_calls [of "toy_run (cj (nine_with None [])) [bare_job]" "(''ns'', ''cj'')" 0 _ _ 0 noon d] d
    unfolding toy_run_fields nine_with_eta by (metis nine_with_eta toy_load)
  ultimately show ?thesis by blast
qed

theorem reconcile_failed_decision_witness:
  "\<exists>s' c'. reconcilerReconcile (traced_env (toy_run (cj broken_cjw) [])) noon (''ns'', ''cj'') (0, [])
      = Some ((\<lparr>crRequeue = False, crRequeueAfter = 0\<rparr>, None), s', [CallUpdateStatus c'])
    \<and> stActionHistory (cjStatus c') = []"
proof -
  have "\<exists>e. buildState toy_env (cj broken_cjw) [] noon = Err e"
    by (simp add: buildState_def StateFor_def broken_cjw_def blank_cj_def nine_env_def findNearestEvent_def
        mapEventToSpecSchedule_def AsCronSpec_def at_hour_def Let_def)
  then obtain d e where d: "makeDecision toy_env \<lparr>cj = cj broken_cjw, ticks = 0\<rparr> [] noon False = Return d (Some e)"
    by (auto simp: makeDecision_def)
  have "stActionHistory (cjStatus (cj broken_cjw)) = []"
    by (simp add: broken_cjw_def blank_cj_def blank_status_def)
  then show ?thesis
    using reconcile_failed_decision [of "toy_run (cj broken_cjw) []" "(''ns'', ''cj'')" 0 "cj broken_cjw" "[]" 0 noon d e] d
    by auto
qed

theorem reconcile_requeue_witness:
  "\<exists>r s'. Reconcile (toy_run (cj (nine_with (Some True) [])) []) (''ns'', ''cj'') noon 0 = Finished r s'
     \<and> sint (rrRequeueAfter r) = - (2 ^ 63)"
proof -
  let ?c = "cj (nine_with (Some True) [])"
  obtain st where st: "buildState toy_env ?c [] noon = Ok st" "noon_state (Some True) [] st"
    using nine_decides by blast
  obtain d where d: "makeDecision toy_env \<lparr>cj = ?c, ticks = 0\<rparr> [] noon False = Return d None"
    using st by (simp add: makeDecision_def noon_state_def decideSuspended_def)
  obtain ws where "applyDecision (toy_run ?c []) d 0 = (None, ws)"
    using toy_applies [of ?c "[]" d 0] by (metis prod.collapse)
  then have "\<exists>r s'. Reconcile (toy_run ?c []) (''ns'', ''cj'') noon 0 = Finished r s' \<and> rrError r = None"
    using d by (simp add: Reconcile_def)
  then obtain r s' where r: "Reconcile (toy_run ?c []) (''ns'', ''cj'') noon 0 = Finished r s'" "rrError r = None" by blast
  have "2 ^ 63 \<le> instant noon" by (simp add: noon_def utc_at_def)
  then show ?thesis
    using reconcile_requeue [of "toy_run ?c []" "(''ns'', ''cj'')" 0 ?c "[]" 0 noon st r s'] st r
    by (auto simp: noon_state_def split: option.splits)
qed

theorem action_conditions_witness:
  "\<exists>ws'. unsuspendJobs (toy_run blank_cj []) [bare_job] (blank_cjw, 0) = (None, ws')
     \<and> status_of (fst ws') ConditionTypeFailedToUnsuspendJob = Some ConditionTrue"
proof -
  have "\<exists>ws'. unsuspendJobs (toy_run blank_cj []) [bare_job] (blank_cjw, 0) = (None, ws')"
    by (simp add: unsuspendJobs_def actOnJob_def toy_client_def split: prod.split)
  then show ?thesis using action_conditions [of "[bare_job]" "toy_run blank_cj []" "(blank_cjw, 0)"] by blast
qed

text \<open>A schedule with \<^verbatim>\<open>@every\<close>.\<close>

definition every_cj :: "unit controlled_job" where
  "every_cj = blank_cj\<lparr>cjSpec := (cjSpec blank_cj)\<lparr>csEvents := [every_event]\<rparr>\<rparr>"

lemma every_panics: "buildState toy_env every_cj [] noon = Panic"
proof -
  have "mapEventToSpecSchedule nine_env every_event UTC = Ok None"
    by (simp add: mapEventToSpecSchedule_def AsCronSpec_def every_event_def nine_env_def at_hour_def)
  then have "findNearestEvent nine_env [every_event] noon (UTC, offs) directionPrevious (\<lambda>_. True) = Panic" for offs
    by (simp add: findNearestEvent_def findNearestScheduleTime_def adjacentEventTime_def)
  moreover have "LoadLocation nine_env name = Ok UTC" for name by (simp add: nine_env_def)
  ultimately show ?thesis by (simp add: buildState_def StateFor_def every_cj_def)
qed

theorem reconcile_panic_witness:
  "\<exists>s' c'. Reconcile (traced_env (toy_run every_cj [])) (''ns'', ''cj'') noon (0, []) = Panicked (s', [CallUpdateStatus c'])"
  using reconcile_panic [of "toy_run every_cj []" "(''ns'', ''cj'')" 0 every_cj "[]" 0 noon] every_panics by auto

text \<open>An API on which the ControlledJob does not exist.\<close>

definition empty_api :: "(unit, unit) api_client" where
  "empty_api = \<lparr>apiGet = (\<lambda>_ s. ((blank_cj, Some (GoErr ''not found'')), s)), apiUpdateObject = (\<lambda>_ s. (None, s)),
     apiUpdateStatus = (\<lambda>_ s. (None, s)), apiListByOwner = (\<lambda>_ s. (([], None), s)), apiCreate = (\<lambda>_ s. (None, s)),
     apiUpdateJob = (\<lambda>_ s. (None, s)), apiDelete = (\<lambda>_ _ s. (None, s)), apiIsNotFound = (\<lambda>e. e = GoErr ''not found'')\<rparr>"

theorem reconcile_missing_witness:
  "reconcilerReconcile \<lparr>reOp = toy_env, reClient = NewFromClient empty_api, reRecorder = (\<lambda>_ _ _ _ s. s), reEnableAutoRecreate = False\<rparr>
     noon (''ns'', ''cj'') () = Some ((\<lparr>crRequeue = False, crRequeueAfter = 0\<rparr>, None), ())"
  using reconcile_missing [of empty_api "(''ns'', ''cj'')" "()" blank_cj "GoErr ''not found''" "()"
    "\<lparr>reOp = toy_env, reClient = NewFromClient empty_api, reRecorder = (\<lambda>_ _ _ _ s. s), reEnableAutoRecreate = False\<rparr>" noon]
  by (simp add: empty_api_def)

section \<open>A cluster\<close>

definition carry_out :: "'p client_call \<Rightarrow> 'p job list \<Rightarrow> 'p job list" where
  "carry_out call jobs =
     (case call of
        CallUpdateStatus c \<Rightarrow> jobs
      | CallCreate job \<Rightarrow> jobs @ [job]
      | CallSuspend job \<Rightarrow> update_first (\<lambda>j. j\<lparr>jobSpec := jobSpec job\<rparr> = job) (\<lambda>_. set_suspend True job) jobs
      | CallUnsuspend job \<Rightarrow> update_first (\<lambda>j. j\<lparr>jobSpec := jobSpec job\<rparr> = job) (\<lambda>_. set_suspend False job) jobs
      | CallDelete job \<Rightarrow> filter (\<lambda>j. jobName j \<noteq> jobName job) jobs)"

lemma update_first_list_update:
  "update_first P f jobs = jobs \<or> (\<exists>a < length jobs. P (jobs ! a) \<and> update_first P f jobs = jobs[a := f (jobs ! a)])"
proof (induction jobs)
  case (Cons j jobs)
  show ?case
  proof (cases "P j")
    case True
    then show ?thesis by (intro disjI2 exI [of _ 0]) simp
  next
    case False
    from Cons consider "update_first P f jobs = jobs"
      | a where "a < length jobs" "P (jobs ! a)" "update_first P f jobs = jobs[a := f (jobs ! a)]" by blast
    then show ?thesis
    proof cases
      case (2 a)
      then show ?thesis using False by (intro disjI2 exI [of _ "Suc a"]) simp
    qed (use False in simp)
  qed
qed simp

lemma carry_out_documented: "carry_out call jobs = jobs \<or> documented_change call jobs (carry_out call jobs)"
proof (cases call)
  case (CallSuspend job)
  then show ?thesis
    using update_first_list_update [of "\<lambda>j. j\<lparr>jobSpec := jobSpec job\<rparr> = job" "\<lambda>_. set_suspend True job" jobs]
    by (simp add: carry_out_def)
next
  case (CallUnsuspend job)
  then show ?thesis
    using update_first_list_update [of "\<lambda>j. j\<lparr>jobSpec := jobSpec job\<rparr> = job" "\<lambda>_. set_suspend False job" jobs]
    by (simp add: carry_out_def)
qed (auto simp: carry_out_def)

lemma carry_out_api: "api_documented (\<lambda>call jobs jobs'. jobs' = carry_out call jobs)"
  using carry_out_documented by (auto simp: api_documented_def)

text \<open>The expired \<open>bare_job\<close> is gone, but the cache still lists it.\<close>

theorem at_most_one_runs_witness:
  "\<exists>jobs calls. reachable toy_env (\<lambda>call jobs jobs'. jobs' = carry_out call jobs) ([current_job [] (Some True)], []) (jobs, calls)
     \<and> calls \<noteq> [] \<and> runners jobs \<le> 1"
proof -
  let ?cluster = "[current_job [] (Some True)]" and ?jobs = "[bare_job, current_job [] (Some True)]" and ?effect = "\<lambda>call jobs jobs'. jobs' = carry_out call jobs"
  obtain d where d: "makeDecision toy_env (nine_with None []) ?jobs noon False = Return d None"
    using nine_succeeds [of ?jobs] by auto
  obtain st where st: "buildState toy_env (cj (nine_with None [])) ?jobs noon = Ok st" "noon_state None [] st"
    using nine_decides by blast
  have "\<not> rsIsSuspended st" using st(2) by (simp add: noon_state_def)
  obtain new d4 where dec: "decided toy_env st (False \<and> rsAutoRestartIsEnabled st) noon (cj (nine_with None [])) ?jobs new d4"
    "dDelete d = dDelete (deleteStep d4)"
    using decision_cases [OF d st(1) \<open>\<not> rsIsSuspended st\<close>] by metis
  have "0 \<in> set (dDelete d)" using deleteStep_set(1) [OF dec(1)] st(2) by (simp add: dec(2) noon_state_def)
  then have "planned d \<noteq> []" by (auto simp: planned_def jobs_at_def)
  moreover have r: "reachable toy_env ?effect (?cluster, []) (?cluster, planned d)"
    by (rule reachable.step [OF reachable.start cluster_step.decide [where env = toy_env and effect = ?effect, OF d]])
      (simp add: runners_def)
  moreover have one: "runners ?cluster \<le> 1" by (simp add: runners_def)
  have "runners ?cluster \<le> 1 \<and> (\<forall>a < length ?cluster. \<forall>b < length ?cluster. may_run (?cluster ! a) \<longrightarrow> may_run (?cluster ! b) \<longrightarrow> a = b)"
    using at_most_one_runs [OF r one carry_out_api] plain_env_ok by simp
  ultimately show ?thesis by blast
qed

section \<open>Runs on a store of jobs\<close>

text \<open>
  An API server in memory that serves one ControlledJob; its state is the list of its jobs. A job
  name can be taken once.
\<close>

definition memory_api :: "unit controlled_job \<Rightarrow> (unit, unit job list) api_client" where
  "memory_api c =
     \<lparr>apiGet = (\<lambda>_ jobs. ((c, None), jobs)), apiUpdateObject = (\<lambda>_ jobs. (None, jobs)),
      apiUpdateStatus = (\<lambda>_ jobs. (None, jobs)), apiListByOwner = (\<lambda>_ jobs. ((jobs, None), jobs)),
      apiCreate = (\<lambda>job jobs. if jobName job \<in> set (map jobName jobs) then (Some (GoErr ''already exists''), jobs)
         else (None, jobs @ [job])),
      apiUpdateJob = (\<lambda>job jobs. (None, update_first (\<lambda>j. j\<lparr>jobSpec := jobSpec job\<rparr> = job) (\<lambda>_. job) jobs)),
      apiDelete = (\<lambda>job _ jobs. (None, filter (\<lambda>j. jobName j \<noteq> jobName job) jobs)),
      apiIsNotFound = (\<lambda>e. e = GoErr ''not found'')\<rparr>"

interpretation memory: api_store "memory_api c" "\<lambda>_ _ _ _ s. s" target "\<lambda>s. s" for c target
proof unfold_locales
  fix job :: "unit job" and s
  show "snd (apiUpdateJob (memory_api c) job s) = s
      \<or> (\<exists>a < length s. (s ! a)\<lparr>jobSpec := jobSpec job\<rparr> = job \<and> snd (apiUpdateJob (memory_api c) job s) = s[a := job])"
    using update_first_list_update [of "\<lambda>j. j\<lparr>jobSpec := jobSpec job\<rparr> = job" "\<lambda>_. job" s]
    by (simp add: memory_api_def)
qed (auto simp: memory_api_def)

definition memory_run :: "unit controlled_job \<Rightarrow> (unit, unit job list) rec_env" where
  "memory_run c = \<lparr>reOp = toy_env, reClient = NewFromClient (memory_api c), reRecorder = (\<lambda>_ _ _ _ s. s),
     reEnableAutoRecreate = False\<rparr>"

lemma memory_load: "loadFromCluster (NewFromClient (memory_api c)) target jobs = ((Some (c, jobs), None), jobs)"
  by (simp add: loadFromCluster_def NewFromClient_def adapterGetControlledJob_def adapterListJobs_def
      IgnoreNotFound_def memory_api_def)

lemma memory_finishes:
  "\<exists>r jobs'. Reconcile (memory_run (cj (nine_with None []))) (''ns'', ''cj'') noon [bare_job] = Finished r jobs'"
proof -
  obtain d where "makeDecision toy_env (nine_with None []) [bare_job] noon False = Return d None"
    using nine_succeeds [of "[bare_job]"] by auto
  then show ?thesis
    by (simp add: Reconcile_def memory_run_def memory_load nine_with_eta split: prod.split option.split)
qed

lemma memory_lists: "lists_runners (memory_run c) target (\<lambda>s. s) jobs"
  by (simp add: lists_runners_def memory_run_def memory_load)

theorem operator_at_most_one_witness:
  "\<exists>r jobs'. Reconcile (memory_run (cj (nine_with None []))) (''ns'', ''cj'') noon [bare_job] = Finished r jobs'
     \<and> runners [bare_job] = 1 \<and> runners jobs' \<le> 1"
proof -
  let ?env = "memory_run (cj (nine_with None []))"
  obtain r jobs' where run: "Reconcile ?env (''ns'', ''cj'') noon [bare_job] = Finished r jobs'"
    using memory_finishes by blast
  then have "operator_runs ?env (''ns'', ''cj'') (\<lambda>s. s) [bare_job] jobs'"
    by (rule operator_runs.returns [OF operator_runs.init memory_lists])
  moreover have "\<not> IsJobSuspended bare_job"
    by (simp add: IsJobSuspended_def bare_job_def newJobFor_def blank_cj_def Let_def)
  then have "runners [bare_job] = 1" by (simp add: may_run_def)
  ultimately show ?thesis
    using operator_at_most_one [of ?env "(''ns'', ''cj'')" "\<lambda>s. s" "[bare_job]" jobs' "memory_api (cj (nine_with None []))"]
      memory.api_store_axioms plain_env_ok run by (auto simp: memory_run_def)
qed

section \<open>The overall conditions\<close>

theorem calculateOverallConditions_correct_witness:
  "status_of (calculateOverallConditions (\<lambda>_. zero_time) None blank_cjw) ConditionTypeNotRunningExpectedly
     = Some ConditionTrue"
  using calculateOverallConditions_correct [of "\<lambda>_. zero_time" None blank_cjw]
  by (simp add: verdict_def overall_verdict_def overall_types_def cond_true_status status_of_def cond_of_def
      FindCondition_def blank_cjw_def blank_cj_def blank_status_def)

end
