(* ===== verification/ConvergenceInstance.thy ===== *)
theory ConvergenceInstance
  imports Convergence MockRuns StatusTypes ReconcileInstance
begin

text \<open>
  The order-free reading of a decision and the convergence of runs, on the ControlledJob of
  \<open>DecisionInstance\<close> at noon and on the API server in memory of \<open>ReconcileInstance\<close>; and a run of
  the reconciler on a mock of that client.
\<close>

section \<open>The run period at noon\<close>

lemma nine_last_stop:
  "findNearestEvent nine_env nine_to_five noon (UTC, 0) directionPrevious is_stop
     = Ok (Some \<lparr>seType = EventTypeStop, seScheduledTimeUTC = daily_prev 17 noon\<rparr>)"
  using cronPrev_daily [of 17 noon, folded daily_prev_def] daily_nonzero(2) [of 17 noon]
  by (simp add: findNearestEvent_def nine_to_five_def is_stop_def map_daily findNearestScheduleTime_def
      adjacentEventTime_def eventIsNearer_def time_is_zero_def zero_time_def)

lemma nine_start:
  "findNearestEvent nine_env nine_to_five (daily_prev 17 noon) (UTC, 0) directionNext is_start
     = Ok (Some \<lparr>seType = EventTypeStart, seScheduledTimeUTC = nine_oclock\<rparr>)"
proof -
  have t: "daily_prev 17 noon = \<lparr>instant = (1657558800 + unix_epoch) * nano, locOf = UTC\<rparr>"
    by (simp add: daily_prev_def noon_def utc_at_def time_sec_def last_at_def)
  have "NextActivation nine_env (daily_at 9 UTC) (daily_prev 17 noon) = nine_oclock"
    by (simp add: t nine_env_def bit_hour daily_next_def nine_oclock_def time_sec_def last_at_def)
  moreover have "\<not> time_is_zero nine_oclock" by (simp add: time_is_zero_def nine_oclock_def)
  ultimately show ?thesis
    by (simp add: findNearestEvent_def nine_to_five_def is_start_def map_daily findNearestScheduleTime_def
        adjacentEventTime_def eventIsNearer_def time_is_zero_def zero_time_def)
qed

definition noon_period :: rec_state where
  "noon_period = \<lparr>rsIsSuspended = False, rsShouldBeRunning = Some True, rsStartOfCurrentRunPeriod = Some nine_oclock,
     rsLastStopTime = Some (daily_prev 17 noon), rsNextEventTime = None, rsAllJobs = [], rsDesiredHash = [],
     rsAutoRestartIsEnabled = False\<rparr>"

definition noon_period_with :: "string \<Rightarrow> rec_state" where
  "noon_period_with policy = noon_period\<lparr>rsAutoRestartIsEnabled := equal_fold policy RecreateSpecChangePolicy\<rparr>"

lemma noon_same_period_with: "same_period toy_env (cj (nine_with None policy)) (noon_period_with policy) {noon}"
proof -
  have "\<exists>st. buildState toy_env c' jobs noon = Ok st \<and> period_view st = noon_period_with policy"
    if same: "same_object (cj (nine_with None policy)) c'" for c' and jobs :: "unit job list"
  proof -
    have spec: "cjSpec c' = cjSpec (cj (nine_with None policy))" using same by (simp add: same_object_def)
    have like: "nine_like c'" using nine_with_like [of None policy] by (simp add: nine_like_def spec)
    have ev: "csEvents (cjSpec c') = nine_to_five" "tzOffsetSeconds (csTimezone (cjSpec c')) = 0"
      using like by (simp_all add: nine_like_def blank_cj_def)
    obtain ss where ss: "StateFor nine_env c' noon = Ok ss" "ShouldBeRunning ss" using nine_state [OF like] by metis
    have loc: "LoadLocation nine_env name = Ok UTC" for name by (simp add: nine_env_def)
    have "LastStopTime ss = Some (daily_prev 17 noon)" "StartOfCurrentRunPeriod ss = Some nine_oclock"
      using ss(1) by (auto simp: StateFor_def ev loc outcome_eqs Let_def findMostRecentStopTime_def nine_last_stop
          findStartOfCurrentRunPeriod_def nine_start LastStopTime_def StartOfCurrentRunPeriod_def)
    then show ?thesis
      using ss by (simp add: buildState_def spec period_view_def noon_period_with_def noon_period_def CalculateHashFor_def plain_env_def)
  qed
  then show ?thesis by (simp add: same_period_def)
qed

lemma noon_period_plain: "noon_period_with [] = noon_period"
proof -
  have "\<not> equal_fold [] RecreateSpecChangePolicy" by code_simp
  then show ?thesis by (simp add: noon_period_with_def noon_period_def)
qed

lemma noon_same_period: "same_period toy_env (cj (nine_with None [])) noon_period {noon}"
  using noon_same_period_with [of "[]"] by (simp add: noon_period_plain)

lemma noon_under_way: "period_under_way (noon_period_with policy)"
proof -
  have "kept_time nine_oclock"
    using nine_oclock_props by (simp add: kept_time_def)
  moreover have "nano dvd instant (daily_prev 17 noon)" "instant (daily_prev 17 noon) \<le> instant nine_oclock"
    by (simp_all add: daily_prev_noon nine_oclock_def)
  ultimately show ?thesis by (simp add: period_under_way_def noon_period_with_def noon_period_def shouldRun_def)
qed

section \<open>The API server in memory\<close>

lemma update_first_unique:
  assumes "distinct xs" "x \<in> set xs" "\<And>y. y \<in> set xs \<Longrightarrow> P y \<longleftrightarrow> y = x"
  shows "update_first P f xs = map (\<lambda>y. if y = x then f y else y) xs"
  using assms
proof (induction xs)
  case (Cons y ys)
  show ?case
  proof (cases "y = x")
    case True
    then have "map (\<lambda>y. if y = x then f y else y) ys = ys" using Cons.prems(1) by (auto intro: map_idI)
    then show ?thesis using Cons.prems True by simp
  next
    case False
    then show ?thesis using Cons by simp
  qed
qed simp

interpretation in_memory: responsive_api "memory_api c" "\<lambda>_ _ _ _ s. s" target "\<lambda>s. s" c for c target
proof unfold_locales
  fix stored job :: "unit job" and s
  assume stored: "stored \<in> set s" "distinct (map jobName s)" "stored\<lparr>jobSpec := jobSpec job\<rparr> = job"
  have "j\<lparr>jobSpec := jobSpec job\<rparr> = job \<longleftrightarrow> j = stored" if "j \<in> set s" for j
  proof
    assume "j\<lparr>jobSpec := jobSpec job\<rparr> = job"
    then have "jobName j = jobName stored" using stored(3) by (metis job.select_convs(1) job.ext_inject job.surjective job.update_convs(7))
    then show "j = stored" using stored(1,2) that by (auto simp: distinct_map inj_on_def)
  qed (use stored(3) in simp)
  with update_first_unique [of s stored "\<lambda>j. j\<lparr>jobSpec := jobSpec job\<rparr> = job" "\<lambda>_. job"] stored
  show "fst (apiUpdateJob (memory_api c) job s) = None
      \<and> snd (apiUpdateJob (memory_api c) job s) = map (\<lambda>j. if j = stored then job else j) s"
    by (simp add: memory_api_def distinct_map)
qed (auto simp: memory_api_def same_object_def removed_or_marked_def)

lemma current_job_name: "jobName (current_job hash susp) = JobName ''cj'' nine_oclock 0"
  by (simp add: current_job_def newJobFor_def Let_def blank_cj_def)

lemma current_job_sound: "sound_job (cj (nine_with None policy)) (current_job hash susp)"
proof -
  let ?t = "\<lparr>instant = (1657616400 + unix_epoch) * nano, locOf = fixed_zone [] 0\<rparr>"
  have "time_year ?t = time_year nine_oclock" "time_unix ?t = time_unix nine_oclock" "0 \<le> time_unix nine_oclock"
    by (simp_all add: nine_oclock_def time_year_def local_sec_def time_unix_def time_sec_def)
  then have "kept_time ?t" "JobName ''cj'' nine_oclock 0 = JobName ''cj'' ?t 0" "0 \<le> time_unix ?t"
    using nine_oclock_props(1) by (simp_all add: kept_time_def JobName_def)
  moreover have "cjName (cj (nine_with None policy)) = ''cj''" by (simp add: nine_with_def nine_cj_def blank_cj_def)
  ultimately show ?thesis by (simp add: sound_job_def current_job_name)
qed

text \<open>With automatic recreation, a job of another template gives way to one that is up to date.\<close>

definition recreating_run :: "unit controlled_job \<Rightarrow> (unit, unit job list) rec_env" where
  "recreating_run c = (memory_run c)\<lparr>reEnableAutoRecreate := True\<rparr>"

theorem operator_converges_witness:
  "\<exists>s2 s'. run_all (recreating_run (cj (nine_with None ''Recreate''))) present (''ns'', ''cj'') [noon, noon] [current_job ''old'' None] = Some s2
     \<and> settled (noon_period_with ''Recreate'') True [current_job ''old'' None] s2
     \<and> run_all (recreating_run (cj (nine_with None ''Recreate''))) present (''ns'', ''cj'') [noon, noon, noon] [current_job ''old'' None] = Some s'
     \<and> s' = s2 \<and> s2 \<noteq> [current_job ''old'' None]"
proof -
  let ?c = "cj (nine_with None ''Recreate'')" and ?old = "current_job ''old'' None"
  have "equal_fold ''Recreate'' RecreateSpecChangePolicy" by code_simp
  then have on: "restarts (recreating_run ?c) (noon_period_with ''Recreate'')"
    by (simp add: restarts_def recreating_run_def noon_period_with_def)
  have "isOutOfDate ?old (noon_period_with ''Recreate'')"
    by (simp add: isOutOfDate_def noon_period_with_def noon_period_def)
  then have old: "\<not> settled (noon_period_with ''Recreate'') True jobs0 [?old]" for jobs0 :: "unit job list"
    using chosenJob_iff [of "[?old]" "noon_period_with ''Recreate''"] by (auto simp: settled_def is_best_def)
  obtain s2 s' where "run_all (recreating_run ?c) present (''ns'', ''cj'') [noon, noon] [?old] = Some s2"
    "settled (noon_period_with ''Recreate'') True [?old] s2"
    "run_all (recreating_run ?c) present (''ns'', ''cj'') [noon, noon, noon] [?old] = Some s'" "s' = s2"
    using operator_converges [of "memory_api ?c" "recreating_run ?c" "(''ns'', ''cj'')" "\<lambda>s. s" ?c "noon_period_with ''Recreate''"
        "{noon}" noon "[?old]" noon "[noon]" present] on
      in_memory.responsive_api_axioms noon_same_period_with noon_under_way plain_env_ok toy_builder no_deadline current_job_sound
    by (auto simp: memory_run_def recreating_run_def collects_def)
  then show ?thesis using old by blast
qed

lemma noon_decision:
  "\<exists>d st. makeDecision toy_env (nine_with None []) jobs noon False = Return d None
     \<and> buildState toy_env (cj (nine_with None [])) jobs noon = Ok st \<and> noon_state None [] st \<and> \<not> rsIsSuspended st"
  if "\<forall>job \<in> set jobs. job = bare_job \<or> (\<exists>t. GetScheduledTime job = Ok t)"
  using nine_succeeds [OF that, of "[]" False] nine_decides [of None "[]" jobs] by (auto simp: noon_state_def)

section \<open>What a run carries out\<close>

lemma carries_out_nothing: "carries_out client view v [] ok v' \<Longrightarrow> ok \<and> v' = v"
  by (erule carries_out.cases) auto

text \<open>At noon the expired \<open>bare_job\<close> is the first to be deleted.\<close>

theorem reconcile_refines_witness:
  "\<exists>r jobs' calls. Reconcile (traced_env (memory_run (cj (nine_with None [])))) (''ns'', ''cj'') noon ([bare_job], [])
       = Finished r (jobs', CallDelete bare_job # calls)
     \<and> (\<exists>ok plan. carries_out (NewFromClient (memory_api (cj (nine_with None [])))) (\<lambda>s. s) [bare_job] (CallDelete bare_job # plan) ok jobs')"
proof -
  let ?c = "cj (nine_with None [])" and ?target = "(''ns'', ''cj'')"
  let ?env = "memory_run ?c"
  obtain d st where d: "makeDecision toy_env (nine_with None []) [bare_job] noon False = Return d None"
    "buildState toy_env ?c [bare_job] noon = Ok st" "noon_state None [] st" "\<not> rsIsSuspended st"
    using noon_decision [of "[bare_job]"] by auto
  have "to_delete st (False \<and> rsAutoRestartIsEnabled st) [bare_job] bare_job"
    using d(3) by (simp add: to_delete_def noon_state_def)
  then have "mset (jobs_at d (dDelete d)) = {#bare_job#}"
    using decision_deletions [OF d(1,2,4)] by simp
  then obtain plan where plan: "planned d = CallDelete bare_job # plan" by (auto simp: planned_def)
  have load: "loadFromCluster (reClient ?env) ?target [bare_job] = ((Some (?c, [bare_job]), None), [bare_job])"
    by (simp add: memory_run_def memory_load)
  have decision: "makeDecision (reOp ?env) \<lparr>cj = ?c, ticks = 0\<rparr> [bare_job] noon (reEnableAutoRecreate ?env) = Return d None"
    using d(1) by (simp add: memory_run_def nine_with_eta)
  obtain r s' tr where run: "Reconcile (traced_env ?env) ?target noon ([bare_job], []) = Finished r (s', tr)"
    using reconcile_calls_lemma [OF load decision] by blast
  have here: "run_decides ?env ?target noon [bare_job] ?c [bare_job] d"
    using load decision by (simp add: run_decides_def)
  have api: "api_store (memory_api ?c) (reRecorder ?env) ?target (\<lambda>s. s)" "reClient ?env = NewFromClient (memory_api ?c)"
    using memory.api_store_axioms by (simp_all add: memory_run_def)
  obtain n c' where n: "rrError r = None \<longrightarrow> n = length (planned d)" "tr = take n (planned d) @ [CallUpdateStatus c']"
    "carries_out (NewFromClient (memory_api ?c)) (\<lambda>s. s) [bare_job] (take n (planned d)) (rrError r = None) s'"
    using conjunct1 [OF reconcile_refines [OF api disjI1 [OF run]]]
  proof (elim disjE exE conjE)
    assume "\<nexists>c jobs d. run_decides ?env ?target noon [bare_job] c jobs d"
    then show thesis using here by blast
  next
    fix c jobs d' n c'
    assume run': "run_decides ?env ?target noon [bare_job] c jobs d'" and rest: "rrError r = None \<longrightarrow> n = length (planned d')"
      "tr = take n (planned d') @ [CallUpdateStatus c']"
      "carries_out (NewFromClient (memory_api ?c)) (\<lambda>s. s) [bare_job] (take n (planned d')) (rrError r = None) s'"
    have "d' = d" using run_decides_unique [OF here run'] by simp
    show thesis by (rule that [OF rest [unfolded \<open>d' = d\<close>]])
  qed
  have "n \<noteq> 0"
  proof
    assume "n = 0"
    then show False using carries_out_nothing [of _ _ _ "rrError r = None" s'] n(1,3) plan by force
  qed
  then obtain m where "take n (planned d) = CallDelete bare_job # take m plan" using plan by (cases n) simp_all
  then show ?thesis using run n(2,3) by auto
qed

section \<open>The order-free reading\<close>

definition run_job :: "int \<Rightarrow> bool option \<Rightarrow> bool \<Rightarrow> unit job" where
  "run_job i susp completed = (current_job [] susp)\<lparr>jobName := JobName ''cj'' nine_oclock i,
     jobConditions := (if completed then [\<lparr>jcType = JobComplete, jcStatus = ConditionTrue\<rparr>] else [])\<rparr>"

lemma run_job_readers [simp]:
  "jobName (run_job i susp completed) = JobName ''cj'' nine_oclock i"
  "GetScheduledTime (run_job i susp completed) = Ok \<lparr>instant = (1657616400 + unix_epoch) * nano, locOf = fixed_zone [] 0\<rparr>"
  "IsJobCompleted (run_job i susp completed) \<longleftrightarrow> completed" "\<not> IsJobBeingDeleted (run_job i susp completed)"
  "annotation (run_job i susp completed) TemplateHashAnnotation = []"
  "WasJobStoppedByTheUser (run_job i susp completed) = WasJobStoppedByTheUser (current_job [] susp)"
  "IsJobSuspended (run_job i susp completed) \<longleftrightarrow> susp = Some True"
proof -
  have ann: "annotation (run_job i susp completed) key = annotation (current_job [] susp) key" for key
    by (simp add: run_job_def annotation_def)
  have same: "jobSpec (run_job i susp completed) = jobSpec (current_job [] susp)"
    "jobDeletionTimestamp (run_job i susp completed) = jobDeletionTimestamp (current_job [] susp)"
    by (simp_all add: run_job_def)
  show "GetScheduledTime (run_job i susp completed) = Ok \<lparr>instant = (1657616400 + unix_epoch) * nano, locOf = fixed_zone [] 0\<rparr>"
    using current_job_readers(1) [of "[]" susp] unfolding GetScheduledTime_def ann
    by (simp add: Let_def split: if_splits option.splits)
  show "annotation (run_job i susp completed) TemplateHashAnnotation = []" by (simp add: ann)
  show "WasJobStoppedByTheUser (run_job i susp completed) = WasJobStoppedByTheUser (current_job [] susp)"
    "IsJobSuspended (run_job i susp completed) \<longleftrightarrow> susp = Some True"
    "\<not> IsJobBeingDeleted (run_job i susp completed)"
    using current_job_readers(2,8) [of "[]" susp]
    by (simp_all add: WasJobStoppedByTheUser_def ann IsJobSuspended_def IsJobBeingDeleted_def same)
qed (simp_all add: run_job_def IsJobCompleted_def JobHasCondition_def GetJobCondition_def)

lemma run_job_current: "noon_state susp policy st \<Longrightarrow> \<not> isExpired st (run_job i b completed)"
  using current_job_readers(1) [of "[]" b] unfolding noon_state_def by (simp add: isExpired_def split: option.splits)

lemma bare_job_name: "jobName bare_job = JobName ''cj'' nine_oclock 0"
  by (simp add: bare_job_def newJobFor_def Let_def blank_cj_def)

lemma JobName_neq: "JobName n t 0 \<noteq> JobName n t 1"
  by (simp add: JobName_def) code_simp

text \<open>An expired job is deleted, and the suspended one of the period unsuspended.\<close>

theorem decision_reference_witness:
  "\<exists>d. makeDecision toy_env (nine_with None []) [bare_job, run_job 1 (Some True) False] noon False = Return d None
     \<and> mset (jobs_at d (dDelete d)) = {#bare_job#} \<and> dCreate d = []"
proof -
  let ?run = "run_job 1 (Some True) False" and ?jobs = "[bare_job, run_job 1 (Some True) False]"
  obtain d st where d: "makeDecision toy_env (nine_with None []) ?jobs noon False = Return d None"
    "buildState toy_env (cj (nine_with None [])) ?jobs noon = Ok st" "noon_state None [] st" "\<not> rsIsSuspended st"
    using noon_decision [of ?jobs] by auto
  have names: "distinct (map jobName ?jobs)" using JobName_neq by (simp add: bare_job_name)
  have st: "isExpired st bare_job" "\<not> isExpired st ?run" "shouldRun st"
    using d(3) run_job_current [OF d(3)] by (simp_all add: noon_state_def)
  then have "is_best st (set ?jobs) ?run" by (auto simp: is_best_def)
  then have chosen: "chosenJob st ?jobs = Some ?run" using chosenJob_iff [OF names] st(3) by blast
  moreover have "\<not> replaced st False ?run" by (simp add: replaced_def isOutOfDate_def)
  ultimately have "survivor st False ?jobs = Some ?run" "job_request st False ?jobs = None"
    by (simp_all add: survivor_def job_request_def)
  then show ?thesis
    using decision_reference [OF d(1,2,4) names] d(1) st(1,2) by (simp add: to_delete_def)
qed

theorem decision_order_independent_witness:
  "\<exists>d d'. makeDecision toy_env (nine_with None []) [bare_job, run_job 1 (Some True) False] noon False = Return d None
     \<and> makeDecision toy_env (nine_with None []) [run_job 1 (Some True) False, bare_job] noon False = Return d' None
     \<and> mset (jobs_at d' (dDelete d')) = mset (jobs_at d (dDelete d)) \<and> jobs_at d' (dUnsuspend d') = jobs_at d (dUnsuspend d)"
proof -
  let ?jobs = "[bare_job, run_job 1 (Some True) False]" and ?jobs' = "[run_job 1 (Some True) False, bare_job]"
  obtain d where d: "makeDecision toy_env (nine_with None []) ?jobs noon False = Return d None"
    using noon_decision [of ?jobs] by auto
  obtain d' where d': "makeDecision toy_env (nine_with None []) ?jobs' noon False = Return d' None"
    using noon_decision [of ?jobs'] by auto
  have "status_blind (opJobs toy_env)"
    by (simp add: status_blind_def plain_env_def same_but_status_fields)
  moreover have "distinct (map jobName ?jobs)" using JobName_neq by (simp add: bare_job_name)
  ultimately show ?thesis using decision_order_independent [OF d d'] d d' by simp
qed

theorem decision_tenth_run_witness:
  "\<exists>d. makeDecision toy_env (nine_with None []) [run_job 9 None True, run_job 10 None False] noon False = Return d None
     \<and> jobs_at d (dDelete d) = [run_job 10 None False]"
proof -
  let ?jobs = "[run_job 9 None True, run_job 10 None False]"
  obtain d st where d: "makeDecision toy_env (nine_with None []) ?jobs noon False = Return d None"
    "buildState toy_env (cj (nine_with None [])) ?jobs noon = Ok st" "noon_state None [] st" "\<not> rsIsSuspended st"
    using noon_decision [of ?jobs] by auto
  have "shouldRun st" "rsDesiredHash st = []" using d(3) by (simp_all add: noon_state_def)
  then show ?thesis
    using decision_tenth_run [OF d(1,2,4), of "''cj''" nine_oclock 9] d(1) run_job_current [OF d(3)] by simp
qed

section \<open>A run on the mock\<close>

theorem mock_observes_run_witness:
  "\<exists>r calls s'. Reconcile (calls_env (toy_run (cj (nine_with None [])) [bare_job])
      (mock_interface (toy_client (cj (nine_with None [])) [bare_job]))) (''ns'', ''cj'') noon (no_calls, 0) = Finished r (calls, s')
    \<and> length (UpdateStatusCalls (calls, s')) = 1"
proof -
  obtain d where d: "makeDecision toy_env (nine_with None []) [bare_job] noon False = Return d None"
    using nine_succeeds [of "[bare_job]"] by auto
  let ?env = "toy_run (cj (nine_with None [])) [bare_job]"
  have "plays (mock_of (reClient ?env)) (mock_interface (toy_client (cj (nine_with None [])) [bare_job]))"
    by (simp add: mock_interface_plays)
  from mock_observes_run [OF this, of "(''ns'', ''cj'')" 0 "cj (nine_with None [])" "[bare_job]" 0 noon d] d
  show ?thesis by (simp add: nine_with_eta) blast
qed

section \<open>The types of a status\<close>

text \<open>From an empty condition list, the first run reports all of its types.\<close>

theorem run_writes_typed_witness:
  "\<exists>r s' tr c'. Reconcile (traced_env (toy_run (cj (nine_with None [])) [bare_job])) (''ns'', ''cj'') noon (0, []) = Finished r (s', tr)
    \<and> status_writes tr = [c'] \<and> schema_ok c' \<and> ConditionTypeOutOfDate \<in> reported c'"
proof -
  let ?env = "toy_run (cj (nine_with None [])) [bare_job]" and ?target = "(''ns'', ''cj'')"
  obtain d where d: "makeDecision toy_env (nine_with None []) [bare_job] noon False = Return d None"
    using nine_succeeds [of "[bare_job]"] by auto
  then have m: "makeDecision (reOp ?env) \<lparr>cj = cj (nine_with None []), ticks = 0\<rparr> [bare_job] noon (reEnableAutoRecreate ?env) = Return d None"
    by (simp add: nine_with_eta)
  obtain r s' tr where run: "Reconcile (traced_env ?env) ?target noon (0, []) = Finished r (s', tr)"
    using reconcile_calls_lemma [of ?env ?target 0 _ _ 0 noon d] m toy_run_fields toy_load by metis
  have "schema_ok (cj (nine_with None []))" by (simp add: schema_ok_def nine_with_def nine_cj_def blank_cj_def blank_status_def)
  moreover have "\<forall>n. \<not> time_is_zero (opClock (reOp ?env) n)" by (simp add: time_is_zero_def noon_def utc_at_def zero_time_def)
  ultimately obtain c' where "status_writes tr = [c']" "schema_ok c'" "set decision_types \<subseteq> reported c'"
    using run_writes_typed [of ?env ?target 0 "cj (nine_with None [])" "[bare_job]" 0 noon r s' tr] m run
    by (metis Un_subset_iff insertI1 nine_with_fields(1) option.distinct(1) toy_load toy_run_fields(2))
  then show ?thesis using run by (auto simp: decision_types_def)
qed

end
