(* ===== verification/LaggingList.thy ===== *)
theory LaggingList
  imports ConvergenceInstance
begin

text \<open>
  What a run does when the cache does not show a job yet. \<^verbatim>\<open>main.go\<close> gives the adapter the client of
  the manager, which reads from a cache; \<open>at_most_one_runs\<close> and \<open>operator_at_most_one\<close> ask that it has
  caught up with the jobs that may run (\<open>lists_runners\<close>). Here it has not: the API in memory has all laws
  of \<open>api_store\<close>, but lists no jobs. A job of the same start time
  and run id is not made twice, since its name is taken; but beside a job with another name, made
  before the schedule was edited, a second one is started.
\<close>

definition lagging_api :: "unit controlled_job \<Rightarrow> (unit, unit job list) api_client" where
  "lagging_api c = (memory_api c)\<lparr>apiListByOwner := (\<lambda>_ jobs. (([], None), jobs))\<rparr>"

definition lagging_run :: "unit controlled_job \<Rightarrow> (unit, unit job list) rec_env" where
  "lagging_run c = (memory_run c)\<lparr>reClient := NewFromClient (lagging_api c)\<rparr>"

interpretation lagging: api_store "lagging_api c" "\<lambda>_ _ _ _ s. s" target "\<lambda>s. s" for c target
proof unfold_locales
  fix job :: "unit job" and s
  show "snd (apiUpdateJob (lagging_api c) job s) = s
      \<or> (\<exists>a < length s. (s ! a)\<lparr>jobSpec := jobSpec job\<rparr> = job \<and> snd (apiUpdateJob (lagging_api c) job s) = s[a := job])"
    using memory.api_update [of c job s] by (simp add: lagging_api_def)
qed (auto simp: lagging_api_def memory_api_def)

lemma lagging_load: "loadFromCluster (NewFromClient (lagging_api c)) target jobs = ((Some (c, []), None), jobs)"
  by (simp add: loadFromCluster_def NewFromClient_def adapterGetControlledJob_def adapterListJobs_def
      IgnoreNotFound_def memory_api_def lagging_api_def)

text \<open>The decision on no jobs: the job of nine o'clock is created, and may run.\<close>

lemma nothing_listed:
  "\<exists>d job. makeDecision toy_env (nine_with None []) [] noon False = Return d None
     \<and> jobs_at d (dDelete d) = [] \<and> jobs_at d (dUnsuspend d) = [] \<and> dSuspend d = []
     \<and> jobs_at d (dCreate d) = [job] \<and> jobName job = JobName ''cj'' nine_oclock 0 \<and> may_run job"
proof -
  let ?c = "cj (nine_with None [])"
  obtain d where d: "makeDecision toy_env (nine_with None []) [] noon False = Return d None"
    using nine_succeeds [of "[]"] by auto
  obtain st where st: "buildState toy_env ?c [] noon = Ok st" "period_view st = noon_period"
    using noon_same_period by (force simp: same_period_def same_object_def)
  then have run: "\<not> rsIsSuspended st" "shouldRun st" "rsStartOfCurrentRunPeriod st = Some nine_oclock"
    by (cases st; simp add: period_view_def noon_period_def shouldRun_def)+
  have "chosenJob st ([] :: unit job list) = None"
    using bestCurrent_None [of st "[] :: unit job list"] by (simp add: chosenJob_None currentChoice_def)
  then have "job_request st (False \<and> rsAutoRestartIsEnabled st) ([] :: unit job list) = Some (nine_oclock, 0, False)"
    by (simp add: job_request_def run)
  then obtain c' job where job: "same_but_status ?c c'" "buildJob (opJobs toy_env) c' nine_oclock 0 False True = Ok job"
    "jobs_at d (dCreate d) = [as_created [] job]"
    using decision_creates [OF d st(1) run(1)] by auto
  have env: "only_owner_references (opJobs toy_env)" "benign_mutators (opJobs toy_env)"
    using plain_env_ok by simp_all
  note view = view_readers [OF buildJob_view [OF env job(2)]] and new = newJobFor_readers
  have "jtAnnotations (csJobTemplate (cjSpec c')) SuspendReason = None"
    using job(1) by (cases c') (simp add: same_but_status_def)
  then have "can_unsuspend job"
    using built_not_stopped [OF env job(2)] by (simp add: can_unsuspend_def view new)
  moreover have "IsJobCompleted (clear_suspend job) = IsJobCompleted job"
    by (simp add: clear_suspend_def IsJobCompleted_def JobHasCondition_def GetJobCondition_def)
  ultimately have created: "jobName (as_created [] job) = JobName (cjName c') nine_oclock 0" "may_run (as_created [] job)"
    by (simp_all add: view new as_created_def may_run_def) (simp_all add: clear_suspend_def IsJobSuspended_def view new)
  moreover have "cjName c' = ''cj''" using job(1) by (simp add: same_but_status_def nine_with_def nine_cj_def blank_cj_def)
  moreover have "filter_mset P {#} = {#}" for P :: "unit job \<Rightarrow> bool" by simp
  then have "jobs_at d (dDelete d) = []" using decision_deletions [OF d st(1) run(1)] by simp
  moreover have "jobs_at d (dUnsuspend d) = []"
    using decision_unsuspends [OF d st(1) run(1)] by (simp add: to_unsuspend_def split: option.splits)
  moreover have "dSuspend d = []" using decision_cases [OF d st(1) run(1)] by metis
  ultimately show ?thesis using d job(3) by auto
qed

lemma lagging_fields [simp]:
  "reOp (lagging_run c) = toy_env" "reClient (lagging_run c) = NewFromClient (lagging_api c)"
  "reRecorder (lagging_run c) = (\<lambda>_ _ _ _ s. s)" "reEnableAutoRecreate (lagging_run c) = False"
  by (simp_all add: lagging_run_def memory_run_def)

lemma lagging_calls:
  "CreateJob (NewFromClient (lagging_api c)) job jobs
     = (if jobName job \<in> jobName ` set jobs then (Some (GoErr ''already exists''), jobs) else (None, jobs @ [job]))"
  "UpdateStatus (NewFromClient (lagging_api c)) c' jobs = (None, jobs)"
  by (simp_all add: NewFromClient_def adapterCreateJob_def adapterUpdateStatus_def lagging_api_def memory_api_def)

lemma lagging_deferred [simp]: "snd (deferredCalls (lagging_run c) err ws) = snd ws"
  by (cases ws) (simp add: deferredCalls_def recordFailedReconcile_def writeStatus_def lagging_calls recordNow_def
      RecordEvent_def Let_def recordWarningEvent_def recordNormalEvent_def recordEvent_def split: option.split)

lemma lagging_create:
  "\<exists>w'. createJobs (lagging_run c) [job] (w, s)
     = (if jobName job \<in> jobName ` set s
        then (Some (WrapError (GoErr ''already exists'') FailedToCreateJob
               (''failed to create job '' @ jobName job @ '' in namespace '' @ jobNamespace job)), w', s)
        else (None, w', s @ [job]))"
  by (simp add: createJobs_def actOnJob_def lagging_calls Let_def recordNow_def RecordEvent_def recordWarningEvent_def
      recordNormalEvent_def recordEvent_def)

text \<open>
  The run at noon of which the list is empty, over any stored jobs: it fails if the job of the
  period exists, and creates it otherwise.
\<close>

lemma lagging_reconcile:
  "\<exists>job r. jobName job = JobName ''cj'' nine_oclock 0 \<and> may_run job
     \<and> Reconcile (lagging_run (cj (nine_with None []))) target noon s
       = Finished r (if jobName job \<in> jobName ` set s then s else s @ [job])
     \<and> (rrError r = None \<longleftrightarrow> jobName job \<notin> jobName ` set s)"
proof -
  let ?env = "lagging_run (cj (nine_with None []))"
  obtain d job where d: "makeDecision toy_env (nine_with None []) [] noon False = Return d None"
    "jobs_at d (dDelete d) = []" "jobs_at d (dUnsuspend d) = []" "dSuspend d = []" "jobs_at d (dCreate d) = [job]"
    and job: "jobName job = JobName ''cj'' nine_oclock 0" "may_run job"
    using nothing_listed by blast
  obtain w' where create: "createJobs ?env [job] (dW d, s)
     = (if jobName job \<in> jobName ` set s
        then (Some (WrapError (GoErr ''already exists'') FailedToCreateJob
               (''failed to create job '' @ jobName job @ '' in namespace '' @ jobNamespace job)), w', s)
        else (None, w', s @ [job]))"
    using lagging_create by blast
  have "jobs_at d (dSuspend d) = []" by (simp add: d(4) jobs_at_def)
  then have carried: "applyDecision ?env d s = createJobs ?env [job] (dW d, s)"
    by (simp add: applyDecision_def d deleteJobs_def suspendJobs_def unsuspendJobs_def orElse_def create)
  obtain r where "Reconcile ?env target noon s = Finished r (if jobName job \<in> jobName ` set s then s else s @ [job])"
    "rrError r = None \<longleftrightarrow> jobName job \<notin> jobName ` set s"
    by (cases "jobName job \<in> jobName ` set s")
      (auto simp: Reconcile_def lagging_load nine_with_eta d(1) carried create TransientErrorResult_def)
  then show ?thesis using job by (intro exI [of _ job] exI [of _ r] conjI)
qed

text \<open>With the same name the job is not made twice.\<close>

lemma lagging_list_same_job:
  assumes "JobName ''cj'' nine_oclock 0 \<in> jobName ` set s"
  shows "\<exists>r. Reconcile (lagging_run (cj (nine_with None []))) target noon s = Finished r s \<and> rrError r \<noteq> None"
  using lagging_reconcile [of target s] assms by auto

text \<open>
  A job that runs under another name and is not yet listed gets company: of the hypotheses of
  \<open>operator_at_most_one\<close>, only that the list shows it does not hold.
\<close>

lemma lagging_list_two_run:
  assumes "may_run other" "jobName other \<noteq> JobName ''cj'' nine_oclock 0"
  shows "\<exists>r jobs. Reconcile (lagging_run (cj (nine_with None []))) target noon [other] = Finished r jobs
    \<and> rrError r = None \<and> runners [other] = 1 \<and> runners jobs = 2
    \<and> \<not> lists_runners (lagging_run (cj (nine_with None []))) target (\<lambda>s. s) [other]"
proof -
  obtain job r where "may_run job" "rrError r = None"
    "Reconcile (lagging_run (cj (nine_with None []))) target noon [other] = Finished r [other, job]"
    using lagging_reconcile [of target "[other]"] assms(2) by auto
  moreover have "\<not> lists_runners (lagging_run (cj (nine_with None []))) target (\<lambda>s. s) [other]"
    using assms(1) by (simp add: lists_runners_def lagging_load runners_def)
  ultimately show ?thesis using assms(1) by (auto simp: runners_def)
qed

end
