(* ===== verification/FleetInstance.thy ===== *)
theory FleetInstance
  imports Fleet LaggingList
begin

text \<open>
  Two ControlledJobs of one namespace at noon: the job of one runs, and the run of the other starts
  its own.
\<close>

definition neighbour_job :: "unit job" where
  "neighbour_job = (newJobFor plain_env (blank_cj\<lparr>cjName := ''other''\<rparr>) nine_oclock 0 False False)\<lparr>jobOwnerReferences :=
     [\<lparr>orAPIVersion = ApiGVStr, orKind = ''ControlledJob'', orName = ''other'', orUID = ''uid2'',
       orController = Some True, orBlockOwnerDeletion = Some True\<rparr>]\<rparr>"

lemma neighbour_job: "owned_by (''ns'', ''other'') neighbour_job" "may_run neighbour_job"
  by (simp_all add: neighbour_job_def owned_by_def jobOwnerIndex_def GetControllerOf_def newJobFor_def Let_def blank_cj_def
      may_run_def IsJobSuspended_def IsJobCompleted_def JobHasCondition_def GetJobCondition_def)

lemma plain_owners: "owners_documented (opJobs toy_env)"
  using plain_env_ok
  by (simp add: owners_documented_def sets_controller_def mutators_keep_owner_def plain_env_def jobOwnerIndex_def GetControllerOf_def)

abbreviation carried_out :: "'p client_call \<Rightarrow> 'p job list \<Rightarrow> 'p job list \<Rightarrow> bool" where
  "carried_out call jobs jobs' \<equiv> jobs' = carry_out call jobs"

lemma carried_out_documented: "store_documented carried_out"
  using carry_out_documented by (auto simp: store_documented_def may_change_def carry_out_def)

lemma fleet_starts:
  "\<exists>job. may_run job \<and> owned_by (''ns'', ''cj'') job
     \<and> fleet_reachable toy_env carried_out ([neighbour_job], \<lambda>_. []) ([neighbour_job, job], \<lambda>_. [])"
proof -
  let ?t = "(''ns'', ''cj'')" and ?none = "\<lambda>_ :: namespaced_name. [] :: unit client_call list"
  obtain d job where d: "makeDecision toy_env (nine_with None []) [] noon False = Return d None"
    "jobs_at d (dDelete d) = []" "jobs_at d (dUnsuspend d) = []" "dSuspend d = []" "jobs_at d (dCreate d) = [job]"
    and job: "may_run job"
    using nothing_listed by blast
  have name: "object_name (cj (nine_with None [])) = ?t"
    by (simp add: object_name_def nine_with_def nine_cj_def blank_cj_def)
  have plan: "planned d = [CallCreate job]" by (simp add: planned_def d) (simp add: jobs_at_def)
  have "owned ?t [neighbour_job] = []" using owned_unique [OF neighbour_job(1), of ?t] by simp
  then have decide: "fleet_step toy_env carried_out ([neighbour_job], ?none) ([neighbour_job], ?none(?t := planned d))"
    using fleet_step.decide [where pending = ?none and listed = "[]", OF name refl _ _ d(1)] by (simp add: runners_def)
  have call: "fleet_step toy_env carried_out ([neighbour_job], ?none(?t := planned d)) ([neighbour_job, job], ?none(?t := planned d, ?t := []))"
    using fleet_step.call [of "?none(?t := planned d)" ?t "CallCreate job" "[]" carried_out "[neighbour_job]" "[neighbour_job, job]" toy_env]
    by (simp add: plan carry_out_def)
  have "fleet_reachable toy_env carried_out ([neighbour_job], ?none) ([neighbour_job, job], ?none(?t := planned d, ?t := []))"
    by (rule fleet_reachable.step [OF fleet_reachable.step [OF fleet_reachable.start decide] call])
  moreover have "?none(?t := planned d, ?t := []) = ?none" by auto
  ultimately have "fleet_reachable toy_env carried_out ([neighbour_job], ?none) ([neighbour_job, job], ?none)" by simp
  moreover have "concerns ?t (CallCreate job)"
    using planned_concerns [OF d(1), unfolded name] plain_owners by (simp add: owners_documented_def plan)
  ultimately show ?thesis using job by auto
qed

lemma neighbours_apart: "\<forall>t. runners (owned t [neighbour_job]) \<le> 1"
  by (simp add: runners_def)

theorem fleet_at_most_one_witness:
  "\<exists>jobs pending. fleet_reachable toy_env carried_out ([neighbour_job], \<lambda>_. []) (jobs, pending)
     \<and> runners jobs = 2 \<and> runners (owned (''ns'', ''cj'') jobs) \<le> 1 \<and> runners (owned (''ns'', ''other'') jobs) \<le> 1"
proof -
  obtain job where job: "may_run job"
    "fleet_reachable toy_env carried_out ([neighbour_job], \<lambda>_. []) ([neighbour_job, job], \<lambda>_. [])"
    using fleet_starts by blast
  have "runners [neighbour_job, job] = 2" using job(1) neighbour_job(2) by (simp add: runners_def)
  then show ?thesis
    using fleet_at_most_one [OF job(2) neighbours_apart carried_out_documented plain_owners] job(2) by blast
qed

theorem fleet_refines_witness:
  "\<exists>job. fleet_reachable toy_env carried_out ([neighbour_job], \<lambda>_. []) ([neighbour_job, job], \<lambda>_. [])
     \<and> reachable toy_env may_change ([], []) ([job], []) \<and> reachable toy_env may_change ([neighbour_job], []) ([neighbour_job], [])"
proof -
  obtain job where job: "owned_by (''ns'', ''cj'') job"
    "fleet_reachable toy_env carried_out ([neighbour_job], \<lambda>_. []) ([neighbour_job, job], \<lambda>_. [])"
    using fleet_starts by blast
  note view = fleet_refines [OF job(2) carried_out_documented plain_owners]
  have "\<not> owned_by (''ns'', ''cj'') neighbour_job" "\<not> owned_by (''ns'', ''other'') job"
    using owned_unique [OF neighbour_job(1)] owned_unique [OF job(1)] by simp_all
  then show ?thesis
    using view [of "(''ns'', ''cj'')"] view [of "(''ns'', ''other'')"] job neighbour_job(1) by (auto simp: view_of_def owned_def)
qed

section \<open>An API server for a fleet\<close>

text \<open>In memory: it serves a list of ControlledJobs and stores the jobs of all, one per namespace and name.\<close>

definition same_key :: "'p job \<Rightarrow> 'p job \<Rightarrow> bool" where
  "same_key j k \<longleftrightarrow> jobNamespace j = jobNamespace k \<and> jobName j = jobName k"

definition fleet_api :: "unit controlled_job list \<Rightarrow> (unit, unit job list) api_client" where
  "fleet_api cs =
     \<lparr>apiGet = (\<lambda>t jobs. ((case find (\<lambda>c. object_name c = t) cs of Some c \<Rightarrow> (c, None) | None \<Rightarrow> (blank_cj, Some (GoErr ''not found''))), jobs)),
      apiUpdateObject = (\<lambda>_ jobs. (None, jobs)), apiUpdateStatus = (\<lambda>_ jobs. (None, jobs)),
      apiListByOwner = (\<lambda>t jobs. ((owned t jobs, None), jobs)),
      apiCreate = (\<lambda>job jobs. if list_ex (same_key job) jobs then (Some (GoErr ''already exists''), jobs) else (None, jobs @ [job])),
      apiUpdateJob = (\<lambda>job jobs. (None, update_first (\<lambda>j. j\<lparr>jobSpec := jobSpec job\<rparr> = job) (\<lambda>_. job) jobs)),
      apiDelete = (\<lambda>job _ jobs. (None, filter (\<lambda>j. \<not> same_key job j) jobs)),
      apiIsNotFound = (\<lambda>e. e = GoErr ''not found'')\<rparr>"

lemma fleet_api_changes: "client_effect (NewFromClient (fleet_api cs)) (\<lambda>s. s) call jobs jobs' \<Longrightarrow> may_change call jobs jobs'"
proof -
  assume "client_effect (NewFromClient (fleet_api cs)) (\<lambda>s. s) call jobs jobs'"
  then have jobs': "jobs' = snd (perform (NewFromClient (fleet_api cs)) call jobs)" by (simp add: client_effect_def)
  have update: "may_change (tag job) jobs (update_first (\<lambda>j. j\<lparr>jobSpec := jobSpec (set_suspend b job)\<rparr> = set_suspend b job) (\<lambda>_. set_suspend b job) jobs)"
    if "\<And>xs ys. documented_change (tag job) xs ys \<longleftrightarrow> (\<exists>a < length xs. (xs ! a)\<lparr>jobSpec := jobSpec job\<rparr> = job \<and> ys = xs[a := set_suspend b job])"
    for tag :: "unit job \<Rightarrow> unit client_call" and b job
    using update_first_list_update [of "\<lambda>j. j\<lparr>jobSpec := jobSpec (set_suspend b job)\<rparr> = set_suspend b job" "\<lambda>_. set_suspend b job" jobs]
      memory.sent_suspend [where b = b and job = job] that by (auto simp: may_change_def)
  show ?thesis
  proof (cases call)
    case (CallSuspend job)
    then show ?thesis using update [where tag = CallSuspend and b = True and job = job] by (simp add: jobs' NewFromClient_def adapterSuspendJob_def fleet_api_def)
  next
    case (CallUnsuspend job)
    then show ?thesis using update [where tag = CallUnsuspend and b = False and job = job] by (simp add: jobs' NewFromClient_def adapterUnsuspendJob_def fleet_api_def)
  qed (auto simp: jobs' may_change_def NewFromClient_def adapterUpdateStatus_def adapterCreateJob_def adapterDeleteJob_def fleet_api_def)
qed

lemma fleet_api_creates:
  "client_effect (NewFromClient (fleet_api cs)) (\<lambda>s. s) (CallCreate job) jobs (jobs @ [job']) \<Longrightarrow> job' = job"
  by (auto simp: client_effect_def NewFromClient_def adapterCreateJob_def fleet_api_def split: if_splits)

interpretation in_fleet: fleet_client "NewFromClient (fleet_api cs)" "\<lambda>_ _ _ _ s. s" "\<lambda>s. s" for cs
proof unfold_locales
  fix t s c err jobs
  show "fst (GetControlledJob (NewFromClient (fleet_api cs)) t s) = (Some c, True, err) \<Longrightarrow> object_name c = t"
    by (auto simp: NewFromClient_def adapterGetControlledJob_def fleet_api_def find_Some_iff split: option.splits)
  show "fst (ListJobsForControlledJob (NewFromClient (fleet_api cs)) t s) = (jobs, None) \<Longrightarrow>
      \<forall>job \<in> set jobs. owned_by t job"
    by (auto simp: NewFromClient_def adapterListJobs_def fleet_api_def owned_def)
  show "store_documented (client_effect (NewFromClient (fleet_api cs)) (\<lambda>s. s))"
    using fleet_api_changes fleet_api_creates unfolding store_documented_def by metis
qed (auto simp: NewFromClient_def adapterGetControlledJob_def adapterListJobs_def adapterUpdateStatus_def fleet_api_def split: option.splits)

definition fleet_run :: "(unit, unit job list) rec_env" where
  "fleet_run = \<lparr>reOp = toy_env, reClient = NewFromClient (fleet_api [cj (nine_with None [])]), reRecorder = (\<lambda>_ _ _ _ s. s),
     reEnableAutoRecreate = False\<rparr>"

text \<open>At noon, beside a job of another ControlledJob: one job is created, and the other one stays alone.\<close>

theorem reconcile_in_fleet_witness:
  "\<exists>r jobs job calls. Reconcile (traced_env fleet_run) (''ns'', ''cj'') noon ([neighbour_job], [])
       = Finished r (jobs, CallCreate job # calls)
     \<and> owned_by (''ns'', ''cj'') job \<and> runners (owned (''ns'', ''other'') jobs) \<le> 1"
proof -
  let ?t = "(''ns'', ''cj'')" and ?c = "cj (nine_with None [])"
  have name: "object_name ?c = ?t" by (simp add: object_name_def nine_with_def nine_cj_def blank_cj_def)
  have "owned ?t [neighbour_job] = []" using owned_unique [OF neighbour_job(1)] by simp
  then have load: "loadFromCluster (reClient fleet_run) ?t [neighbour_job] = ((Some (?c, []), None), [neighbour_job])"
    by (simp add: fleet_run_def loadFromCluster_def NewFromClient_def adapterGetControlledJob_def adapterListJobs_def
        IgnoreNotFound_def fleet_api_def name)
  obtain d job where d: "makeDecision toy_env (nine_with None []) [] noon False = Return d None"
    "jobs_at d (dDelete d) = []" "jobs_at d (dUnsuspend d) = []" "dSuspend d = []" "jobs_at d (dCreate d) = [job]"
    using nothing_listed by blast
  have plan: "planned d = [CallCreate job]" by (simp add: planned_def d) (simp add: jobs_at_def)
  have decision: "makeDecision (reOp fleet_run) \<lparr>cj = ?c, ticks = 0\<rparr> [] noon (reEnableAutoRecreate fleet_run) = Return d None"
    using d(1) by (simp add: fleet_run_def nine_with_eta)
  obtain r jobs tr where run: "Reconcile (traced_env fleet_run) ?t noon ([neighbour_job], []) = Finished r (jobs, tr)"
    using reconcile_calls_lemma [OF load decision] by blast
  have here: "run_decides fleet_run ?t noon [neighbour_job] ?c [] d"
    using load decision by (simp add: run_decides_def)
  have client: "fleet_client (reClient fleet_run) (reRecorder fleet_run) (\<lambda>s. s)"
    using in_fleet.fleet_client_axioms by (simp add: fleet_run_def)
  have owners: "owners_documented (opJobs (reOp fleet_run))" using plain_owners by (simp add: fleet_run_def)
  obtain n c' where n: "\<forall>call \<in> set (planned d). concerns ?t call" "rrError r = None \<longrightarrow> n = length (planned d)"
    "tr = take n (planned d) @ [CallUpdateStatus c']"
    "carries_out (reClient fleet_run) (\<lambda>s. s) [neighbour_job] (take n (planned d)) (rrError r = None) jobs"
    "\<forall>t'. t' \<noteq> ?t \<longrightarrow> runners (owned t' jobs) \<le> runners (owned t' [neighbour_job])"
    using reconcile_in_fleet [OF client owners disjI1 [OF run]]
  proof (elim disjE exE conjE)
    assume "\<nexists>c jobs d. run_decides fleet_run ?t noon [neighbour_job] c jobs d"
    then show thesis using here by blast
  next
    fix c listed d' n c'
    assume run': "run_decides fleet_run ?t noon [neighbour_job] c listed d'"
      and rest: "\<forall>call \<in> set (planned d'). concerns ?t call" "rrError r = None \<longrightarrow> n = length (planned d')"
        "tr = take n (planned d') @ [CallUpdateStatus c']"
        "carries_out (reClient fleet_run) (\<lambda>s. s) [neighbour_job] (take n (planned d')) (rrError r = None) jobs"
        "\<forall>t'. t' \<noteq> ?t \<longrightarrow> runners (owned t' jobs) \<le> runners (owned t' [neighbour_job])"
    have "d' = d" using run_decides_unique [OF here run'] by simp
    show thesis by (rule that [OF rest [unfolded \<open>d' = d\<close>]])
  qed
  have "n \<noteq> 0"
  proof
    assume "n = 0"
    then show False using carries_out_nothing [of _ _ _ "rrError r = None" jobs] n(2,4) plan by force
  qed
  then have "tr = [CallCreate job, CallUpdateStatus c']" using n(3) plan by (cases n) simp_all
  moreover have "owned_by ?t job" using n(1) plan by simp
  moreover have "runners (owned (''ns'', ''other'') jobs) \<le> 1"
    using spec [OF n(5), of "(''ns'', ''other'')"] spec [OF neighbours_apart, of "(''ns'', ''other'')"] by simp
  ultimately show ?thesis using run by blast
qed

end
