(* ===== verification/Heap.thy ===== *)
theory Heap
  imports Main
begin

text \<open>
  A store for claims about sharing. A Go object is a cell of the heap; pointers are addresses or
  nil, slices are an array cell with an offset and a length, or nil. \<open>copier\<close> is the contract of
  a deep copy: the copy has the value of the original, the heap keeps what it held, and the copy
  reaches new cells only. It is closed under the ways Go types are built.
\<close>

section \<open>The store\<close>

record 'c heap =
  hpCells :: "nat \<Rightarrow> 'c option"
  hpNext :: nat

definition heap_ok :: "'c heap \<Rightarrow> bool" where
  "heap_ok h \<longleftrightarrow> (\<forall>a \<ge> hpNext h. hpCells h a = None)"

definition extends :: "'c heap \<Rightarrow> 'c heap \<Rightarrow> bool" where
  "extends h h' \<longleftrightarrow> hpNext h \<le> hpNext h' \<and> (\<forall>a < hpNext h. hpCells h' a = hpCells h a)"

definition alloc :: "'c \<Rightarrow> 'c heap \<Rightarrow> nat \<times> 'c heap" where
  "alloc c h = (hpNext h, h\<lparr>hpCells := (hpCells h)(hpNext h \<mapsto> c), hpNext := hpNext h + 1\<rparr>)"

definition put_cell :: "nat \<Rightarrow> 'c \<Rightarrow> 'c heap \<Rightarrow> 'c heap" where
  "put_cell a c h = h\<lparr>hpCells := (hpCells h)(a \<mapsto> c)\<rparr>"

lemma extends_refl [simp]: "extends h h"
  by (simp add: extends_def)

lemma extends_trans: "extends h h1 \<Longrightarrow> extends h1 h2 \<Longrightarrow> extends h h2"
  by (simp add: extends_def)

lemma alloc_ok: "alloc c h = (a, h') \<Longrightarrow> heap_ok h \<Longrightarrow>
    heap_ok h' \<and> extends h h' \<and> a = hpNext h \<and> hpNext h' = Suc a \<and> hpCells h' a = Some c"
  by (auto simp: alloc_def heap_ok_def extends_def)

lemma put_cell_fields [simp]:
  "hpNext (put_cell a c h) = hpNext h" "hpCells (put_cell a c h) = (hpCells h)(a \<mapsto> c)"
  "a < hpNext h \<Longrightarrow> heap_ok (put_cell a c h) = heap_ok h"
  by (auto simp: put_cell_def heap_ok_def)

section \<open>Deep copies\<close>

text \<open>
  \<open>val h x\<close> is the value of \<open>x\<close> in a heap (none if a pointer dangles), which depends on the cells
  \<open>x\<close> reaches only.
\<close>

locale copier =
  fixes copy :: "'a \<Rightarrow> 'c heap \<Rightarrow> 'a \<times> 'c heap" and val :: "'c heap \<Rightarrow> 'a \<Rightarrow> 'v option"
    and reach :: "'c heap \<Rightarrow> 'a \<Rightarrow> nat set"
  assumes reach_cells: "val h x = Some v \<Longrightarrow> reach h x \<subseteq> dom (hpCells h)"
    and local: "val h x = Some v \<Longrightarrow> \<forall>a \<in> reach h x. hpCells h' a = hpCells h a \<Longrightarrow>
      val h' x = Some v \<and> reach h' x = reach h x"
    and copies: "heap_ok h \<Longrightarrow> val h x = Some v \<Longrightarrow> copy x h = (y, h') \<Longrightarrow>
      heap_ok h' \<and> extends h h' \<and> val h' y = Some v \<and> reach h' y \<subseteq> {hpNext h..<hpNext h'}"
begin

lemma reach_bound: "heap_ok h \<Longrightarrow> val h x = Some v \<Longrightarrow> a \<in> reach h x \<Longrightarrow> a < hpNext h"
  using reach_cells [of h x v] by (fastforce simp: heap_ok_def simp flip: not_le)

lemma kept: "heap_ok h \<Longrightarrow> val h x = Some v \<Longrightarrow> extends h h' \<Longrightarrow> val h' x = Some v \<and> reach h' x = reach h x"
  using local [of h x v h'] reach_bound [of h x v] by (simp add: extends_def)

text \<open>Whatever is then written to cells of the copy leaves the original alone, and the other way round.\<close>

lemma independent:
  assumes "heap_ok h" "val h x = Some v" "copy x h = (y, h')"
  shows "a \<in> reach h' y \<Longrightarrow> val (put_cell a c h') x = Some v" "a \<in> reach h' x \<Longrightarrow> val (put_cell a c h') y = Some v"
proof -
  note c = copies [OF assms]
  have x: "val h' x = Some v" "reach h' x = reach h x" using kept [OF assms(1,2)] c by blast+
  have sep: "a < hpNext h" if "a \<in> reach h x" for a using reach_bound [OF assms(1,2) that] .
  show "val (put_cell a c h') x = Some v" if "a \<in> reach h' y"
    using that local [OF x(1), of "put_cell a c h'"] c sep by (fastforce simp: x(2))
  show "val (put_cell a c h') y = Some v" if "a \<in> reach h' x"
    using that local [of h' y v "put_cell a c h'"] c sep by (fastforce simp: x(2))
qed

end

section \<open>Copiers of built types\<close>

text \<open>A type without pointers is copied by assignment.\<close>

definition assign :: "'a \<Rightarrow> 'c heap \<Rightarrow> 'a \<times> 'c heap" where
  "assign x h = (x, h)"

lemma copier_assign: "copier assign (\<lambda>_. Some) (\<lambda>_ _. {})"
  by unfold_locales (auto simp: assign_def)

text \<open>Two parts, one after the other.\<close>

definition copy_both where
  "copy_both copyA copyB = (\<lambda>(a, b) h. let (a', h1) = copyA a h; (b', h2) = copyB b h1 in ((a', b'), h2))"

definition val_both where
  "val_both valA valB = (\<lambda>h (a, b). case valA h a of None \<Rightarrow> None | Some v \<Rightarrow> map_option (Pair v) (valB h b))"

definition reach_both :: "('h \<Rightarrow> 'a \<Rightarrow> nat set) \<Rightarrow> ('h \<Rightarrow> 'b \<Rightarrow> nat set) \<Rightarrow> 'h \<Rightarrow> 'a \<times> 'b \<Rightarrow> nat set" where
  "reach_both reachA reachB = (\<lambda>h (a, b). reachA h a \<union> reachB h b)"

lemma val_both_Some: "val_both valA valB h (a, b) = Some v \<longleftrightarrow> valA h a = Some (fst v) \<and> valB h b = Some (snd v)"
  by (cases v) (auto simp: val_both_def split: option.splits)

lemma copier_both:
  fixes copyA :: "'a \<Rightarrow> 'c heap \<Rightarrow> 'a \<times> 'c heap"
  assumes "copier copyA valA reachA" "copier copyB valB reachB"
  shows "copier (copy_both copyA copyB) (val_both valA valB) (reach_both reachA reachB)"
proof -
  note A = assms(1) and B = assms(2)
  show ?thesis
  proof
    fix h :: "'c heap" and x v
    assume "val_both valA valB h x = Some v"
    then show "reach_both reachA reachB h x \<subseteq> dom (hpCells h)"
      using copier.reach_cells [OF A] copier.reach_cells [OF B] by (cases x) (auto simp: val_both_Some reach_both_def)
  next
    fix h h' :: "'c heap" and x v
    assume v: "val_both valA valB h x = Some v" and same: "\<forall>a \<in> reach_both reachA reachB h x. hpCells h' a = hpCells h a"
    then show "val_both valA valB h' x = Some v \<and> reach_both reachA reachB h' x = reach_both reachA reachB h x"
      using copier.local [OF A, of h "fst x" _ h'] copier.local [OF B, of h "snd x" _ h']
      by (cases x) (auto simp: val_both_Some reach_both_def)
  next
    fix h h' :: "'c heap" and x v y
    assume h: "heap_ok h" "val_both valA valB h x = Some v" "copy_both copyA copyB x h = (y, h')"
    obtain a b where x: "x = (a, b)" by (cases x)
    obtain a' h1 where a: "copyA a h = (a', h1)" by (cases "copyA a h")
    obtain b' where b: "copyB b h1 = (b', h')" "y = (a', b')" using h(3) by (auto simp: copy_both_def x a split: prod.splits)
    have v: "valA h a = Some (fst v)" "valB h b = Some (snd v)" using h(2) by (simp_all add: x val_both_Some)
    note one = copier.copies [OF A h(1) v(1) a]
    have "valB h1 b = Some (snd v)" using copier.kept [OF B h(1) v(2)] one by blast
    note two = copier.copies [OF B _ this b(1)]
    have "valA h' a' = Some (fst v) \<and> reachA h' a' = reachA h1 a'"
      using copier.kept [OF A, of h1 a' "fst v" h'] one two by blast
    then show "heap_ok h' \<and> extends h h' \<and> val_both valA valB h' y = Some v \<and> reach_both reachA reachB h' y \<subseteq> {hpNext h..<hpNext h'}"
      using one two extends_trans [of h h1 h'] by (fastforce simp: b(2) val_both_Some reach_both_def extends_def)
  qed
qed

text \<open>A struct whose parts are copied as a tuple is.\<close>

lemma copier_struct:
  fixes copy :: "'a \<Rightarrow> 'c heap \<Rightarrow> 'a \<times> 'c heap"
  assumes "copier copy val reach" "\<And>x h. parts (fst (copyS x h)) = fst (copy (parts x) h) \<and> snd (copyS x h) = snd (copy (parts x) h)"
  shows "copier copyS (\<lambda>h x. map_option mk (val h (parts x))) (\<lambda>h x. reach h (parts x))"
proof -
  note C = assms(1)
  show ?thesis
  proof
    fix h :: "'c heap" and x v
    assume "map_option mk (val h (parts x)) = Some v"
    then show "reach h (parts x) \<subseteq> dom (hpCells h)" using copier.reach_cells [OF C] by blast
  next
    fix h h' :: "'c heap" and x v
    assume "map_option mk (val h (parts x)) = Some v" "\<forall>a \<in> reach h (parts x). hpCells h' a = hpCells h a"
    then show "map_option mk (val h' (parts x)) = Some v \<and> reach h' (parts x) = reach h (parts x)"
      using copier.local [OF C, of h "parts x" _ h'] by auto
  next
    fix h h' :: "'c heap" and x v y
    assume h: "heap_ok h" "map_option mk (val h (parts x)) = Some v" "copyS x h = (y, h')"
    then have "copy (parts x) h = (parts y, h')" using assms(2) [of x h] by (metis fst_conv prod.collapse snd_conv)
    then show "heap_ok h' \<and> extends h h' \<and> map_option mk (val h' (parts y)) = Some v \<and> reach h' (parts y) \<subseteq> {hpNext h..<hpNext h'}"
      using h copier.copies [OF C, of h "parts x" _ "parts y" h'] by auto
  qed
qed

section \<open>Pointers and slices\<close>

text \<open>
  \<open>mk\<close> and \<open>dest\<close> say which cells hold values of the type pointed to. A pointer is copied into a
  new object (\<^verbatim>\<open>new(T)\<close>, then its contents), a slice into a new array of its length (\<^verbatim>\<open>make\<close>, then
  one element after the other).
\<close>

definition cell_at :: "('c \<Rightarrow> 'e option) \<Rightarrow> 'c heap \<Rightarrow> nat \<Rightarrow> 'e option" where
  "cell_at dest h a = (case hpCells h a of None \<Rightarrow> None | Some c \<Rightarrow> dest c)"

definition copy_ptr ::
  "('e \<Rightarrow> 'c) \<Rightarrow> ('c \<Rightarrow> 'e option) \<Rightarrow> 'e \<Rightarrow> ('e \<Rightarrow> 'c heap \<Rightarrow> 'e \<times> 'c heap) \<Rightarrow> nat option \<Rightarrow> 'c heap \<Rightarrow> nat option \<times> 'c heap" where
  "copy_ptr mk dest zero copyE p h =
     (case p of
        None \<Rightarrow> (None, h)
      | Some a \<Rightarrow>
          (case cell_at dest h a of
             None \<Rightarrow> (p, h)
           | Some e \<Rightarrow>
               let (b, h1) = alloc (mk zero) h; (e', h2) = copyE e h1
               in (Some b, put_cell b (mk e') h2)))"

definition val_ptr :: "('c \<Rightarrow> 'e option) \<Rightarrow> ('c heap \<Rightarrow> 'e \<Rightarrow> 'v option) \<Rightarrow> 'c heap \<Rightarrow> nat option \<Rightarrow> 'v option option" where
  "val_ptr dest valE h p =
     (case p of
        None \<Rightarrow> Some None
      | Some a \<Rightarrow> (case cell_at dest h a of None \<Rightarrow> None | Some e \<Rightarrow> map_option Some (valE h e)))"

definition reach_ptr :: "('c \<Rightarrow> 'e option) \<Rightarrow> ('c heap \<Rightarrow> 'e \<Rightarrow> nat set) \<Rightarrow> 'c heap \<Rightarrow> nat option \<Rightarrow> nat set" where
  "reach_ptr dest reachE h p =
     (case p of
        None \<Rightarrow> {}
      | Some a \<Rightarrow> insert a (case cell_at dest h a of None \<Rightarrow> {} | Some e \<Rightarrow> reachE h e))"

lemma cell_at_put [simp]: "cell_at dest (put_cell b c h) a = (if a = b then dest c else cell_at dest h a)"
  by (simp add: cell_at_def)

lemma val_ptr_Some:
  "val_ptr dest valE h p = Some v \<longleftrightarrow> (case p of None \<Rightarrow> v = None
     | Some a \<Rightarrow> \<exists>e w. cell_at dest h a = Some e \<and> valE h e = Some w \<and> v = Some w)"
  by (auto simp: val_ptr_def split: option.splits)

lemma copier_ptr:
  fixes copyE :: "'e \<Rightarrow> 'c heap \<Rightarrow> 'e \<times> 'c heap"
  assumes "copier copyE valE reachE" "\<And>e. dest (mk e) = Some e"
  shows "copier (copy_ptr mk dest zero copyE) (val_ptr dest valE) (reach_ptr dest reachE)"
proof -
  note E = assms(1)
  show ?thesis
  proof
    fix h :: "'c heap" and x v
    assume "val_ptr dest valE h x = Some v"
    then show "reach_ptr dest reachE h x \<subseteq> dom (hpCells h)"
      using copier.reach_cells [OF E] by (fastforce simp: val_ptr_Some reach_ptr_def cell_at_def split: option.splits)
  next
    fix h h' :: "'c heap" and x v
    assume v: "val_ptr dest valE h x = Some v" and same: "\<forall>a \<in> reach_ptr dest reachE h x. hpCells h' a = hpCells h a"
    show "val_ptr dest valE h' x = Some v \<and> reach_ptr dest reachE h' x = reach_ptr dest reachE h x"
    proof (cases x)
      case None
      then show ?thesis using v by (simp add: val_ptr_def reach_ptr_def)
    next
      case (Some a)
      obtain e w where e: "cell_at dest h a = Some e" "valE h e = Some w" "v = Some w"
        using v by (auto simp: val_ptr_Some Some)
      have "cell_at dest h' a = Some e" using e(1) same by (simp add: reach_ptr_def Some cell_at_def)
      moreover have "valE h' e = Some w \<and> reachE h' e = reachE h e"
        using copier.local [OF E e(2), of h'] same by (simp add: reach_ptr_def Some e(1))
      ultimately show ?thesis by (simp add: val_ptr_def reach_ptr_def Some e)
    qed
  next
    fix h h' :: "'c heap" and x v y
    assume h: "heap_ok h" "val_ptr dest valE h x = Some v" "copy_ptr mk dest zero copyE x h = (y, h')"
    show "heap_ok h' \<and> extends h h' \<and> val_ptr dest valE h' y = Some v \<and> reach_ptr dest reachE h' y \<subseteq> {hpNext h..<hpNext h'}"
    proof (cases x)
      case None
      then show ?thesis using h by (auto simp: copy_ptr_def val_ptr_def reach_ptr_def)
    next
      case (Some a)
      obtain e w where e: "cell_at dest h a = Some e" "valE h e = Some w" "v = Some w"
        using h(2) by (auto simp: val_ptr_Some Some)
      obtain b h1 where b: "alloc (mk zero) h = (b, h1)" by (cases "alloc (mk zero) h")
      obtain e' h2 where e': "copyE e h1 = (e', h2)" by (cases "copyE e h1")
      have y: "y = Some b" "h' = put_cell b (mk e') h2" using h(3) by (auto simp: copy_ptr_def Some e(1) b e')
      note new = alloc_ok [OF b h(1)]
      have "valE h1 e = Some w" using copier.kept [OF E h(1) e(2)] new by blast
      note two = copier.copies [OF E _ this e']
      have fresh: "b \<notin> reachE h2 e'" "b < hpNext h2" using two new by (auto simp: extends_def)
      then have "valE h' e' = Some w \<and> reachE h' e' = reachE h2 e'"
        using copier.local [OF E, of h2 e' w h'] two new by (fastforce simp: y(2))
      moreover have "cell_at dest h' b = Some e'" by (simp add: y(2) assms(2))
      ultimately show ?thesis
        using two new fresh(2) by (auto simp: y val_ptr_def reach_ptr_def e(3) extends_def)
    qed
  qed
qed

text \<open>Slices.\<close>

type_synonym slice = "(nat \<times> nat \<times> nat) option"

primrec those_vals :: "('e \<Rightarrow> 'v option) \<Rightarrow> 'e list \<Rightarrow> 'v list option" where
  "those_vals f [] = Some []"
| "those_vals f (x # xs) = (case f x of None \<Rightarrow> None | Some v \<Rightarrow> map_option (Cons v) (those_vals f xs))"

lemma those_vals_iff: "those_vals f xs = Some vs \<longleftrightarrow> list_all2 (\<lambda>x v. f x = Some v) xs vs"
  by (induction xs arbitrary: vs) (auto simp: list_all2_Cons1 split: option.splits)

fun fill ::
  "('e list \<Rightarrow> 'c) \<Rightarrow> ('c \<Rightarrow> 'e list option) \<Rightarrow> ('e \<Rightarrow> 'c heap \<Rightarrow> 'e \<times> 'c heap) \<Rightarrow> nat \<Rightarrow> nat \<Rightarrow> 'e list \<Rightarrow> 'c heap \<Rightarrow> 'c heap" where
  "fill mk dest copyE b i [] h = h"
| "fill mk dest copyE b i (x # xs) h =
     (let (y, h1) = copyE x h;
          h2 = (case cell_at dest h1 b of None \<Rightarrow> h1 | Some ys \<Rightarrow> put_cell b (mk (ys[i := y])) h1)
      in fill mk dest copyE b (Suc i) xs h2)"

definition copy_slice ::
  "('e list \<Rightarrow> 'c) \<Rightarrow> ('c \<Rightarrow> 'e list option) \<Rightarrow> 'e \<Rightarrow> ('e \<Rightarrow> 'c heap \<Rightarrow> 'e \<times> 'c heap) \<Rightarrow> slice \<Rightarrow> 'c heap \<Rightarrow> slice \<times> 'c heap" where
  "copy_slice mk dest zero copyE s h =
     (case s of
        None \<Rightarrow> (None, h)
      | Some (a, off, len) \<Rightarrow>
          (case cell_at dest h a of
             None \<Rightarrow> (s, h)
           | Some es \<Rightarrow>
               let (b, h1) = alloc (mk (replicate len zero)) h
               in (Some (b, 0, len), fill mk dest copyE b 0 (take len (drop off es)) h1)))"

definition val_slice :: "('c \<Rightarrow> 'e list option) \<Rightarrow> ('c heap \<Rightarrow> 'e \<Rightarrow> 'v option) \<Rightarrow> 'c heap \<Rightarrow> slice \<Rightarrow> 'v list option option" where
  "val_slice dest valE h s =
     (case s of
        None \<Rightarrow> Some None
      | Some (a, off, len) \<Rightarrow>
          (case cell_at dest h a of
             None \<Rightarrow> None
           | Some es \<Rightarrow> if off + len \<le> length es
               then map_option Some (those_vals (valE h) (take len (drop off es))) else None))"

definition reach_slice :: "('c \<Rightarrow> 'e list option) \<Rightarrow> ('c heap \<Rightarrow> 'e \<Rightarrow> nat set) \<Rightarrow> 'c heap \<Rightarrow> slice \<Rightarrow> nat set" where
  "reach_slice dest reachE h s =
     (case s of
        None \<Rightarrow> {}
      | Some (a, off, len) \<Rightarrow>
          insert a (case cell_at dest h a of None \<Rightarrow> {} | Some es \<Rightarrow> \<Union> (reachE h ` set (take len (drop off es)))))"

lemma val_slice_Some:
  "val_slice dest valE h s = Some v \<longleftrightarrow> (case s of None \<Rightarrow> v = None
     | Some (a, off, len) \<Rightarrow> \<exists>es vs. cell_at dest h a = Some es \<and> off + len \<le> length es
         \<and> list_all2 (\<lambda>x v. valE h x = Some v) (take len (drop off es)) vs \<and> v = Some vs)"
  by (auto simp: val_slice_def those_vals_iff [symmetric] split: option.splits)

context copier
begin

lemma local_list:
  assumes "list_all2 (\<lambda>x v. val h x = Some v) xs vs" "\<forall>a \<in> \<Union> (reach h ` set xs). hpCells h' a = hpCells h a"
  shows "list_all2 (\<lambda>x v. val h' x = Some v) xs vs \<and> \<Union> (reach h' ` set xs) = \<Union> (reach h ` set xs)"
  using assms
proof (induction xs vs rule: list_all2_induct)
  case (Cons x xs v vs)
  then show ?case using local [of h x v h'] by simp
qed simp

lemma reach_list:
  "list_all2 (\<lambda>x v. val h x = Some v) xs vs \<Longrightarrow> \<Union> (reach h ` set xs) \<subseteq> dom (hpCells h)"
proof (induction xs vs rule: list_all2_induct)
  case (Cons x xs v vs)
  then show ?case using reach_cells [of h x v] by simp
qed simp

text \<open>\<open>filled b n h ys vs\<close>: the array \<open>b\<close> begins with copies of the values \<open>vs\<close> that reach new cells only.\<close>

definition filled :: "nat \<Rightarrow> 'c heap \<Rightarrow> 'a list \<Rightarrow> 'v list \<Rightarrow> bool" where
  "filled b h ys vs \<longleftrightarrow> heap_ok h \<and> b < hpNext h \<and> list_all2 (\<lambda>x v. val h x = Some v) ys vs
     \<and> \<Union> (reach h ` set ys) \<subseteq> {b<..<hpNext h}"

lemma filled_put:
  assumes "filled b h ys vs"
  shows "filled b (put_cell b c h) ys vs"
proof -
  have "\<forall>a \<in> \<Union> (reach h ` set ys). hpCells (put_cell b c h) a = hpCells h a"
    using assms by (auto simp: filled_def)
  then show ?thesis
    using assms local_list [of h ys vs "put_cell b c h"] by (auto simp: filled_def)
qed

lemma filled_snoc:
  assumes "filled b h ys vs" "val h x = Some v" "copy x h = (y, h')"
  shows "filled b h' (ys @ [y]) (vs @ [v])" "extends h h'"
proof -
  have c: "heap_ok h' \<and> extends h h' \<and> val h' y = Some v \<and> reach h' y \<subseteq> {hpNext h..<hpNext h'}"
    using copies [OF _ assms(2,3)] assms(1) by (simp add: filled_def)
  then show "extends h h'" by blast
  have "\<forall>a \<in> \<Union> (reach h ` set ys). hpCells h' a = hpCells h a"
    using assms(1) c by (auto simp: filled_def extends_def)
  with assms(1) local_list [of h ys vs h'] c show "filled b h' (ys @ [y]) (vs @ [v])"
    by (fastforce simp: filled_def extends_def list_all2_appendI)
qed

lemma fill_spec:
  assumes mk: "\<And>es. dest (mk es) = Some es"
    and "filled b h ys vs0" "cell_at dest h b = Some (ys @ zs)" "length zs = length xs"
    and "list_all2 (\<lambda>x v. val h x = Some v) xs vs" "\<Union> (reach h ` set xs) \<subseteq> {..<b}"
  shows "\<exists>ys'. cell_at dest (fill mk dest copy b (length ys) xs h) b = Some (ys @ ys') \<and> length ys' = length xs
    \<and> filled b (fill mk dest copy b (length ys) xs h) (ys @ ys') (vs0 @ vs)
    \<and> hpNext h \<le> hpNext (fill mk dest copy b (length ys) xs h)
    \<and> (\<forall>a < b. hpCells (fill mk dest copy b (length ys) xs h) a = hpCells h a)"
  using assms(2-)
proof (induction xs arbitrary: h ys vs0 vs zs)
  case Nil
  then show ?case by auto
next
  case (Cons x xs)
  obtain v vs' where vs: "vs = v # vs'" "val h x = Some v" "list_all2 (\<lambda>x v. val h x = Some v) xs vs'"
    using Cons.prems(4) by (auto simp: list_all2_Cons1)
  obtain z zs' where zs: "zs = z # zs'" "length zs' = length xs" using Cons.prems(3) by (cases zs) auto
  obtain y h1 where y: "copy x h = (y, h1)" by (cases "copy x h")
  note one = filled_snoc [OF Cons.prems(1) vs(2) y]
  have b: "b < hpNext h" using Cons.prems(1) by (simp add: filled_def)
  then have at: "cell_at dest h1 b = Some (ys @ z # zs')"
    using Cons.prems(2) one(2) by (simp add: cell_at_def extends_def zs(1))
  let ?h2 = "put_cell b (mk ((ys @ z # zs')[length ys := y])) h1"
  have two: "filled b ?h2 (ys @ [y]) (vs0 @ [v])" by (rule filled_put [OF one(1)])
  have keep: "\<forall>a < b. hpCells ?h2 a = hpCells h a" using one(2) b by (auto simp: extends_def)
  moreover have "a < b" if "a \<in> \<Union> (reach h ` set xs)" for a using that Cons.prems(5) by auto
  ultimately have "list_all2 (\<lambda>x v. val ?h2 x = Some v) xs vs' \<and> \<Union> (reach ?h2 ` set xs) = \<Union> (reach h ` set xs)"
    using local_list [OF vs(3), of ?h2] by blast
  moreover have "cell_at dest ?h2 b = Some ((ys @ [y]) @ zs')" by (simp add: mk)
  ultimately have "\<exists>ys'. cell_at dest (fill mk dest copy b (Suc (length ys)) xs ?h2) b = Some ((ys @ [y]) @ ys') \<and> length ys' = length xs
    \<and> filled b (fill mk dest copy b (Suc (length ys)) xs ?h2) ((ys @ [y]) @ ys') ((vs0 @ [v]) @ vs')
    \<and> hpNext ?h2 \<le> hpNext (fill mk dest copy b (Suc (length ys)) xs ?h2)
    \<and> (\<forall>a < b. hpCells (fill mk dest copy b (Suc (length ys)) xs ?h2) a = hpCells ?h2 a)"
    using Cons.IH [OF two _ zs(2), of vs'] Cons.prems(5) by simp
  moreover have "fill mk dest copy b (length ys) (x # xs) h = fill mk dest copy b (Suc (length ys)) xs ?h2"
    by (simp add: y at)
  moreover have "hpNext h \<le> hpNext ?h2" using one(2) by (simp add: extends_def)
  ultimately obtain ys' where "cell_at dest (fill mk dest copy b (length ys) (x # xs) h) b = Some (ys @ y # ys')" "length ys' = length xs"
    "filled b (fill mk dest copy b (length ys) (x # xs) h) (ys @ y # ys') (vs0 @ vs)"
    "hpNext h \<le> hpNext (fill mk dest copy b (length ys) (x # xs) h)"
    "\<forall>a < b. hpCells (fill mk dest copy b (length ys) (x # xs) h) a = hpCells h a"
    using keep vs(1) by force
  then show ?case by (intro exI [of _ "y # ys'"]) simp
qed

end

text \<open>The copy of a slice: a new array cell, filled element by element.\<close>

lemma copy_slice_copies:
  fixes copyE :: "'e \<Rightarrow> 'c heap \<Rightarrow> 'e \<times> 'c heap"
  assumes E: "copier copyE valE reachE" and dest: "\<And>es. dest (mk es) = Some es"
    and h: "heap_ok h" "val_slice dest valE h (Some s) = Some v" "copy_slice mk dest zero copyE (Some s) h = (y, h')"
  shows "heap_ok h' \<and> extends h h' \<and> val_slice dest valE h' y = Some v \<and> reach_slice dest reachE h' y \<subseteq> {hpNext h..<hpNext h'}"
proof -
  obtain a off len where s: "s = (a, off, len)" by (cases s)
  obtain es vs where e: "cell_at dest h a = Some es" "off + len \<le> length es"
    "list_all2 (\<lambda>x v. valE h x = Some v) (take len (drop off es)) vs" "v = Some vs"
    using h(2) by (auto simp: val_slice_Some s)
  let ?xs = "take len (drop off es)"
  obtain b h1 where b: "alloc (mk (replicate len zero)) h = (b, h1)" by (cases "alloc (mk (replicate len zero)) h")
  have y: "y = Some (b, 0, len)" "h' = fill mk dest copyE b 0 ?xs h1"
    using h(3) by (auto simp: copy_slice_def s e(1) b)
  note new = alloc_ok [OF b h(1)]
  have "\<Union> (reachE h ` set ?xs) \<subseteq> {..<b}"
    using copier.reach_list [OF E e(3)] h(1) new by (fastforce simp: heap_ok_def simp flip: not_le)
  then have vs: "list_all2 (\<lambda>x v. valE h1 x = Some v) ?xs vs" "\<Union> (reachE h1 ` set ?xs) \<subseteq> {..<b}"
    using copier.local_list [OF E e(3), of h1] new by (auto simp: extends_def)
  have empty: "copier.filled valE reachE b h1 [] []" using new by (simp add: copier.filled_def [OF E])
  have "hpCells h1 b = Some (mk (replicate len zero))" using new by blast
  then have zeros: "cell_at dest h1 b = Some ([] @ replicate len zero)" by (simp add: cell_at_def dest)
  have len: "length (replicate len zero) = length ?xs" using e(2) by simp
  obtain ys where ys: "cell_at dest h' b = Some ys" "length ys = len" "copier.filled valE reachE b h' ys vs"
    "hpNext h1 \<le> hpNext h'" "\<forall>a < b. hpCells h' a = hpCells h1 a"
    using copier.fill_spec [OF E dest empty zeros len vs] len by (auto simp: y(2))
  have f: "heap_ok h'" "b < hpNext h'" "list_all2 (\<lambda>x v. valE h' x = Some v) ys vs" "\<Union> (reachE h' ` set ys) \<subseteq> {b<..<hpNext h'}"
    using ys(3) by (simp_all add: copier.filled_def [OF E])
  have "extends h h'" using new ys(4,5) by (auto simp: extends_def)
  moreover have "val_slice dest valE h' y = Some v" using ys(1,2) f(3) by (simp add: val_slice_Some y(1) e(4))
  moreover have "reach_slice dest reachE h' y \<subseteq> {hpNext h..<hpNext h'}"
    using f(2,4) new ys(1,2) by (auto simp: reach_slice_def y(1))
  ultimately show ?thesis using f(1) by blast
qed

lemma copier_slice:
  fixes copyE :: "'e \<Rightarrow> 'c heap \<Rightarrow> 'e \<times> 'c heap"
  assumes "copier copyE valE reachE" "\<And>es. dest (mk es) = Some es"
  shows "copier (copy_slice mk dest zero copyE) (val_slice dest valE) (reach_slice dest reachE)"
proof -
  note E = assms(1)
  show ?thesis
  proof
    fix h :: "'c heap" and x v
    assume "val_slice dest valE h x = Some v"
    then show "reach_slice dest reachE h x \<subseteq> dom (hpCells h)"
    proof (cases x)
      case (Some s)
      obtain a off len where s: "s = (a, off, len)" by (cases s)
      obtain es vs where e: "cell_at dest h a = Some es" "list_all2 (\<lambda>x v. valE h x = Some v) (take len (drop off es)) vs"
        using \<open>val_slice dest valE h x = Some v\<close> by (auto simp: val_slice_Some Some s)
      have "a \<in> dom (hpCells h)" using e(1) by (auto simp: cell_at_def split: option.splits)
      then show ?thesis using copier.reach_list [OF E e(2)] by (simp add: reach_slice_def Some s e(1))
    qed (simp add: reach_slice_def)
  next
    fix h h' :: "'c heap" and x v
    assume v: "val_slice dest valE h x = Some v" and same: "\<forall>a \<in> reach_slice dest reachE h x. hpCells h' a = hpCells h a"
    show "val_slice dest valE h' x = Some v \<and> reach_slice dest reachE h' x = reach_slice dest reachE h x"
    proof (cases x)
      case None
      then show ?thesis using v by (simp add: val_slice_def reach_slice_def)
    next
      case (Some s)
      obtain a off len where s: "s = (a, off, len)" by (cases s)
      obtain es vs where e: "cell_at dest h a = Some es" "off + len \<le> length es"
        "list_all2 (\<lambda>x v. valE h x = Some v) (take len (drop off es)) vs" "v = Some vs"
        using v by (auto simp: val_slice_Some Some s)
      have "cell_at dest h' a = Some es" using e(1) same by (simp add: reach_slice_def Some s cell_at_def)
      moreover have "list_all2 (\<lambda>x v. valE h' x = Some v) (take len (drop off es)) vs
          \<and> \<Union> (reachE h' ` set (take len (drop off es))) = \<Union> (reachE h ` set (take len (drop off es)))"
        using copier.local_list [OF E e(3), of h'] same by (simp add: reach_slice_def Some s e(1))
      ultimately show ?thesis by (auto simp: val_slice_Some reach_slice_def Some s e)
    qed
  next
    fix h h' :: "'c heap" and x v y
    assume h: "heap_ok h" "val_slice dest valE h x = Some v" "copy_slice mk dest zero copyE x h = (y, h')"
    show "heap_ok h' \<and> extends h h' \<and> val_slice dest valE h' y = Some v \<and> reach_slice dest reachE h' y \<subseteq> {hpNext h..<hpNext h'}"
    proof (cases x)
      case None
      then show ?thesis using h by (auto simp: copy_slice_def val_slice_def reach_slice_def)
    next
      case (Some s)
      then show ?thesis using copy_slice_copies [OF E assms(2) h(1)] h(2,3) by blast
    qed
  qed
qed

end
