(* ===== verification/DeepCopy.thy ===== *)
theory DeepCopy
  imports Heap ApiTypes
begin

text \<open>
  \<^verbatim>\<open>api/v1/zz_generated.deepcopy.go\<close>: the deep copies that controller-runtime relies on to hand
  out objects from its cache. The structs are records whose pointers and slices are addresses;
  their values are the records of \<open>ApiTypes\<close>, a nil slice read as an empty list. The deep copies
  of third-party types with pointers of their own (\<^verbatim>\<open>ObjectMeta\<close>, \<^verbatim>\<open>ListMeta\<close>,
  \<^verbatim>\<open>JobTemplateSpec\<close>) are parameters; \<^verbatim>\<open>metav1.Time\<close> and \<^verbatim>\<open>metav1.Condition\<close> have none. \<^verbatim>\<open>new\<close> and
  \<^verbatim>\<open>make\<close> start from zero values.
\<close>

section \<open>Structs in memory\<close>

record h_event =
  heAction :: EventType
  heCronSchedule :: string
  heSchedule :: "nat option"

record h_entry =
  hhType :: string
  hhTimestamp :: "nat option"
  hhMessage :: string
  hhScheduledStartTime :: "nat option"
  hhJobIndex :: "nat option"
  hhJobName :: string

record 'x h_spec =
  hpTimezone :: timezone_spec
  hpEvents :: slice
  hpJobTemplate :: 'x
  hpStartingDeadlineSeconds :: "nat option"
  hpRestartStrategy :: string
  hpSuspend :: "nat option"

record h_status =
  hsActive :: slice
  hsLastScheduledStartTime :: "nat option"
  hsShouldBeRunning :: "nat option"
  hsIsRunning :: "nat option"
  hsIsSuspended :: "nat option"
  hsMostRecentAction :: "nat option"
  hsActionHistory :: slice
  hsConditions :: slice

record ('m, 'x) h_controlled_job =
  hcTypeMeta :: "string \<times> string"
  hcObjectMeta :: 'm
  hcSpec :: "'x h_spec"
  hcStatus :: h_status

record ('m, 'l) h_list =
  hlTypeMeta :: "string \<times> string"
  hlListMeta :: 'l
  hlItems :: slice

text \<open>The cells: one constructor per type that is pointed to; \<open>COther\<close> holds third-party objects.\<close>

datatype ('m, 'x, 'l, 'o) cell =
  CBool (cBool: bool) | CInt (cInt: "64 word") | CTime (cTime: gotime) | CFriendly (cFriendly: friendly_schedule_spec)
| CTimezone (cTimezone: timezone_spec) | CRestartStrategy (cRestartStrategy: string)
| CEvent (cEvent: h_event) | CEvents (cEvents: "h_event list") | CRefs (cRefs: "object_reference list")
| CEntry (cEntry: h_entry) | CEntries (cEntries: "h_entry list") | CConditions (cConditions: "condition list")
| CSpec (cSpec: "'x h_spec") | CStatus (cStatus: h_status) | CJob (cJob: "('m, 'x) h_controlled_job")
| CJobs (cJobs: "('m, 'x) h_controlled_job list") | CList (cList: "('m, 'l) h_list") | COther (cOther: 'o)

type_synonym ('m, 'x, 'l, 'o) store = "('m, 'x, 'l, 'o) cell heap"

definition cell_of :: "('c \<Rightarrow> bool) \<Rightarrow> ('c \<Rightarrow> 'e) \<Rightarrow> 'c \<Rightarrow> 'e option" where
  "cell_of is_cell get c = (if is_cell c then Some (get c) else None)"

abbreviation "dBool \<equiv> cell_of is_CBool cBool"
abbreviation "dInt \<equiv> cell_of is_CInt cInt"
abbreviation "dTime \<equiv> cell_of is_CTime cTime"
abbreviation "dFriendly \<equiv> cell_of is_CFriendly cFriendly"
abbreviation "dEvents \<equiv> cell_of is_CEvents cEvents"
abbreviation "dRefs \<equiv> cell_of is_CRefs cRefs"
abbreviation "dEntry \<equiv> cell_of is_CEntry cEntry"
abbreviation "dEntries \<equiv> cell_of is_CEntries cEntries"
abbreviation "dConditions \<equiv> cell_of is_CConditions cConditions"
abbreviation "dJob \<equiv> cell_of is_CJob cJob"
abbreviation "dJobs \<equiv> cell_of is_CJobs cJobs"

lemma cell_of_mk [simp]:
  "dBool (CBool b) = Some b" "dInt (CInt i) = Some i" "dTime (CTime t) = Some t" "dFriendly (CFriendly f) = Some f"
  "dEvents (CEvents es) = Some es" "dRefs (CRefs rs) = Some rs" "dEntry (CEntry e) = Some e"
  "dEntries (CEntries hs) = Some hs" "dConditions (CConditions cs) = Some cs" "dJob (CJob j) = Some j" "dJobs (CJobs js) = Some js"
  by (simp_all add: cell_of_def)

section \<open>Zero values\<close>

definition zero_friendly :: friendly_schedule_spec where
  "zero_friendly = \<lparr>fsTimeOfDay = [], fsDaysOfWeek = []\<rparr>"

definition zero_event :: h_event where
  "zero_event = \<lparr>heAction = [], heCronSchedule = [], heSchedule = None\<rparr>"

definition zero_entry :: h_entry where
  "zero_entry = \<lparr>hhType = [], hhTimestamp = None, hhMessage = [], hhScheduledStartTime = None, hhJobIndex = None, hhJobName = []\<rparr>"

definition zero_ref :: object_reference where
  "zero_ref = \<lparr>refName = [], refNamespace = [], refUID = []\<rparr>"

definition zero_condition :: condition where
  "zero_condition = \<lparr>condType = [], condStatus = ConditionUnknown, condLastTransitionTime = zero_time,
     condObservedGeneration = 0, condReason = [], condMessage = []\<rparr>"

definition zero_spec :: "'x \<Rightarrow> 'x h_spec" where
  "zero_spec zeroTemplate = \<lparr>hpTimezone = \<lparr>tzName = [], tzOffsetSeconds = 0\<rparr>, hpEvents = None, hpJobTemplate = zeroTemplate,
     hpStartingDeadlineSeconds = None, hpRestartStrategy = [], hpSuspend = None\<rparr>"

definition zero_status :: h_status where
  "zero_status = \<lparr>hsActive = None, hsLastScheduledStartTime = None, hsShouldBeRunning = None, hsIsRunning = None,
     hsIsSuspended = None, hsMostRecentAction = None, hsActionHistory = None, hsConditions = None\<rparr>"

section \<open>Copies\<close>

definition FriendlyScheduleSpec_DeepCopyInto ::
  "friendly_schedule_spec \<Rightarrow> ('m, 'x, 'l, 'o) store \<Rightarrow> friendly_schedule_spec \<times> ('m, 'x, 'l, 'o) store" where
  "FriendlyScheduleSpec_DeepCopyInto = assign"

definition FriendlyScheduleSpec_DeepCopy :: "nat option \<Rightarrow> ('m, 'x, 'l, 'o) store \<Rightarrow> nat option \<times> ('m, 'x, 'l, 'o) store" where
  "FriendlyScheduleSpec_DeepCopy = copy_ptr CFriendly (cell_of is_CFriendly cFriendly) zero_friendly FriendlyScheduleSpec_DeepCopyInto"

definition RestartStrategy_DeepCopyInto :: "string \<Rightarrow> ('m, 'x, 'l, 'o) store \<Rightarrow> string \<times> ('m, 'x, 'l, 'o) store" where
  "RestartStrategy_DeepCopyInto = assign"

definition RestartStrategy_DeepCopy :: "nat option \<Rightarrow> ('m, 'x, 'l, 'o) store \<Rightarrow> nat option \<times> ('m, 'x, 'l, 'o) store" where
  "RestartStrategy_DeepCopy = copy_ptr CRestartStrategy (cell_of is_CRestartStrategy cRestartStrategy) [] RestartStrategy_DeepCopyInto"

definition TimezoneSpec_DeepCopyInto ::
  "timezone_spec \<Rightarrow> ('m, 'x, 'l, 'o) store \<Rightarrow> timezone_spec \<times> ('m, 'x, 'l, 'o) store" where
  "TimezoneSpec_DeepCopyInto = assign"

definition TimezoneSpec_DeepCopy :: "nat option \<Rightarrow> ('m, 'x, 'l, 'o) store \<Rightarrow> nat option \<times> ('m, 'x, 'l, 'o) store" where
  "TimezoneSpec_DeepCopy = copy_ptr CTimezone (cell_of is_CTimezone cTimezone) \<lparr>tzName = [], tzOffsetSeconds = 0\<rparr> TimezoneSpec_DeepCopyInto"

definition EventSpec_DeepCopyInto :: "h_event \<Rightarrow> ('m, 'x, 'l, 'o) store \<Rightarrow> h_event \<times> ('m, 'x, 'l, 'o) store" where
  "EventSpec_DeepCopyInto x h =
     (let (schedule, h1) = copy_ptr CFriendly dFriendly zero_friendly assign (heSchedule x) h
      in (x\<lparr>heSchedule := schedule\<rparr>, h1))"

definition EventSpec_DeepCopy :: "nat option \<Rightarrow> ('m, 'x, 'l, 'o) store \<Rightarrow> nat option \<times> ('m, 'x, 'l, 'o) store" where
  "EventSpec_DeepCopy = copy_ptr CEvent (cell_of is_CEvent cEvent) zero_event EventSpec_DeepCopyInto"

definition ActionHistoryEntry_DeepCopyInto :: "h_entry \<Rightarrow> ('m, 'x, 'l, 'o) store \<Rightarrow> h_entry \<times> ('m, 'x, 'l, 'o) store" where
  "ActionHistoryEntry_DeepCopyInto x h =
     (let (timestamp, h1) = copy_ptr CTime dTime zero_time assign (hhTimestamp x) h;
          (start, h2) = copy_ptr CTime dTime zero_time assign (hhScheduledStartTime x) h1;
          (index, h3) = copy_ptr CInt dInt 0 assign (hhJobIndex x) h2
      in (x\<lparr>hhTimestamp := timestamp, hhScheduledStartTime := start, hhJobIndex := index\<rparr>, h3))"

definition ActionHistoryEntry_DeepCopy :: "nat option \<Rightarrow> ('m, 'x, 'l, 'o) store \<Rightarrow> nat option \<times> ('m, 'x, 'l, 'o) store" where
  "ActionHistoryEntry_DeepCopy = copy_ptr CEntry (cell_of is_CEntry cEntry) zero_entry ActionHistoryEntry_DeepCopyInto"

definition ControlledJobStatus_DeepCopyInto :: "h_status \<Rightarrow> ('m, 'x, 'l, 'o) store \<Rightarrow> h_status \<times> ('m, 'x, 'l, 'o) store" where
  "ControlledJobStatus_DeepCopyInto x h =
     (let (active, h1) = copy_slice CRefs dRefs zero_ref assign (hsActive x) h;
          (start, h2) = copy_ptr CTime dTime zero_time assign (hsLastScheduledStartTime x) h1;
          (should, h3) = copy_ptr CBool dBool False assign (hsShouldBeRunning x) h2;
          (running, h4) = copy_ptr CBool dBool False assign (hsIsRunning x) h3;
          (suspended, h5) = copy_ptr CBool dBool False assign (hsIsSuspended x) h4;
          (recent, h6) = copy_ptr CEntry dEntry zero_entry ActionHistoryEntry_DeepCopyInto (hsMostRecentAction x) h5;
          (history, h7) = copy_slice CEntries dEntries zero_entry ActionHistoryEntry_DeepCopyInto (hsActionHistory x) h6;
          (conditions, h8) = copy_slice CConditions dConditions zero_condition assign (hsConditions x) h7
      in (x\<lparr>hsActive := active, hsLastScheduledStartTime := start, hsShouldBeRunning := should, hsIsRunning := running,
            hsIsSuspended := suspended, hsMostRecentAction := recent, hsActionHistory := history, hsConditions := conditions\<rparr>, h8))"

definition ControlledJobStatus_DeepCopy :: "nat option \<Rightarrow> ('m, 'x, 'l, 'o) store \<Rightarrow> nat option \<times> ('m, 'x, 'l, 'o) store" where
  "ControlledJobStatus_DeepCopy = copy_ptr CStatus (cell_of is_CStatus cStatus) zero_status ControlledJobStatus_DeepCopyInto"

text \<open>The third-party copies and zero values.\<close>

record ('m, 'x, 'l, 'o) deep_env =
  dpObjectMeta :: "'m \<Rightarrow> ('m, 'x, 'l, 'o) store \<Rightarrow> 'm \<times> ('m, 'x, 'l, 'o) store"
  dpListMeta :: "'l \<Rightarrow> ('m, 'x, 'l, 'o) store \<Rightarrow> 'l \<times> ('m, 'x, 'l, 'o) store"
  dpJobTemplate :: "'x \<Rightarrow> ('m, 'x, 'l, 'o) store \<Rightarrow> 'x \<times> ('m, 'x, 'l, 'o) store"
  dpZeroMeta :: 'm
  dpZeroListMeta :: 'l
  dpZeroTemplate :: 'x

definition ControlledJobSpec_DeepCopyInto ::
  "('m, 'x, 'l, 'o) deep_env \<Rightarrow> 'x h_spec \<Rightarrow> ('m, 'x, 'l, 'o) store \<Rightarrow> 'x h_spec \<times> ('m, 'x, 'l, 'o) store" where
  "ControlledJobSpec_DeepCopyInto env x h =
     (let (events, h1) = copy_slice CEvents dEvents zero_event EventSpec_DeepCopyInto (hpEvents x) h;
          (template, h2) = dpJobTemplate env (hpJobTemplate x) h1;
          (deadline, h3) = copy_ptr CInt dInt 0 assign (hpStartingDeadlineSeconds x) h2;
          (suspend, h4) = copy_ptr CBool dBool False assign (hpSuspend x) h3
      in (x\<lparr>hpEvents := events, hpJobTemplate := template, hpStartingDeadlineSeconds := deadline, hpSuspend := suspend\<rparr>, h4))"

definition ControlledJobSpec_DeepCopy :: "('m, 'x, 'l, 'o) deep_env \<Rightarrow> nat option \<Rightarrow> ('m, 'x, 'l, 'o) store \<Rightarrow> nat option \<times> ('m, 'x, 'l, 'o) store" where
  "ControlledJobSpec_DeepCopy env = copy_ptr CSpec (cell_of is_CSpec cSpec) (zero_spec (dpZeroTemplate env)) (ControlledJobSpec_DeepCopyInto env)"

definition ControlledJob_DeepCopyInto ::
  "('m, 'x, 'l, 'o) deep_env \<Rightarrow> ('m, 'x) h_controlled_job \<Rightarrow> ('m, 'x, 'l, 'o) store
   \<Rightarrow> ('m, 'x) h_controlled_job \<times> ('m, 'x, 'l, 'o) store" where
  "ControlledJob_DeepCopyInto env x h =
     (let (meta, h1) = dpObjectMeta env (hcObjectMeta x) h;
          (spec, h2) = ControlledJobSpec_DeepCopyInto env (hcSpec x) h1;
          (status, h3) = ControlledJobStatus_DeepCopyInto (hcStatus x) h2
      in (x\<lparr>hcObjectMeta := meta, hcSpec := spec, hcStatus := status\<rparr>, h3))"

definition zero_job :: "('m, 'x, 'l, 'o) deep_env \<Rightarrow> ('m, 'x) h_controlled_job" where
  "zero_job env = \<lparr>hcTypeMeta = ([], []), hcObjectMeta = dpZeroMeta env, hcSpec = zero_spec (dpZeroTemplate env), hcStatus = zero_status\<rparr>"

definition ControlledJob_DeepCopy :: "('m, 'x, 'l, 'o) deep_env \<Rightarrow> nat option \<Rightarrow> ('m, 'x, 'l, 'o) store \<Rightarrow> nat option \<times> ('m, 'x, 'l, 'o) store" where
  "ControlledJob_DeepCopy env = copy_ptr CJob (cell_of is_CJob cJob) (zero_job env) (ControlledJob_DeepCopyInto env)"

definition ControlledJob_DeepCopyObject ::
  "('m, 'x, 'l, 'o) deep_env \<Rightarrow> nat option \<Rightarrow> ('m, 'x, 'l, 'o) store \<Rightarrow> nat option \<times> ('m, 'x, 'l, 'o) store" where
  "ControlledJob_DeepCopyObject env p h =
     (let (c, h1) = ControlledJob_DeepCopy env p h in case c of Some a \<Rightarrow> (Some a, h1) | None \<Rightarrow> (None, h1))"

definition ControlledJobList_DeepCopyInto ::
  "('m, 'x, 'l, 'o) deep_env \<Rightarrow> ('m, 'l) h_list \<Rightarrow> ('m, 'x, 'l, 'o) store \<Rightarrow> ('m, 'l) h_list \<times> ('m, 'x, 'l, 'o) store" where
  "ControlledJobList_DeepCopyInto env x h =
     (let (meta, h1) = dpListMeta env (hlListMeta x) h;
          (items, h2) = copy_slice CJobs dJobs (zero_job env) (ControlledJob_DeepCopyInto env) (hlItems x) h1
      in (x\<lparr>hlListMeta := meta, hlItems := items\<rparr>, h2))"

definition ControlledJobList_DeepCopy :: "('m, 'x, 'l, 'o) deep_env \<Rightarrow> nat option \<Rightarrow> ('m, 'x, 'l, 'o) store \<Rightarrow> nat option \<times> ('m, 'x, 'l, 'o) store" where
  "ControlledJobList_DeepCopy env = copy_ptr CList (cell_of is_CList cList) \<lparr>hlTypeMeta = ([], []), hlListMeta = dpZeroListMeta env, hlItems = None\<rparr> (ControlledJobList_DeepCopyInto env)"

definition ControlledJobList_DeepCopyObject ::
  "('m, 'x, 'l, 'o) deep_env \<Rightarrow> nat option \<Rightarrow> ('m, 'x, 'l, 'o) store \<Rightarrow> nat option \<times> ('m, 'x, 'l, 'o) store" where
  "ControlledJobList_DeepCopyObject env p h =
     (let (c, h1) = ControlledJobList_DeepCopy env p h in case c of Some a \<Rightarrow> (Some a, h1) | None \<Rightarrow> (None, h1))"

end
