(* ===== verification/DeepCopyCorrect.thy ===== *)
theory DeepCopyCorrect
  imports DeepCopy
begin

text \<open>
  The generated copies are deep: every struct's \<^verbatim>\<open>DeepCopyInto\<close> is a \<open>copier\<close>, so the copy of a
  ControlledJob has the same value, and shares no memory with it.
\<close>

section \<open>Values of structs\<close>

abbreviation plain_val :: "'h \<Rightarrow> 'a \<Rightarrow> 'a option" where "plain_val \<equiv> \<lambda>_. Some"
abbreviation plain_reach :: "'h \<Rightarrow> 'a \<Rightarrow> nat set" where "plain_reach \<equiv> \<lambda>_ _. {}"

definition items :: "'a list option \<Rightarrow> 'a list" where
  "items xs = (case xs of None \<Rightarrow> [] | Some ys \<Rightarrow> ys)"

definition event_parts :: "h_event \<Rightarrow> (EventType \<times> string) \<times> nat option" where
  "event_parts x = ((heAction x, heCronSchedule x), heSchedule x)"

definition event_val :: "('m, 'x, 'l, 'o) store \<Rightarrow> h_event \<Rightarrow> event_spec option" where
  "event_val h x = map_option (\<lambda>((action, cron), schedule). \<lparr>esAction = action, esCronSchedule = cron, esSchedule = schedule\<rparr>)
     (val_both plain_val (val_ptr dFriendly plain_val) h (event_parts x))"

definition event_reach :: "('m, 'x, 'l, 'o) store \<Rightarrow> h_event \<Rightarrow> nat set" where
  "event_reach h x = reach_both plain_reach (reach_ptr dFriendly plain_reach) h (event_parts x)"

definition entry_parts :: "h_entry \<Rightarrow> (string \<times> string \<times> string) \<times> nat option \<times> nat option \<times> nat option" where
  "entry_parts x = ((hhType x, hhMessage x, hhJobName x), hhTimestamp x, hhScheduledStartTime x, hhJobIndex x)"

definition entry_val :: "('m, 'x, 'l, 'o) store \<Rightarrow> h_entry \<Rightarrow> action_history_entry option" where
  "entry_val h x = map_option (\<lambda>((ty, message, name), timestamp, start, index).
       \<lparr>ahType = ty, ahTimestamp = timestamp, ahMessage = message, ahScheduledStartTime = start, ahJobIndex = index, ahJobName = name\<rparr>)
     (val_both plain_val (val_both (val_ptr dTime plain_val) (val_both (val_ptr dTime plain_val) (val_ptr dInt plain_val)))
       h (entry_parts x))"

definition entry_reach :: "('m, 'x, 'l, 'o) store \<Rightarrow> h_entry \<Rightarrow> nat set" where
  "entry_reach h x = reach_both plain_reach (reach_both (reach_ptr dTime plain_reach) (reach_both (reach_ptr dTime plain_reach)
     (reach_ptr dInt plain_reach))) h (entry_parts x)"

interpretation event_copy: copier EventSpec_DeepCopyInto event_val event_reach
proof -
  have "copier (copy_both assign (copy_ptr CFriendly dFriendly zero_friendly assign))
    (val_both plain_val (val_ptr dFriendly plain_val)) (reach_both plain_reach (reach_ptr dFriendly plain_reach))"
    by (intro copier_both copier_ptr copier_assign) simp
  then show "copier EventSpec_DeepCopyInto event_val event_reach"
    unfolding event_val_def [abs_def] event_reach_def [abs_def]
    by (rule copier_struct)
      (simp add: event_parts_def EventSpec_DeepCopyInto_def copy_both_def assign_def split: prod.split)
qed

interpretation entry_copy: copier ActionHistoryEntry_DeepCopyInto entry_val entry_reach
proof -
  let ?time = "copy_ptr CTime dTime zero_time assign" and ?vt = "val_ptr dTime plain_val" and ?rt = "reach_ptr dTime plain_reach"
  have "copier (copy_both assign (copy_both ?time (copy_both ?time (copy_ptr CInt dInt 0 assign))))
    (val_both plain_val (val_both ?vt (val_both ?vt (val_ptr dInt plain_val))))
    (reach_both plain_reach (reach_both ?rt (reach_both ?rt (reach_ptr dInt plain_reach))))"
    by (intro copier_both copier_ptr copier_assign) simp_all
  then show "copier ActionHistoryEntry_DeepCopyInto entry_val entry_reach"
    unfolding entry_val_def [abs_def] entry_reach_def [abs_def]
    by (rule copier_struct)
      (simp add: entry_parts_def ActionHistoryEntry_DeepCopyInto_def copy_both_def assign_def split: prod.split)
qed

definition status_parts :: "h_status \<Rightarrow> slice \<times> nat option \<times> nat option \<times> nat option \<times> nat option \<times> nat option \<times> slice \<times> slice" where
  "status_parts x = (hsActive x, hsLastScheduledStartTime x, hsShouldBeRunning x, hsIsRunning x, hsIsSuspended x,
     hsMostRecentAction x, hsActionHistory x, hsConditions x)"

definition status_val :: "('m, 'x, 'l, 'o) store \<Rightarrow> h_status \<Rightarrow> controlled_job_status option" where
  "status_val h x = map_option (\<lambda>(active, start, should, running, suspended, recent, history, conditions).
       \<lparr>stActive = items active, stLastScheduledStartTime = start, stShouldBeRunning = should, stIsRunning = running,
        stIsSuspended = suspended, stMostRecentAction = recent, stActionHistory = items history, stConditions = items conditions\<rparr>)
     (val_both (val_slice dRefs plain_val) (val_both (val_ptr dTime plain_val) (val_both (val_ptr dBool plain_val)
      (val_both (val_ptr dBool plain_val) (val_both (val_ptr dBool plain_val) (val_both (val_ptr dEntry entry_val)
      (val_both (val_slice dEntries entry_val) (val_slice dConditions plain_val)))))))
       h (status_parts x))"

definition status_reach :: "('m, 'x, 'l, 'o) store \<Rightarrow> h_status \<Rightarrow> nat set" where
  "status_reach h x =
     (reach_both (reach_slice dRefs plain_reach) (reach_both (reach_ptr dTime plain_reach) (reach_both (reach_ptr
      dBool plain_reach) (reach_both (reach_ptr dBool plain_reach) (reach_both (reach_ptr dBool plain_reach)
      (reach_both (reach_ptr dEntry entry_reach) (reach_both (reach_slice dEntries entry_reach) (reach_slice
      dConditions plain_reach)))))))) h (status_parts x)"

interpretation status_copy: copier ControlledJobStatus_DeepCopyInto status_val status_reach
proof -
  have "copier (copy_both (copy_slice CRefs dRefs zero_ref assign) (copy_both (copy_ptr CTime dTime zero_time assign)
      (copy_both (copy_ptr CBool dBool False assign) (copy_both (copy_ptr CBool dBool False assign) (copy_both
      (copy_ptr CBool dBool False assign) (copy_both (copy_ptr CEntry dEntry zero_entry
      ActionHistoryEntry_DeepCopyInto) (copy_both (copy_slice CEntries dEntries zero_entry
      ActionHistoryEntry_DeepCopyInto) (copy_slice CConditions dConditions zero_condition assign))))))))
    (val_both (val_slice dRefs plain_val) (val_both (val_ptr dTime plain_val) (val_both (val_ptr dBool plain_val)
      (val_both (val_ptr dBool plain_val) (val_both (val_ptr dBool plain_val) (val_both (val_ptr dEntry entry_val)
      (val_both (val_slice dEntries entry_val) (val_slice dConditions plain_val))))))))
    (reach_both (reach_slice dRefs plain_reach) (reach_both (reach_ptr dTime plain_reach) (reach_both (reach_ptr
      dBool plain_reach) (reach_both (reach_ptr dBool plain_reach) (reach_both (reach_ptr dBool plain_reach)
      (reach_both (reach_ptr dEntry entry_reach) (reach_both (reach_slice dEntries entry_reach) (reach_slice
      dConditions plain_reach))))))))"
    by (intro copier_both copier_slice copier_ptr copier_assign entry_copy.copier_axioms) simp_all
  then show "copier ControlledJobStatus_DeepCopyInto status_val status_reach"
    unfolding status_val_def [abs_def] status_reach_def [abs_def]
    by (rule copier_struct)
      (simp add: status_parts_def ControlledJobStatus_DeepCopyInto_def copy_both_def split: prod.split)
qed

section \<open>The copies that hold third-party structs\<close>

definition spec_parts :: "'x h_spec \<Rightarrow> (timezone_spec \<times> string) \<times> slice \<times> 'x \<times> nat option \<times> nat option" where
  "spec_parts x = ((hpTimezone x, hpRestartStrategy x), hpEvents x, hpJobTemplate x, hpStartingDeadlineSeconds x, hpSuspend x)"

definition spec_val ::
  "(('m, 'x, 'l, 'o) store \<Rightarrow> 'x \<Rightarrow> 'p job_template_spec option) \<Rightarrow> ('m, 'x, 'l, 'o) store \<Rightarrow> 'x h_spec \<Rightarrow> 'p controlled_job_spec option" where
  "spec_val valT = (\<lambda>h x. map_option (\<lambda>((tz, policy), events, template, deadline, suspend).
       \<lparr>csTimezone = tz, csEvents = items events, csJobTemplate = template, csStartingDeadlineSeconds = deadline,
        csSpecChangePolicy = policy, csSuspend = suspend\<rparr>)
     (val_both plain_val (val_both (val_slice dEvents event_val) (val_both valT (val_both (val_ptr dInt plain_val) (val_ptr dBool
      plain_val))))
       h (spec_parts x)))"

definition spec_reach :: "(('m, 'x, 'l, 'o) store \<Rightarrow> 'x \<Rightarrow> nat set) \<Rightarrow> ('m, 'x, 'l, 'o) store \<Rightarrow> 'x h_spec \<Rightarrow> nat set" where
  "spec_reach reachT = (\<lambda>h x. reach_both plain_reach (reach_both (reach_slice dEvents event_reach) (reach_both reachT (reach_both (reach_ptr dInt plain_reach)
      (reach_ptr dBool plain_reach))))
     h (spec_parts x))"

lemma spec_copy:
  assumes "copier (dpJobTemplate env) valT reachT"
  shows "copier (ControlledJobSpec_DeepCopyInto env) (spec_val valT) (spec_reach reachT)"
proof -
  have "copier (copy_both assign (copy_both (copy_slice CEvents dEvents zero_event EventSpec_DeepCopyInto) (copy_both (dpJobTemplate env)
      (copy_both (copy_ptr CInt dInt 0 assign) (copy_ptr CBool dBool False assign)))))
    (val_both plain_val (val_both (val_slice dEvents event_val) (val_both valT (val_both (val_ptr dInt plain_val) (val_ptr dBool
      plain_val)))))
    (reach_both plain_reach (reach_both (reach_slice dEvents event_reach) (reach_both reachT (reach_both (reach_ptr dInt plain_reach)
      (reach_ptr dBool plain_reach)))))"
    by (intro copier_both copier_slice copier_ptr copier_assign event_copy.copier_axioms assms) simp_all
  then show ?thesis
    unfolding spec_val_def spec_reach_def
    by (rule copier_struct)
      (simp add: spec_parts_def ControlledJobSpec_DeepCopyInto_def copy_both_def assign_def split: prod.split)
qed

text \<open>Of the metadata the operator reads name, namespace, UID, generation and annotations.\<close>

type_synonym meta_value = "string \<times> string \<times> string \<times> 64 word \<times> (string \<rightharpoonup> string)"

definition job_parts :: "('m, 'x) h_controlled_job \<Rightarrow> (string \<times> string) \<times> 'm \<times> 'x h_spec \<times> h_status" where
  "job_parts x = (hcTypeMeta x, hcObjectMeta x, hcSpec x, hcStatus x)"

definition job_val where
  "job_val valM valT = (\<lambda>h x. map_option (\<lambda>(typeMeta, (name, namespace, uid, generation, annotations), spec, status).
       (typeMeta :: string \<times> string, \<lparr>cjName = name, cjNamespace = namespace, cjUID = uid, cjGeneration = generation,
         cjAnnotations = annotations, cjSpec = spec, cjStatus = status\<rparr>))
     (val_both plain_val (val_both valM (val_both (spec_val valT) status_val)) h (job_parts x)))"

definition job_reach where
  "job_reach reachM reachT = (\<lambda>h x. reach_both plain_reach (reach_both reachM (reach_both (spec_reach reachT) status_reach)) h (job_parts x))"

lemma job_copy:
  assumes "copier (dpObjectMeta env) valM reachM" "copier (dpJobTemplate env) valT reachT"
  shows "copier (ControlledJob_DeepCopyInto env) (job_val valM valT) (job_reach reachM reachT)"
proof -
  have "copier (copy_both assign (copy_both (dpObjectMeta env)
      (copy_both (ControlledJobSpec_DeepCopyInto env) ControlledJobStatus_DeepCopyInto)))
    (val_both plain_val (val_both valM (val_both (spec_val valT) status_val)))
    (reach_both plain_reach (reach_both reachM (reach_both (spec_reach reachT) status_reach)))"
    by (intro copier_both copier_assign spec_copy status_copy.copier_axioms assms)
  then show ?thesis
    unfolding job_val_def job_reach_def
    by (rule copier_struct) (simp add: job_parts_def ControlledJob_DeepCopyInto_def copy_both_def assign_def split: prod.split)
qed

definition list_parts :: "('m, 'l) h_list \<Rightarrow> (string \<times> string) \<times> 'l \<times> slice" where
  "list_parts x = (hlTypeMeta x, hlListMeta x, hlItems x)"

lemma list_copy:
  assumes "copier (dpListMeta env) valL reachL" "copier (dpObjectMeta env) valM reachM" "copier (dpJobTemplate env) valT reachT"
  shows "copier (ControlledJobList_DeepCopyInto env)
    (\<lambda>h x. map_option (\<lambda>v. v) (val_both plain_val (val_both valL (val_slice dJobs (job_val valM valT))) h (list_parts x)))
    (\<lambda>h x. reach_both plain_reach (reach_both reachL (reach_slice dJobs (job_reach reachM reachT))) h (list_parts x))"
proof -
  have "copier (copy_both assign (copy_both (dpListMeta env) (copy_slice CJobs dJobs (zero_job env) (ControlledJob_DeepCopyInto env))))
    (val_both plain_val (val_both valL (val_slice dJobs (job_val valM valT))))
    (reach_both plain_reach (reach_both reachL (reach_slice dJobs (job_reach reachM reachT))))"
    by (intro copier_both copier_slice copier_assign job_copy assms) simp
  then show ?thesis
    by (rule copier_struct) (simp add: list_parts_def ControlledJobList_DeepCopyInto_def copy_both_def assign_def split: prod.split)
qed

lemma DeepCopyObject_eq:
  "ControlledJob_DeepCopyObject env p h = ControlledJob_DeepCopy env p h"
  "ControlledJobList_DeepCopyObject env p h = ControlledJobList_DeepCopy env p h"
  by (simp_all add: ControlledJob_DeepCopyObject_def ControlledJobList_DeepCopyObject_def split: prod.split option.split)

section \<open>Properties\<close>

text \<open>
  C40: \<^verbatim>\<open>DeepCopy\<close> of a ControlledJob is a deep copy, if those of its third-party parts are. The
  copy is a new object with the same value; nothing that was in memory changes; and whatever
  is written afterwards to memory that one of the two reaches leaves the value of the other
  as it was.
\<close>

theorem DeepCopy_independent:
  assumes "copier (dpObjectMeta env) valM reachM" "copier (dpJobTemplate env) valT reachT"
    and "heap_ok h" "val_ptr dJob (job_val valM valT) h (Some a) = Some (Some c)"
    and "ControlledJob_DeepCopy env (Some a) h = (p, h')"
  shows "val_ptr dJob (job_val valM valT) h' p = Some (Some c) \<and> p \<noteq> Some a \<and> (\<forall>b < hpNext h. hpCells h' b = hpCells h b)
    \<and> (\<forall>b cell. b \<in> reach_ptr dJob (job_reach reachM reachT) h' p \<longrightarrow>
          val_ptr dJob (job_val valM valT) (put_cell b cell h') (Some a) = Some (Some c))
    \<and> (\<forall>b cell. b \<in> reach_ptr dJob (job_reach reachM reachT) h' (Some a) \<longrightarrow>
          val_ptr dJob (job_val valM valT) (put_cell b cell h') p = Some (Some c))"
proof -
  have C: "copier (ControlledJob_DeepCopy env) (val_ptr dJob (job_val valM valT)) (reach_ptr dJob (job_reach reachM reachT))"
    unfolding ControlledJob_DeepCopy_def by (rule copier_ptr [OF job_copy [OF assms(1,2)]]) simp
  note c = copier.copies [OF C assms(3-5)] and i = copier.independent [OF C assms(3-5)]
  have "p \<noteq> Some a"
  proof
    assume "p = Some a"
    then have "hpNext h \<le> a" using c by (auto simp: reach_ptr_def)
    moreover have "hpCells h a \<noteq> None" using assms(4) by (auto simp: val_ptr_def cell_at_def split: option.splits)
    ultimately show False using assms(3) by (simp add: heap_ok_def)
  qed
  then show ?thesis using c i by (simp add: extends_def)
qed

section \<open>An instance\<close>

text \<open>Metadata with a map of annotations in memory, and a ControlledJob with an event, suspended.\<close>

type_synonym tiny_store = "(nat option, unit job_template_spec, unit, string \<rightharpoonup> string) store"

definition tiny_env :: "(nat option, unit job_template_spec, unit, string \<rightharpoonup> string) deep_env" where
  "tiny_env = \<lparr>dpObjectMeta = copy_ptr COther (cell_of is_COther cOther) Map.empty assign, dpListMeta = assign, dpJobTemplate = assign,
     dpZeroMeta = None, dpZeroListMeta = (),
     dpZeroTemplate = \<lparr>jtLabels = Map.empty, jtAnnotations = Map.empty, jtOther = [], jtSpec = \<lparr>jsSuspend = None, jsRest = ()\<rparr>\<rparr>\<rparr>"

definition tiny_meta :: "tiny_store \<Rightarrow> nat option \<Rightarrow> meta_value option" where
  "tiny_meta h m = map_option (\<lambda>annotations. (''cj'', ''ns'', ''uid'', 1, case annotations of None \<Rightarrow> Map.empty | Some as \<Rightarrow> as))
     (val_ptr (cell_of is_COther cOther) plain_val h m)"

definition tiny_job :: "(nat option, unit job_template_spec) h_controlled_job" where
  "tiny_job = \<lparr>hcTypeMeta = (''ControlledJob'', ''batch.gresearch.co.uk/v1''), hcObjectMeta = Some 0,
     hcSpec = (zero_spec (dpZeroTemplate tiny_env))\<lparr>hpEvents := Some (2, 0, 1), hpSuspend := Some 1\<rparr>, hcStatus = zero_status\<rparr>"

definition tiny_heap :: tiny_store where
  "tiny_heap = \<lparr>hpCells = [0 \<mapsto> COther [''team'' \<mapsto> ''a''], 1 \<mapsto> CBool True,
     2 \<mapsto> CEvents [\<lparr>heAction = EventTypeStart, heCronSchedule = [], heSchedule = Some 3\<rparr>],
     3 \<mapsto> CFriendly \<lparr>fsTimeOfDay = ''09:00'', fsDaysOfWeek = ''MON-FRI''\<rparr>, 4 \<mapsto> CJob tiny_job], hpNext = 5\<rparr>"

interpretation tiny: copier "dpObjectMeta tiny_env" tiny_meta "reach_ptr (cell_of is_COther cOther) plain_reach"
proof -
  have "copier (copy_ptr COther (cell_of is_COther cOther) Map.empty assign) (val_ptr (cell_of is_COther cOther) plain_val)
      (reach_ptr (cell_of is_COther cOther) plain_reach :: tiny_store \<Rightarrow> nat option \<Rightarrow> nat set)"
    by (intro copier_ptr copier_assign) (simp add: cell_of_def)
  then show "copier (dpObjectMeta tiny_env) tiny_meta (reach_ptr (cell_of is_COther cOther) plain_reach)"
    unfolding tiny_meta_def [abs_def] by (rule copier_struct) (simp add: tiny_env_def)
qed

theorem DeepCopy_independent_witness:
  "\<exists>p h' c. ControlledJob_DeepCopy tiny_env (Some 4) tiny_heap = (p, h') \<and> p \<noteq> Some 4 \<and> csSuspend (cjSpec (snd c)) = Some True
     \<and> val_ptr dJob (job_val tiny_meta plain_val) h' p = Some (Some c)"
proof -
  have T: "copier (dpJobTemplate tiny_env) plain_val plain_reach" by (simp add: tiny_env_def copier_assign)
  have "heap_ok tiny_heap" by (simp add: heap_ok_def tiny_heap_def)
  moreover have "\<exists>c. val_ptr dJob (job_val tiny_meta plain_val) tiny_heap (Some 4) = Some (Some c) \<and> csSuspend (cjSpec (snd c)) = Some True"
    by (simp add: val_ptr_def cell_at_def tiny_heap_def cell_of_def job_val_def job_parts_def tiny_job_def val_both_def tiny_meta_def
        spec_val_def spec_parts_def zero_spec_def val_slice_def event_val_def event_parts_def status_val_def status_parts_def zero_status_def)
  moreover obtain p h' where "ControlledJob_DeepCopy tiny_env (Some 4) tiny_heap = (p, h')" by fastforce
  ultimately show ?thesis using DeepCopy_independent [OF tiny.copier_axioms T] by blast
qed

end
