(* ===== verification/RemoteMutator.thy ===== *)
theory RemoteMutator
  imports JobBuilder
begin

text \<open>
  \<^verbatim>\<open>pkg/mutators/remote_mutator.go\<close>: the mutator that asks a webhook for a patch. Parameters, the
  fields of \<open>webhook_env\<close>: the JSON encoding of the review, building and sending the HTTP request,
  decoding the review in the response, decoding and applying a JSON patch (to the encoded job),
  and unmarshalling the result into the job. A pointer that may be nil in the response is an
  option: the review itself, its \<^verbatim>\<open>response\<close> and the \<^verbatim>\<open>status\<close> of a refusal.
\<close>

record admission_status =
  asCode :: int
  asReason :: string
  asMessage :: string

record admission_response =
  arAllowed :: bool
  arPatch :: string
  arResult :: "admission_status option"

record 'p admission_request =
  rqUID :: string
  rqKind :: "string \<times> string \<times> string"
  rqResource :: "string \<times> string \<times> string"
  rqName :: string
  rqNamespace :: string
  rqOperation :: string
  rqObject :: "'p job"

record http_response =
  hrStatusCode :: int
  hrBody :: "string outcome"

record ('p, 'patch) webhook_env =
  whUUID :: string
  whEncodeReview :: "'p admission_request \<Rightarrow> string"
  whNewRequest :: "string \<Rightarrow> string \<Rightarrow> go_error option"
  whDo :: "string \<Rightarrow> string \<Rightarrow> http_response outcome"
  whDecodeReview :: "string \<Rightarrow> admission_response option option outcome"
  whDecodePatch :: "string \<Rightarrow> 'patch outcome"
  whApplyPatch :: "'patch \<Rightarrow> 'p job \<Rightarrow> string outcome"
  whUnmarshalInto :: "string \<Rightarrow> 'p job \<Rightarrow> 'p job outcome"

definition buildAdmissionReview :: "string \<Rightarrow> 'p job \<Rightarrow> 'p admission_request" where
  "buildAdmissionReview uid job =
     \<lparr>rqUID = uid, rqKind = (''batch'', ''v1'', ''Job''), rqResource = (''batch'', ''v1'', ''jobs''),
      rqName = jobName job, rqNamespace = jobNamespace job, rqOperation = ''CREATE'', rqObject = job\<rparr>"

definition makeWebhookRequest ::
  "('p, 'patch) webhook_env \<Rightarrow> string \<Rightarrow> 'p admission_request \<Rightarrow> admission_response option outcome" where
  "makeWebhookRequest env url request =
     (let payload = whEncodeReview env request in
      case whNewRequest env url payload of
        Some e \<Rightarrow> Err (WrapErr e (''failed to build webhook request to '' @ url))
      | None \<Rightarrow>
          obind (wrap_err (''failed to send webhook request to '' @ url) (whDo env url payload)) (\<lambda>resp.
            if 300 \<le> hrStatusCode resp then
              obind (wrap_err (''webhook request returned status code '' @ itoa (hrStatusCode resp)
                  @ '', and failed to read body of response'') (hrBody resp)) (\<lambda>bodyBytes.
                Err (GoErr (''webhook request returned status code '' @ itoa (hrStatusCode resp) @ '': '' @ bodyBytes)))
            else
              obind (wrap_err ''failed to read response as AdmissionReview resource''
                  (obind (hrBody resp) (whDecodeReview env))) (\<lambda>response.
                case response of None \<Rightarrow> Panic | Some r \<Rightarrow> Ok r)))"

definition applyReview ::
  "('p, 'patch) webhook_env \<Rightarrow> 'p job \<Rightarrow> admission_response option \<Rightarrow> 'p job outcome" where
  "applyReview env job response =
     (case response of
        None \<Rightarrow> Panic
      | Some r \<Rightarrow>
          if \<not> arAllowed r then
            (case arResult r of
               None \<Rightarrow> Panic
             | Some st \<Rightarrow> Err (GoErr (''failed to mutate job: '' @ itoa (asCode st) @ '' '' @ asReason st
                 @ '' - '' @ asMessage st)))
          else if arPatch r = [] then Ok job
          else
            obind (wrap_err ''failed to decode JSONPatch'' (whDecodePatch env (arPatch r))) (\<lambda>patchObj.
            obind (wrap_err ''failed to apply JSONPatch'' (whApplyPatch env patchObj job)) (\<lambda>res.
            wrap_err ''failed to unmarshal result back to a Job object'' (whUnmarshalInto env res job))))"

definition remoteApply :: "('p, 'patch) webhook_env \<Rightarrow> string \<Rightarrow> 'p job \<Rightarrow> 'p job outcome" where
  "remoteApply env remoteUrl job =
     obind (makeWebhookRequest env remoteUrl (buildAdmissionReview (whUUID env) job)) (applyReview env job)"

definition remoteMutator :: "('p, 'patch) webhook_env \<Rightarrow> string \<Rightarrow> 'p mutator" where
  "remoteMutator env url = \<lparr>mutId = 0, mutName = ''remote'', mutApply = remoteApply env url\<rparr>"

definition EnableRemoteMutator :: "('p, 'patch) webhook_env \<Rightarrow> string \<Rightarrow> 'p registry \<Rightarrow> 'p registry outcome" where
  "EnableRemoteMutator env url reg = Register (remoteMutator env url) reg"

section \<open>Properties\<close>

text \<open>What the webhook answered: a review was received and decoded.\<close>

definition reviewed :: "('p, 'patch) webhook_env \<Rightarrow> string \<Rightarrow> 'p job \<Rightarrow> admission_response option option \<Rightarrow> bool" where
  "reviewed env url job review \<longleftrightarrow>
     (\<exists>resp body. let payload = whEncodeReview env (buildAdmissionReview (whUUID env) job) in
        whNewRequest env url payload = None \<and> whDo env url payload = Ok resp \<and> hrStatusCode resp < 300
        \<and> hrBody resp = Ok body \<and> whDecodeReview env body = Ok review)"

definition no_panics :: "('p, 'patch) webhook_env \<Rightarrow> bool" where
  "no_panics env \<longleftrightarrow> (\<forall>url p. whDo env url p \<noteq> Panic) \<and> (\<forall>url p r. whDo env url p = Ok r \<longrightarrow> hrBody r \<noteq> Panic)
     \<and> (\<forall>b. whDecodeReview env b \<noteq> Panic) \<and> (\<forall>p. whDecodePatch env p \<noteq> Panic)
     \<and> (\<forall>p j. whApplyPatch env p j \<noteq> Panic) \<and> (\<forall>s j. whUnmarshalInto env s j \<noteq> Panic)"

text \<open>
  The remote mutator panics, and takes the operator down, exactly when the webhook answers with
  a decodable review that is null, or has no response, or refuses the job without a status, all
  of which the JSON of a review allows (the libraries used do not panic themselves). A refusal
  is otherwise an error, and an empty patch leaves the job as it is.
\<close>

theorem remote_mutator_panics:
  assumes "no_panics env"
  shows "remoteApply env url job = Panic \<longleftrightarrow>
    (\<exists>review. reviewed env url job review
       \<and> (case review of None \<Rightarrow> True | Some None \<Rightarrow> True | Some (Some r) \<Rightarrow> \<not> arAllowed r \<and> arResult r = None))"
proof -
  let ?payload = "whEncodeReview env (buildAdmissionReview (whUUID env) job)"
  have req: "makeWebhookRequest env url (buildAdmissionReview (whUUID env) job) = Panic \<longleftrightarrow> reviewed env url job None"
    using assms
    by (auto simp: makeWebhookRequest_def Let_def reviewed_def outcome_eqs no_panics_def split: option.splits if_splits)
  have ok: "makeWebhookRequest env url (buildAdmissionReview (whUUID env) job) = Ok r \<longleftrightarrow> reviewed env url job (Some r)" for r
  proof
    assume "makeWebhookRequest env url (buildAdmissionReview (whUUID env) job) = Ok r"
    then show "reviewed env url job (Some r)"
      by (auto simp: makeWebhookRequest_def Let_def reviewed_def outcome_eqs split: option.splits if_splits)
  next
    assume "reviewed env url job (Some r)"
    then show "makeWebhookRequest env url (buildAdmissionReview (whUUID env) job) = Ok r"
      by (auto simp: makeWebhookRequest_def Let_def reviewed_def)
  qed
  have "applyReview env job r = Panic \<longleftrightarrow> (case r of None \<Rightarrow> True | Some r \<Rightarrow> \<not> arAllowed r \<and> arResult r = None)" for r
    using assms by (auto simp: applyReview_def outcome_eqs no_panics_def split: option.splits)
  then have "remoteApply env url job = Panic \<longleftrightarrow> reviewed env url job None
      \<or> (\<exists>r. reviewed env url job (Some r) \<and> (case r of None \<Rightarrow> True | Some r \<Rightarrow> \<not> arAllowed r \<and> arResult r = None))"
    unfolding remoteApply_def obind_eq_Panic req ok by simp
  then show ?thesis by (simp add: split_option_ex)
qed

definition null_webhook :: "(unit, unit) webhook_env" where
  "null_webhook = \<lparr>whUUID = ''u'', whEncodeReview = (\<lambda>_. ''{}''), whNewRequest = (\<lambda>_ _. None),
     whDo = (\<lambda>_ _. Ok \<lparr>hrStatusCode = 200, hrBody = Ok ''{}''\<rparr>), whDecodeReview = (\<lambda>_. Ok (Some None)),
     whDecodePatch = (\<lambda>_. Ok ()), whApplyPatch = (\<lambda>_ _. Ok ''{}''), whUnmarshalInto = (\<lambda>_ j. Ok j)\<rparr>"

theorem remote_mutator_panics_witness: "remoteApply null_webhook ''http://w'' built_job = Panic"
proof -
  have "no_panics null_webhook" by (simp add: no_panics_def null_webhook_def)
  moreover have "reviewed null_webhook ''http://w'' built_job (Some None)" by (simp add: reviewed_def null_webhook_def)
  ultimately show ?thesis using remote_mutator_panics [of null_webhook "''http://w''" built_job] by force
qed

end
