(* ===== verification/GenerateJob.thy ===== *)
theory GenerateJob
  imports Choice RemoteMutator
begin

text \<open>
  \<^verbatim>\<open>cli/util/generate_job.go\<close>, the command \<^verbatim>\<open>generate-job\<close>: it reads a ControlledJob from standard
  input and prints the job the operator would make of it. Parameters, the fields of \<open>cli_env\<close>:
  reading standard input, and the JSON decoder and encoder. \<open>cli_context\<close> has the values of the
  flags as the command-line library hands them out.
\<close>

section \<open>The command\<close>

record 'p cli_env =
  clReadStdin :: "string outcome"
  clUnmarshal :: "string \<Rightarrow> 'p controlled_job outcome"
  clMarshalIndent :: "'p job \<Rightarrow> string outcome"

record cli_context =
  cxScheduledAt :: "gotime option"
  cxJobRunId :: int
  cxManuallyScheduled :: bool
  cxStartSuspended :: bool
  cxWebhookUrl :: string

text \<open>\<^verbatim>\<open>if err != nil { panic(err) }\<close>\<close>

definition orPanic :: "'a outcome \<Rightarrow> 'a outcome" where
  "orPanic r = (case r of Err e \<Rightarrow> Panic | _ \<Rightarrow> r)"

definition enableIfSet :: "('p, 'patch) webhook_env \<Rightarrow> string \<Rightarrow> 'p registry \<Rightarrow> 'p registry outcome" where
  "enableIfSet wh url reg = (if url \<noteq> [] then EnableRemoteMutator wh url reg else Ok reg)"

text \<open>The result is what is printed. The registry is empty when the program starts.\<close>

definition DoGenerateJob ::
  "('p, 'patch) webhook_env \<Rightarrow> 'p job_env \<Rightarrow> 'p cli_env \<Rightarrow> cli_context \<Rightarrow> string outcome" where
  "DoGenerateJob wh jobs env c =
     obind (orPanic (enableIfSet wh (cxWebhookUrl c) Map.empty)) (\<lambda>mutators.
     obind (orPanic (clReadStdin env)) (\<lambda>stdin.
     obind (orPanic (clUnmarshal env stdin)) (\<lambda>controlledJob.
     case cxScheduledAt c of
       None \<Rightarrow> Panic
     | Some scheduledAt \<Rightarrow>
         obind (orPanic (BuildForControlledJob (jobs\<lparr>jeMutators := mutators\<rparr>) controlledJob scheduledAt
             (cxJobRunId c) (cxManuallyScheduled c) (cxStartSuspended c))) (\<lambda>job.
         obind (orPanic (clMarshalIndent env job)) (\<lambda>jobJson. Ok (jobJson @ [CHR 0x0A]))))))"

section \<open>The same start time\<close>

lemma format_reads_same:
  assumes "off = zone_offset (locOf t) (time_unix t)" "t' = \<lparr>instant = time_sec t * nano, locOf = fixed_zone [] off\<rparr>"
  shows "format_rfc3339 t' = format_rfc3339 t" "JobName n t' i = JobName n t i"
proof -
  have s: "time_sec t' = time_sec t" by (simp add: assms(2) time_sec_def)
  then have u: "time_unix t' = time_unix t" by (simp add: time_unix_def)
  then have z: "zone_offset (locOf t') (time_unix t') = off" by (simp add: assms(2))
  have "local_sec t' = local_sec t" using s z by (simp add: local_sec_def assms(1))
  then show "format_rfc3339 t' = format_rfc3339 t"
    by (simp only: format_rfc3339_def z assms(1) [symmetric] time_year_def time_month_def time_day_def time_hour_def
        time_minute_def time_second_def)
  show "JobName n t' i = JobName n t i" by (simp add: JobName_def u)
qed

lemma buildJob_reads_same:
  assumes "format_rfc3339 t' = format_rfc3339 t" "\<And>n i. JobName n t' i = JobName n t i"
  shows "buildJob env c t' i manual susp = buildJob env c t i manual susp"
  by (simp add: buildJob_def newJobFor_def jobAnnotationsFor_def assms)

section \<open>Properties\<close>

text \<open>
  C33: \<^verbatim>\<open>generate-job\<close> agrees with the operator. Let a decision that is not suspended succeed, and let
  it ask for a job of start time \<open>t\<close>, run id \<open>i\<close> and manual flag \<open>manual\<close>. Then the decision creates
  one job, and \<^verbatim>\<open>generate-job\<close> prints its JSON when it is given the same ControlledJob (the status may
  differ), the start time as RFC 3339 text, \<open>i\<close>, \<open>manual\<close>, \<^verbatim>\<open>--start-suspended\<close> and the webhook the
  operator runs with; but when every listed job is completed, the operator clears the suspend
  flag, which the printed job has set.
\<close>

theorem generate_job_agrees:
  assumes "makeDecision env w jobs now en = Return d None" "buildState env (cj w) jobs now = Ok st" "\<not> rsIsSuspended st"
    and "job_request st (en \<and> rsAutoRestartIsEnabled st) jobs = Some (t, i, manual)"
    and "status_blind (opJobs env)" "enableIfSet wh url Map.empty = Ok (jeMutators (opJobs env))"
    and "clReadStdin cl = Ok stdin" "clUnmarshal cl stdin = Ok c" "same_but_status (cj w) c"
    and "0 \<le> time_year t" "time_year t \<le> 9999"
    and "off = zone_offset (locOf t) (time_unix t)" "off mod 60 = 0" "\<bar>off\<bar> \<le> 86400"
    and "\<And>job. \<exists>json. clMarshalIndent cl job = Ok json"
  shows "\<exists>job json. jobs_at d (dCreate d) = [as_created jobs job] \<and> clMarshalIndent cl job = Ok json
    \<and> DoGenerateJob wh (opJobs env) cl
        \<lparr>cxScheduledAt = parse_rfc3339 (format_rfc3339 t), cxJobRunId = i, cxManuallyScheduled = manual, cxStartSuspended = True,
         cxWebhookUrl = url\<rparr> = Ok (json @ [CHR 0x0A])"
proof -
  let ?t = "\<lparr>instant = time_sec t * nano, locOf = fixed_zone [] off\<rparr>"
  obtain c' job where job: "same_but_status (cj w) c'" "buildJob (opJobs env) c' t i manual True = Ok job"
    "jobs_at d (dCreate d) = [as_created jobs job]"
    using decision_creates [OF assms(1-3)] assms(4) by auto
  obtain json where json: "clMarshalIndent cl job = Ok json" using assms(15) by blast
  have "buildJob (opJobs env) c ?t i manual True = buildJob (opJobs env) c t i manual True"
    using buildJob_reads_same format_reads_same [OF assms(12) refl] by blast
  also have "\<dots> = buildJob (opJobs env) c' t i manual True"
    using buildJob_blind [OF assms(5) assms(9)] buildJob_blind [OF assms(5) job(1)] by simp
  finally have "BuildForControlledJob (opJobs env) c ?t i manual True = Ok job"
    by (simp add: BuildForControlledJob_def job(2))
  moreover have "parse_rfc3339 (format_rfc3339 t) = Some ?t" by (rule parse_format [OF assms(10-14)])
  ultimately show ?thesis
    using job(3) json assms(6-8)
    by (intro exI [of _ job] exI [of _ json]) (simp add: DoGenerateJob_def orPanic_def)
qed

text \<open>Every error ends the command with a panic: it prints a job or nothing.\<close>

lemma orPanic_bind: "(\<And>x. f x \<noteq> Err e) \<Longrightarrow> obind (orPanic r) f \<noteq> Err e"
  by (cases r) (simp_all add: orPanic_def)

lemma generate_job_no_error: "DoGenerateJob wh jobs env c \<noteq> Err e"
  unfolding DoGenerateJob_def by (cases "cxScheduledAt c") (simp_all add: orPanic_bind)

end
