(* ===== verification/JobView.thy ===== *)
theory JobView
  imports Choice
begin

text \<open>
  What a decision reads of the listed jobs is what the operator itself has written on them
  (\<open>same_operator_view\<close>): jobs that agree on this are treated alike.
\<close>

definition alike :: "'p job list \<Rightarrow> 'p job list \<Rightarrow> bool" where
  "alike = list_all2 same_operator_view"

lemma alike_length: "alike jobs jobs' \<Longrightarrow> length jobs' = length jobs"
  by (simp add: alike_def list_all2_lengthD)

lemma alike_nth: "alike jobs jobs' \<Longrightarrow> a < length jobs \<Longrightarrow> same_operator_view (jobs ! a) (jobs' ! a)"
  by (simp add: alike_def list_all2_nthD)

lemma view_compared:
  assumes "same_operator_view j j'"
  shows "isExpired st j' = isExpired st j" "isOutOfDate j' st = isOutOfDate j st"
    "IsJobPotentiallyRunning j' = IsJobPotentiallyRunning j" "replaced st r j' = replaced st r j"
    "can_unsuspend j' = can_unsuspend j"
    "same_operator_view k k' \<Longrightarrow> isBetterCandidateJob j' k' st = isBetterCandidateJob j k st"
  using view_readers [OF assms] view_readers [of k k']
  by (simp_all add: isExpired_def isOutOfDate_def IsJobPotentiallyRunning_def replaced_def can_unsuspend_def isBetterCandidateJob_def
      cong: option.case_cong outcome.case_cong)

lemma pick_alike:
  assumes "list_all2 (rel_option same_operator_view) xs xs'" "rel_option (rel_prod same_operator_view (=)) best best'"
  shows "rel_option (rel_prod same_operator_view (=)) (pick (\<lambda>j c. isBetterCandidateJob j c st) i best xs)
    (pick (\<lambda>j c. isBetterCandidateJob j c st) i best' xs')"
  using assms
proof (induction xs xs' arbitrary: i best best' rule: list_all2_induct)
  case (Cons x xs x' xs')
  show ?case
  proof (cases x)
    case None
    then show ?thesis using Cons by simp
  next
    case (Some j)
    then obtain j' where x': "x' = Some j'" "same_operator_view j j'" using Cons.hyps(1) by (auto simp: option_rel_Some1)
    have "rel_option (rel_prod same_operator_view (=))
        (case best of None \<Rightarrow> Some (j, i) | Some (b, k) \<Rightarrow> if isBetterCandidateJob j b st then Some (j, i) else best)
        (case best' of None \<Rightarrow> Some (j', i) | Some (b, k) \<Rightarrow> if isBetterCandidateJob j' b st then Some (j', i) else best')"
      using Cons.prems view_compared(6) [OF x'(2)] x'(2) by (cases best; cases best') auto
    then show ?thesis using Cons.IH by (simp add: Some x'(1))
  qed
qed simp

lemma alike_choice:
  assumes "alike jobs jobs'"
  shows "currentChoice st jobs' = currentChoice st jobs"
proof -
  have "list_all2 (rel_option same_operator_view) (map (\<lambda>job. if isExpired st job then None else Some job) jobs)
      (map (\<lambda>job. if isExpired st job then None else Some job) jobs')"
    using assms view_compared(1) by (fastforce simp: alike_def list_all2_conv_all_nth)
  from pick_alike [OF this, of None None st 0]
  have best: "bestCurrent st jobs' = bestCurrent st jobs" by (auto simp: bestCurrent_def elim!: option.rel_cases)
  show ?thesis
  proof (cases "bestCurrent st jobs")
    case (Some a)
    then have "a < length jobs" by (rule bestCurrent_Some(1))
    then show ?thesis using Some best view_readers(3) [OF alike_nth [OF assms]] by (simp add: currentChoice_def)
  qed (simp add: currentChoice_def best)
qed

lemma alike_counts:
  assumes "alike jobs jobs'"
  shows "running_count jobs' = running_count jobs" "list_all IsJobCompleted jobs' = list_all IsJobCompleted jobs"
    "maxRunId jobs' = maxRunId jobs"
proof -
  have "filter (\<lambda>a. IsJobPotentiallyRunning (jobs' ! a)) [0..<length jobs'] = filter (\<lambda>a. IsJobPotentiallyRunning (jobs ! a)) [0..<length jobs]"
    using alike_length [OF assms] view_compared(3) [OF alike_nth [OF assms]] by (auto intro: filter_cong)
  then show "running_count jobs' = running_count jobs" by (simp add: running_count_def)
  show "list_all IsJobCompleted jobs' = list_all IsJobCompleted jobs"
    using alike_length [OF assms] view_readers(8) [OF alike_nth [OF assms]] by (auto simp: list_all_length)
  have "List.map_filter (\<lambda>job. case GetJobRunId job of Ok r \<Rightarrow> Some r | _ \<Rightarrow> None) jobs'
      = List.map_filter (\<lambda>job. case GetJobRunId job of Ok r \<Rightarrow> Some r | _ \<Rightarrow> None) jobs"
    using assms unfolding alike_def by (induction rule: list_all2_induct) (auto simp: List.map_filter_def view_readers(2))
  then show "maxRunId jobs' = maxRunId jobs" by (simp add: maxRunId_def)
qed

lemma alike_request:
  assumes "alike jobs jobs'"
  shows "job_request st r jobs' = job_request st r jobs" "recreate_due st r jobs' = recreate_due st r jobs"
proof -
  note c = alike_choice [OF assms, of st]
  have both: "job_request st r jobs' = job_request st r jobs \<and> recreate_due st r jobs' = recreate_due st r jobs"
  proof (cases "currentChoice st jobs")
    case (Some a)
    then have v: "same_operator_view (jobs ! a) (jobs' ! a)"
      using alike_nth [OF assms] bestCurrent_Some(1) currentChoice_Some(1) by blast
    then show ?thesis
      using Some c view_readers(1,3) [OF v] view_compared(4) [OF v] alike_counts(3) [OF assms]
      by (simp add: job_request_def chosenJob_def recreate_due_chosen cong: outcome.case_cong)
  qed (simp add: job_request_def chosenJob_def recreate_due_chosen c)
  then show "job_request st r jobs' = job_request st r jobs" "recreate_due st r jobs' = recreate_due st r jobs" by blast+
qed

lemma buildState_length: "length jobs' = length jobs \<Longrightarrow> buildState env c jobs' now = buildState env c jobs now"
  by (simp add: buildState_def)

text \<open>The deletions and the unsuspended job of a decision, as indices.\<close>

lemma decided_deletions:
  assumes "decided env st r now c jobs new d"
  shows "dDelete (deleteStep d) =
      filter (\<lambda>a. \<not> IsJobBeingDeleted (jobs ! a)) (filter (\<lambda>a. isExpired st (jobs ! a)) [0..<length jobs])
      @ filter (\<lambda>a. \<not> IsJobBeingDeleted (jobs ! a) \<and> \<not> (Some a = dChosen d \<or> IsJobCompleted (jobs ! a)))
          (filter (\<lambda>a. \<not> isExpired st (jobs ! a)) [0..<length jobs])"
proof -
  have cell: "dStore d ! a = jobs ! a" if "a < length jobs" for a using decided_store(1) [OF assms that] .
  have "filter (\<lambda>a. \<not> IsJobBeingDeleted (dStore d ! a) \<and> \<not> (Some a = dChosen d \<or> IsJobCompleted (dStore d ! a))) (dCreate d) = []"
    using assms by (cases new) (simp_all add: decided_def)
  then show ?thesis
    using assms cell by (auto simp: deleteStep_def decided_def simp del: filter_filter intro!: arg_cong2 [of _ _ _ _ append] filter_cong)
qed

lemma decided_unsuspends:
  assumes "decided env st r now c jobs new d"
  shows "dUnsuspend (unsuspendStep (deleteStep d)) = (case new of
      Some _ \<Rightarrow> []
    | None \<Rightarrow> (case currentChoice st jobs of None \<Rightarrow> []
        | Some a \<Rightarrow> if running_count jobs = 1 \<and> can_unsuspend (jobs ! a) then [a] else []))"
  using assms by (auto simp: decided_def unsuspendStep_def can_unsuspend_def Let_def split: option.splits)

lemma alike_decisions:
  assumes "alike jobs jobs'" "makeDecision env w jobs now en = Return d None" "makeDecision env w jobs' now en = Return d' None"
    and "buildState env (cj w) jobs now = Ok st" "\<not> rsIsSuspended st" "status_blind (opJobs env)"
  shows "dDelete d' = dDelete d \<and> dUnsuspend d' = dUnsuspend d \<and> dCreate d' = dCreate d
    \<and> jobs_at d' (dCreate d') = jobs_at d (dCreate d)"
proof -
  let ?r = "en \<and> rsAutoRestartIsEnabled st"
  have st': "buildState env (cj w) jobs' now = Ok st" using buildState_length [OF alike_length [OF assms(1)]] assms(4) by simp
  obtain new d4 where dec: "decided env st ?r now (cj w) jobs new d4" "dCreate d = dCreate d4"
    "dDelete d = dDelete (deleteStep d4)" "dUnsuspend d = dUnsuspend (unsuspendStep (deleteStep d4))"
    "new \<noteq> None \<longleftrightarrow> recreate_due st ?r jobs \<or> shouldRun st \<and> currentChoice st jobs = None"
    using decision_cases [OF assms(2,4,5)] by metis
  obtain new' d4' where dec': "decided env st ?r now (cj w) jobs' new' d4'" "dCreate d' = dCreate d4'"
    "dDelete d' = dDelete (deleteStep d4')" "dUnsuspend d' = dUnsuspend (unsuspendStep (deleteStep d4'))"
    "new' \<noteq> None \<longleftrightarrow> recreate_due st ?r jobs' \<or> shouldRun st \<and> currentChoice st jobs' = None"
    using decision_cases [OF assms(3) st' assms(5)] by metis
  note len = alike_length [OF assms(1)] and c = alike_choice [OF assms(1)] and nth = alike_nth [OF assms(1)]
  note read = view_readers [OF nth] view_compared [OF nth]
  have new: "new' = None \<longleftrightarrow> new = None" using dec(5) dec'(5) c alike_request(2) [OF assms(1)] by metis
  then have fields: "dChosen d4' = dChosen d4" "dCreate d4' = dCreate d4"
    using dec(1) dec'(1) c len by (auto simp: decided_def split: option.splits)
  have "dDelete d' = dDelete d"
    unfolding dec(3) dec'(3) decided_deletions [OF dec(1)] decided_deletions [OF dec'(1)] fields len
    by (intro arg_cong2 [of _ _ _ _ append]; auto simp: read simp del: filter_filter intro!: filter_cong)
  moreover have "dUnsuspend d' = dUnsuspend d"
    unfolding dec(4) dec'(4) decided_unsuspends [OF dec(1)] decided_unsuspends [OF dec'(1)] c
    using new alike_counts(1) [OF assms(1)] bestCurrent_Some(1) [OF currentChoice_Some(1), of st jobs]
    by (auto simp: read split: option.split)
  moreover have "jobs_at d' (dCreate d') = jobs_at d (dCreate d)"
  proof (cases "job_request st ?r jobs")
    case None
    then show ?thesis
      using decision_creates [OF assms(2,4,5)] decision_creates [OF assms(3) st' assms(5)] alike_request(1) [OF assms(1)]
      by (simp add: jobs_at_def)
  next
    case (Some q)
    obtain t i manual where q: "q = (t, i, manual)" by (cases q)
    obtain c1 job1 where 1: "same_but_status (cj w) c1" "buildJob (opJobs env) c1 t i manual True = Ok job1"
      "jobs_at d (dCreate d) = [as_created jobs job1]"
      using decision_creates [OF assms(2,4,5)] by (auto simp: Some q)
    obtain c2 job2 where 2: "same_but_status (cj w) c2" "buildJob (opJobs env) c2 t i manual True = Ok job2"
      "jobs_at d' (dCreate d') = [as_created jobs' job2]"
      using decision_creates [OF assms(3) st' assms(5)] alike_request(1) [OF assms(1)] by (auto simp: Some q)
    have "job2 = job1"
      using 1(2) 2(2) buildJob_blind [OF assms(6) 1(1)] buildJob_blind [OF assms(6) 2(1)] by simp
    then show ?thesis using 1(3) 2(3) alike_counts(2) [OF assms(1)] by (simp add: as_created_def)
  qed
  ultimately show ?thesis using dec(2) dec'(2) fields(2) by simp
qed

end
