(* ===== verification/Fixtures.thy ===== *)
theory Fixtures
  imports JobView Reconcile
begin

text \<open>
  The test helpers \<^verbatim>\<open>pkg/testhelpers\<close> and \<^verbatim>\<open>pkg/metadata/testhelpers.go\<close>: ControlledJobs and jobs
  built from options, functions that change the object they are given and are applied in order.
  \<open>zero\<close> is the zero value of the part of a job spec the operator never reads; of it only the pod
  template (\<open>pod_template\<close>) has options. Clock readings and random numbers are arguments.
\<close>

section \<open>Pods and templates\<close>

record container =
  ctName :: string
  ctImage :: string

record pod_spec =
  psContainers :: "container list"
  psRestartPolicy :: string

record pod_template =
  ptLabels :: "string \<rightharpoonup> string"
  ptAnnotations :: "string \<rightharpoonup> string"
  ptSpec :: pod_spec

definition apply_options :: "('a \<Rightarrow> 'a) list \<Rightarrow> 'a \<Rightarrow> 'a" where
  "apply_options opts obj = fold (\<lambda>opt. opt) opts obj"

definition NewPodTemplate :: "(pod_template \<Rightarrow> pod_template) list \<Rightarrow> pod_template" where
  "NewPodTemplate opts = apply_options opts
     \<lparr>ptLabels = Map.empty, ptAnnotations = Map.empty, ptSpec = \<lparr>psContainers = [], psRestartPolicy = []\<rparr>\<rparr>"

definition WithPodSpec :: "pod_spec \<Rightarrow> pod_template \<Rightarrow> pod_template" where
  "WithPodSpec podSpec t = t\<lparr>ptSpec := podSpec\<rparr>"

definition DefaultPodSpec :: pod_spec where
  "DefaultPodSpec = \<lparr>psContainers = [\<lparr>ctName = ''test-container'', ctImage = ''test-image''\<rparr>], psRestartPolicy = ''OnFailure''\<rparr>"

definition NewJobTemplate :: "'p \<Rightarrow> ('p job_template_spec \<Rightarrow> 'p job_template_spec) list \<Rightarrow> 'p job_template_spec" where
  "NewJobTemplate zero opts = apply_options opts
     \<lparr>jtLabels = Map.empty, jtAnnotations = Map.empty, jtOther = [],
      jtSpec = \<lparr>jsSuspend = None, jsRest = zero\<rparr>\<rparr>"

definition WithJobTemplateAnnotations :: "(string \<rightharpoonup> string) \<Rightarrow> 'p job_template_spec \<Rightarrow> 'p job_template_spec" where
  "WithJobTemplateAnnotations a t = t\<lparr>jtAnnotations := a\<rparr>"

definition WithJobTemplateLabels :: "(string \<rightharpoonup> string) \<Rightarrow> 'p job_template_spec \<Rightarrow> 'p job_template_spec" where
  "WithJobTemplateLabels l t = t\<lparr>jtLabels := l\<rparr>"

definition WithPodTemplate :: "pod_template \<Rightarrow> pod_template job_template_spec \<Rightarrow> pod_template job_template_spec" where
  "WithPodTemplate podTemplate t = t\<lparr>jtSpec := (jtSpec t)\<lparr>jsRest := podTemplate\<rparr>\<rparr>"

definition DefaultJobTemplate :: "pod_template job_template_spec" where
  "DefaultJobTemplate = NewJobTemplate (NewPodTemplate []) [WithPodTemplate (NewPodTemplate [WithPodSpec DefaultPodSpec])]"

section \<open>Jobs\<close>

definition DefaultNamespace :: string where
  "DefaultNamespace = ''ns''"

definition NewJobInNamespace :: "'p \<Rightarrow> string \<Rightarrow> string \<Rightarrow> ('p job \<Rightarrow> 'p job) list \<Rightarrow> 'p job" where
  "NewJobInNamespace zero name namespace opts = apply_options opts
     \<lparr>jobName = name, jobNamespace = namespace, jobLabels = Map.empty, jobAnnotations = Map.empty, jobOwnerReferences = [],
      jobDeletionTimestamp = None, jobSpec = \<lparr>jsSuspend = None, jsRest = zero\<rparr>, jobConditions = [],
      jobReady = None, jobActive = 0\<rparr>"

definition NewJob :: "'p \<Rightarrow> string \<Rightarrow> ('p job \<Rightarrow> 'p job) list \<Rightarrow> 'p job" where
  "NewJob zero name opts = NewJobInNamespace zero name DefaultNamespace opts"

definition WithJobName :: "string \<Rightarrow> 'p job \<Rightarrow> 'p job" where
  "WithJobName name job = job\<lparr>jobName := name\<rparr>"

definition WithJobAnnotations :: "(string \<rightharpoonup> string) \<Rightarrow> 'p job \<Rightarrow> 'p job" where
  "WithJobAnnotations a job = job\<lparr>jobAnnotations := a\<rparr>"

definition WithJobLabels :: "(string \<rightharpoonup> string) \<Rightarrow> 'p job \<Rightarrow> 'p job" where
  "WithJobLabels l job = job\<lparr>jobLabels := l\<rparr>"

definition WithTemplate :: "'p job_template_spec \<Rightarrow> 'p job \<Rightarrow> 'p job" where
  "WithTemplate jobTemplate job = job\<lparr>jobSpec := jtSpec jobTemplate\<rparr>"

definition WithSuspendFlag :: "bool option \<Rightarrow> 'p job \<Rightarrow> 'p job" where
  "WithSuspendFlag flag job = job\<lparr>jobSpec := (jobSpec job)\<lparr>jsSuspend := flag\<rparr>\<rparr>"

definition IsSuspended :: "bool \<Rightarrow> 'p job \<Rightarrow> 'p job" where
  "IsSuspended suspend job = job\<lparr>jobSpec := (jobSpec job)\<lparr>jsSuspend := Some suspend\<rparr>\<rparr>"

definition WithCondition :: "job_condition \<Rightarrow> 'p job \<Rightarrow> 'p job" where
  "WithCondition condition job = job\<lparr>jobConditions := jobConditions job @ [condition]\<rparr>"

definition HasSucceeded :: "'p job \<Rightarrow> 'p job" where
  "HasSucceeded = WithCondition \<lparr>jcType = JobComplete, jcStatus = ConditionTrue\<rparr>"

definition WithJobDeletionTimestamp :: "gotime option \<Rightarrow> 'p job \<Rightarrow> 'p job" where
  "WithJobDeletionTimestamp timestamp job = job\<lparr>jobDeletionTimestamp := timestamp\<rparr>"

definition IsBeingDeleted :: "gotime \<Rightarrow> 'p job \<Rightarrow> 'p job" where
  "IsBeingDeleted now job = job\<lparr>jobDeletionTimestamp := Some now\<rparr>"

definition WithJobAnnotation :: "string \<Rightarrow> string \<Rightarrow> 'p job \<Rightarrow> 'p job" where
  "WithJobAnnotation name v job = job\<lparr>jobAnnotations := (jobAnnotations job)(name \<mapsto> v)\<rparr>"

definition WithActiveCount :: "32 word \<Rightarrow> 'p job \<Rightarrow> 'p job" where
  "WithActiveCount activeCount job = job\<lparr>jobActive := activeCount\<rparr>"

definition WithReadyCount :: "32 word \<Rightarrow> 'p job \<Rightarrow> 'p job" where
  "WithReadyCount readyCount job = job\<lparr>jobReady := Some readyCount\<rparr>"

text \<open>\<^verbatim>\<open>pkg/metadata/testhelpers.go\<close>; \<open>hash\<close> is the hash of a template, as in \<open>job_env\<close>.\<close>

definition WithScheduledTimeAnnotation :: "gotime \<Rightarrow> 'p job \<Rightarrow> 'p job" where
  "WithScheduledTimeAnnotation scheduledTime = WithJobAnnotation ScheduledTimeAnnotation (format_rfc3339 scheduledTime)"

definition WithJobRunIdx :: "int \<Rightarrow> 'p job \<Rightarrow> 'p job" where
  "WithJobRunIdx idx = WithJobAnnotation JobRunIdAnnotation (itoa idx)"

definition WithControlledJobAnnotations ::
  "('p job_template_spec \<Rightarrow> string) \<Rightarrow> gotime \<Rightarrow> int \<Rightarrow> bool \<Rightarrow> 'p job_template_spec \<Rightarrow> 'p job \<Rightarrow> 'p job" where
  "WithControlledJobAnnotations hash scheduledTime jobIdx manuallyScheduled jobTemplate job =
     (let a1 = (jobAnnotations job)(ScheduledTimeAnnotation \<mapsto> format_rfc3339 scheduledTime, JobRunIdAnnotation \<mapsto> itoa jobIdx);
          a2 = (if manuallyScheduled then a1(ManualJobAnnotation \<mapsto> ''true'') else a1)
      in job\<lparr>jobAnnotations := a2(TemplateHashAnnotation \<mapsto> CalculateHashFor hash jobTemplate)\<rparr>)"

definition WithControlledJobMetadata ::
  "('p job_template_spec \<Rightarrow> string) \<Rightarrow> string \<Rightarrow> string \<Rightarrow> gotime \<Rightarrow> int \<Rightarrow> 'p job_template_spec \<Rightarrow> 'p job \<Rightarrow> 'p job" where
  "WithControlledJobMetadata hash name uid scheduledTime jobIdx jobTemplate job =
     (let job1 = WithControlledJobAnnotations hash scheduledTime jobIdx False jobTemplate job
      in job1\<lparr>jobLabels := (jobLabels job1)(ControlledJobLabel \<mapsto> name),
              jobOwnerReferences := [\<lparr>orAPIVersion = ApiGVStr, orKind = ''ControlledJob'', orName = name, orUID = uid,
                orController = Some True, orBlockOwnerDeletion = Some True\<rparr>]\<rparr>)"

section \<open>ControlledJobs\<close>

definition letterBytes :: string where
  "letterBytes = ''abcdefghijklmnopqrstuvwxyz''"

text \<open>\<open>rands\<close> are six numbers below the length of \<open>letterBytes\<close>.\<close>

definition RandomControlledJobName :: "nat list \<Rightarrow> string \<Rightarrow> string" where
  "RandomControlledJobName rands baseName = baseName @ map (\<lambda>r. letterBytes ! r) (take 6 rands)"

definition NewControlledJobInNamepsace :: "'p \<Rightarrow> string \<Rightarrow> string \<Rightarrow> ('p controlled_job \<Rightarrow> 'p controlled_job) list \<Rightarrow> 'p controlled_job" where
  "NewControlledJobInNamepsace zero name namespace opts = apply_options opts
     \<lparr>cjName = name, cjNamespace = namespace, cjUID = [], cjGeneration = 0, cjAnnotations = Map.empty,
      cjSpec = \<lparr>csTimezone = \<lparr>tzName = [], tzOffsetSeconds = 0\<rparr>, csEvents = [], csJobTemplate = NewJobTemplate zero [],
        csStartingDeadlineSeconds = None, csSpecChangePolicy = [], csSuspend = None\<rparr>,
      cjStatus = \<lparr>stActive = [], stLastScheduledStartTime = None, stShouldBeRunning = None, stIsRunning = None,
        stIsSuspended = None, stMostRecentAction = None, stActionHistory = [], stConditions = []\<rparr>\<rparr>"

definition NewControlledJob :: "'p \<Rightarrow> string \<Rightarrow> ('p controlled_job \<Rightarrow> 'p controlled_job) list \<Rightarrow> 'p controlled_job" where
  "NewControlledJob zero name opts = NewControlledJobInNamepsace zero name DefaultNamespace opts"

definition WithControlledJobName :: "string \<Rightarrow> 'p controlled_job \<Rightarrow> 'p controlled_job" where
  "WithControlledJobName name c = c\<lparr>cjName := name\<rparr>"

definition WithUID :: "string \<Rightarrow> 'p controlled_job \<Rightarrow> 'p controlled_job" where
  "WithUID uid c = c\<lparr>cjUID := uid\<rparr>"

definition WithTimezone :: "string \<Rightarrow> 32 word \<Rightarrow> 'p controlled_job \<Rightarrow> 'p controlled_job" where
  "WithTimezone name offsetSeconds c =
     c\<lparr>cjSpec := (cjSpec c)\<lparr>csTimezone := \<lparr>tzName = name, tzOffsetSeconds = offsetSeconds\<rparr>\<rparr>\<rparr>"

definition add_event :: "event_spec \<Rightarrow> 'p controlled_job \<Rightarrow> 'p controlled_job" where
  "add_event e c = c\<lparr>cjSpec := (cjSpec c)\<lparr>csEvents := csEvents (cjSpec c) @ [e]\<rparr>\<rparr>"

definition WithCronEvent :: "EventType \<Rightarrow> string \<Rightarrow> 'p controlled_job \<Rightarrow> 'p controlled_job" where
  "WithCronEvent eventType cronSpec = add_event \<lparr>esAction = eventType, esCronSchedule = cronSpec, esSchedule = None\<rparr>"

definition WithScheduledEvent :: "EventType \<Rightarrow> string \<Rightarrow> string \<Rightarrow> 'p controlled_job \<Rightarrow> 'p controlled_job" where
  "WithScheduledEvent eventType daysOfWeek timeOfDay = add_event
     \<lparr>esAction = eventType, esCronSchedule = [], esSchedule = Some \<lparr>fsTimeOfDay = timeOfDay, fsDaysOfWeek = daysOfWeek\<rparr>\<rparr>"

text \<open>The layouts \<^verbatim>\<open>Mon\<close> and \<^verbatim>\<open>15:04\<close> of \<^verbatim>\<open>time.Format\<close>.\<close>

definition format_Mon :: "gotime \<Rightarrow> string" where
  "format_Mon t = [''Sun'', ''Mon'', ''Tue'', ''Wed'', ''Thu'', ''Fri'', ''Sat''] ! nat (time_weekday t)"

definition format_15_04 :: "gotime \<Rightarrow> string" where
  "format_15_04 t = append_int (time_hour t) 2 @ CHR '':'' # append_int (time_minute t) 2"

definition WithScheduledEventAtTime :: "EventType \<Rightarrow> gotime \<Rightarrow> 'p controlled_job \<Rightarrow> 'p controlled_job" where
  "WithScheduledEventAtTime eventType t = WithScheduledEvent eventType (format_Mon t) (format_15_04 t)"

definition WithScheduledEventAtTimeEveryDay :: "EventType \<Rightarrow> string \<Rightarrow> 'p controlled_job \<Rightarrow> 'p controlled_job" where
  "WithScheduledEventAtTimeEveryDay eventType timeOfDay = WithScheduledEvent eventType ''SUN-SAT'' timeOfDay"

definition WithEventInThePast :: "gotime \<Rightarrow> EventType \<Rightarrow> 'p controlled_job \<Rightarrow> 'p controlled_job" where
  "WithEventInThePast now eventType = WithScheduledEventAtTime eventType (time_add now (- seconds 3600))"

definition WithEventInTheFuture :: "gotime \<Rightarrow> EventType \<Rightarrow> 'p controlled_job \<Rightarrow> 'p controlled_job" where
  "WithEventInTheFuture now eventType = WithScheduledEventAtTime eventType (time_add now (seconds 3600))"

definition WithJobTemplate :: "'p job_template_spec \<Rightarrow> 'p controlled_job \<Rightarrow> 'p controlled_job" where
  "WithJobTemplate jobTemplate c = c\<lparr>cjSpec := (cjSpec c)\<lparr>csJobTemplate := jobTemplate\<rparr>\<rparr>"

definition WithDefaultJobTemplate :: "pod_template controlled_job \<Rightarrow> pod_template controlled_job" where
  "WithDefaultJobTemplate = WithJobTemplate DefaultJobTemplate"

definition WithStartingDeadlineSeconds :: "64 word \<Rightarrow> 'p controlled_job \<Rightarrow> 'p controlled_job" where
  "WithStartingDeadlineSeconds deadline c = c\<lparr>cjSpec := (cjSpec c)\<lparr>csStartingDeadlineSeconds := Some deadline\<rparr>\<rparr>"

definition WithSpecChangePolicy :: "string \<Rightarrow> 'p controlled_job \<Rightarrow> 'p controlled_job" where
  "WithSpecChangePolicy policyType c = c\<lparr>cjSpec := (cjSpec c)\<lparr>csSpecChangePolicy := policyType\<rparr>\<rparr>"

definition WithAnnotation :: "string \<Rightarrow> string \<Rightarrow> 'p controlled_job \<Rightarrow> 'p controlled_job" where
  "WithAnnotation key v c = c\<lparr>cjAnnotations := (cjAnnotations c)(key \<mapsto> v)\<rparr>"

section \<open>Assertions\<close>

text \<open>
  \<^verbatim>\<open>assertions.go\<close>, over the three assertions of testify it uses (on the state \<open>'t\<close> of a test). \<open>marshal\<close> is
  \<^verbatim>\<open>json.MarshalIndent\<close>, whose error is ignored: the text is then empty. The message arguments are
  left out.
\<close>

record 't assertions =
  asEqual :: "string \<Rightarrow> string \<Rightarrow> 't \<Rightarrow> 't"
  asNil :: "go_error option \<Rightarrow> 't \<Rightarrow> 't"
  asNotNil :: "go_error option \<Rightarrow> 't \<Rightarrow> 't"

definition json_text :: "('a \<Rightarrow> string option) \<Rightarrow> 'a option \<Rightarrow> string" where
  "json_text marshal x = (case x of None \<Rightarrow> [] | Some v \<Rightarrow> (case marshal v of Some b \<Rightarrow> b | None \<Rightarrow> []))"

definition AssertDeepEqualJson :: "'t assertions \<Rightarrow> ('a \<Rightarrow> string option) \<Rightarrow> 'a option \<Rightarrow> 'a option \<Rightarrow> 't \<Rightarrow> 't" where
  "AssertDeepEqualJson ts marshal expected actual = asEqual ts (json_text marshal expected) (json_text marshal actual)"

definition AssertSameError :: "'t assertions \<Rightarrow> go_error option \<Rightarrow> go_error option \<Rightarrow> 't \<Rightarrow> 't" where
  "AssertSameError ts expected actual t =
     (case expected of
        None \<Rightarrow> asNil ts actual t
      | Some e \<Rightarrow>
          let t1 = asNotNil ts actual t
          in (case actual of None \<Rightarrow> t1 | Some a \<Rightarrow> asEqual ts (error_message e) (error_message a) t1))"

text \<open>A test that counts failures: the assertion on errors fails, once, unless both are missing or both say the same.\<close>

definition counting :: "nat assertions" where
  "counting = \<lparr>asEqual = (\<lambda>x y n. if x = y then n else n + 1), asNil = (\<lambda>e n. if e = None then n else n + 1),
     asNotNil = (\<lambda>e n. if e = None then n + 1 else n)\<rparr>"

lemma same_error_counts:
  "AssertSameError counting expected actual n =
     (if map_option error_message expected = map_option error_message actual then n else n + 1)"
  by (cases expected; cases actual) (simp_all add: AssertSameError_def counting_def)

text \<open>Values that JSON cannot write pass as equal.\<close>

lemma unwritable_equal: "marshal x = None \<Longrightarrow> marshal y = None \<Longrightarrow> AssertDeepEqualJson counting marshal (Some x) (Some y) n = n"
  by (simp add: AssertDeepEqualJson_def counting_def json_text_def)

section \<open>Fixtures and built jobs\<close>

text \<open>The fixture the tests use for a job of the ControlledJob.\<close>

definition job_fixture :: "'p \<Rightarrow> 'p job_env \<Rightarrow> 'p controlled_job \<Rightarrow> gotime \<Rightarrow> int \<Rightarrow> bool \<Rightarrow> 'p job" where
  "job_fixture zero env c t i susp = NewJobInNamespace zero (JobName (cjName c) t i) (cjNamespace c)
     ([WithControlledJobMetadata (jeHash env) (cjName c) (cjUID c) t i (csJobTemplate (cjSpec c)), WithTemplate (csJobTemplate (cjSpec c))]
      @ (if susp then [IsSuspended True] else []))"

lemmas fixture_defs = job_fixture_def NewJobInNamespace_def apply_options_def WithControlledJobMetadata_def
  WithControlledJobAnnotations_def WithTemplate_def IsSuspended_def

lemma fixture_view:
  assumes "only_owner_references env" "benign_mutators env" "buildJob env c t i False susp = Ok job"
    and "jtAnnotations (csJobTemplate (cjSpec c)) ManualJobAnnotation = None"
    and "jtAnnotations (csJobTemplate (cjSpec c)) SuspendReason = None"
  shows "same_operator_view (job_fixture zero env c t i susp) job"
proof -
  have "same_operator_view (job_fixture zero env c t i susp) (newJobFor env c t i False susp)"
    using annotation_keys_distinct assms(4,5)
    by (auto simp: same_operator_view_def fixture_defs newJobFor_def jobAnnotationsFor_def Let_def)
  then show ?thesis using buildJob_view [OF assms(1-3)] by (rule same_operator_view_trans)
qed

lemma fixture_owner: "jobOwnerIndex (job_fixture zero env c t i susp) = [cjName c]"
  by (simp add: jobOwnerIndex_def GetControllerOf_def fixture_defs Let_def)

text \<open>The event helpers: an event at a time has the expression of that minute and weekday.\<close>

lemma scheduled_event_spec:
  assumes "csEvents (cjSpec c) = []"
  shows "map AsCronSpec (csEvents (cjSpec (WithScheduledEventAtTime ty t c)))
    = [Ok (append_int (time_minute t) 2 @ '' '' @ append_int (time_hour t) 2 @ '' * * '' @ format_Mon t)]"
proof -
  have "0 \<le> time_hour t" "time_hour t < 100" "0 \<le> time_minute t" "time_minute t < 100"
    using hour_bounds [of "local_sec t"] minute_bounds [of "local_sec t"] by (simp_all add: time_hour_def time_minute_def)
  moreover have "nat (time_hour t) div 10 < 10" "nat (time_minute t) div 10 < 10" if "time_hour t < 100" "time_minute t < 100"
    using that by linarith+
  ultimately have clock: "timeOfDayMatches (format_15_04 t) = Some (append_int (time_hour t) 2, append_int (time_minute t) 2)"
    by (simp add: format_15_04_def append_int_2 timeOfDayMatches_def)
  have "0 \<le> time_weekday t" "time_weekday t < 7" by (simp_all add: time_weekday_def l_weekday_def)
  then have "nat (time_weekday t) \<in> {0, 1, 2, 3, 4, 5, 6}" by auto
  then have "format_Mon t \<in> {''Sun'', ''Mon'', ''Tue'', ''Wed'', ''Thu'', ''Fri'', ''Sat''}" by (auto simp: format_Mon_def)
  then have day: "daysOfWeekMatches (format_Mon t)" "format_Mon t \<noteq> []" by (auto simp: daysOfWeekMatches_def is_alpha_def)
  show ?thesis
    using clock day assms by (simp add: WithScheduledEventAtTime_def WithScheduledEvent_def add_event_def AsCronSpec_def format_15_04_def)
qed

section \<open>Properties\<close>

text \<open>
  C34: A decision does not tell a test's fixtures from the jobs the operator builds. Let the test
  list, for each job that \<^verbatim>\<open>buildJob\<close> would build (for some start time and run id, suspended or not,
  not manually scheduled), the fixture of the same start time and run id. If both decisions
  succeed, they delete and unsuspend the jobs at the same positions, and create the same job; and
  the index finds a fixture under the name of its ControlledJob.
\<close>

theorem fixtures_decide_alike:
  assumes "only_owner_references (opJobs env)" "benign_mutators (opJobs env)" "status_blind (opJobs env)"
    and "jtAnnotations (csJobTemplate (cjSpec (cj w))) ManualJobAnnotation = None"
    and "jtAnnotations (csJobTemplate (cjSpec (cj w))) SuspendReason = None"
    and "list_all2 (\<lambda>fixture job. \<exists>t i susp. fixture = job_fixture zero (opJobs env) (cj w) t i susp
        \<and> buildJob (opJobs env) (cj w) t i False susp = Ok job) fixtures jobs"
    and "makeDecision env w fixtures now en = Return d None" "makeDecision env w jobs now en = Return d' None"
  shows "dDelete d' = dDelete d \<and> dUnsuspend d' = dUnsuspend d \<and> dCreate d' = dCreate d
    \<and> jobs_at d' (dCreate d') = jobs_at d (dCreate d) \<and> (\<forall>job \<in> set fixtures. jobOwnerIndex job = [cjName (cj w)])"
proof -
  have alike: "alike fixtures jobs"
    unfolding alike_def by (rule list_all2_mono [OF assms(6)]) (auto intro: fixture_view [OF assms(1,2) _ assms(4,5)])
  have owners: "\<forall>job \<in> set fixtures. jobOwnerIndex job = [cjName (cj w)]"
    using assms(6) fixture_owner by (fastforce simp: list_all2_conv_all_nth in_set_conv_nth)
  obtain st where st: "buildState env (cj w) fixtures now = Ok st"
    using assms(7) by (auto simp: makeDecision_def Let_def split: outcome.splits)
  show ?thesis
  proof (cases "rsIsSuspended st")
    case False
    then show ?thesis using alike_decisions [OF alike assms(7,8) st _ assms(3)] owners by metis
  next
    case True
    have "buildState env (cj w) jobs now = Ok st" using buildState_length [OF alike_length [OF alike]] st by simp
    then show ?thesis
      using assms(7,8) st True owners by (auto simp: makeDecision_def Let_def decideSuspended_def initial_decision_def jobs_at_def)
  qed
qed

end
