(* ===== verification/ToolInstance.thy ===== *)
theory ToolInstance
  imports ConvergenceInstance GenerateJob Fixtures
begin

text \<open>
  The command \<open>generate-job\<close> and the fixtures of the tests, on the ControlledJob of
  \<open>DecisionInstance\<close> at noon.
\<close>

definition plain_cli :: "unit cli_env" where
  "plain_cli = \<lparr>clReadStdin = Ok ''cj'', clUnmarshal = (\<lambda>_. Ok (cj (nine_with None []))), clMarshalIndent = (\<lambda>job. Ok (jobName job))\<rparr>"

definition plain_webhook :: "(unit, unit) webhook_env" where
  "plain_webhook = \<lparr>whUUID = [], whEncodeReview = (\<lambda>_. []), whNewRequest = (\<lambda>_ _. None), whDo = (\<lambda>_ _. Panic),
     whDecodeReview = (\<lambda>_. Panic), whDecodePatch = (\<lambda>_. Panic), whApplyPatch = (\<lambda>_ _. Panic), whUnmarshalInto = (\<lambda>_ _. Panic)\<rparr>"

theorem generate_job_agrees_witness:
  "\<exists>d job json. makeDecision toy_env (nine_with None []) [] noon False = Return d None \<and> jobs_at d (dCreate d) = [job]
     \<and> DoGenerateJob plain_webhook (opJobs toy_env) plain_cli
         \<lparr>cxScheduledAt = parse_rfc3339 (format_rfc3339 nine_oclock), cxJobRunId = 0, cxManuallyScheduled = False,
          cxStartSuspended = True, cxWebhookUrl = []\<rparr> = Ok (json @ [CHR 0x0A])"
proof -
  obtain d st0 where d: "makeDecision toy_env (nine_with None []) [] noon False = Return d None"
    "buildState toy_env (cj (nine_with None [])) [] noon = Ok st0" "\<not> rsIsSuspended st0"
    using noon_decision [of "[]"] by auto
  have "\<exists>st. buildState toy_env (cj (nine_with None [])) [] noon = Ok st \<and> period_view st = noon_period"
    using noon_same_period [unfolded same_period_def, rule_format, of noon "cj (nine_with None [])" "[]"]
    by (simp add: same_object_def)
  then have "period_view st0 = noon_period" using d(2) by simp
  then have "job_request st0 False ([] :: unit job list) = job_request noon_period False ([] :: unit job list)"
    using view_request [of st0 False "[] :: unit job list"] by simp
  also have "\<dots> = Some (nine_oclock, 0, False)"
    by (simp add: job_request_def chosenJob_def currentChoice_def bestCurrent_def noon_period_def shouldRun_def)
  finally have request: "job_request st0 False ([] :: unit job list) = Some (nine_oclock, 0, False)" .
  have "status_blind (opJobs toy_env)" by (simp add: status_blind_def plain_env_def same_but_status_fields)
  moreover have "enableIfSet plain_webhook [] Map.empty = Ok (jeMutators (opJobs toy_env))" by (simp add: enableIfSet_def plain_env_def)
  ultimately show ?thesis
    using generate_job_agrees [OF d, of nine_oclock 0 False plain_webhook "[]" plain_cli "''cj''" "cj (nine_with None [])" 0]
      request d(1) nine_oclock_props by (auto simp: plain_cli_def)
qed

text \<open>The suspended job of nine o'clock and its fixture: both are unsuspended.\<close>

theorem fixtures_decide_alike_witness:
  "\<exists>job d d'. buildJob plain_env (cj (nine_with None [])) nine_oclock 0 False True = Ok job
     \<and> makeDecision toy_env (nine_with None []) [job_fixture () plain_env (cj (nine_with None [])) nine_oclock 0 True] noon False = Return d None
     \<and> makeDecision toy_env (nine_with None []) [job] noon False = Return d' None \<and> dUnsuspend d' = dUnsuspend d"
proof -
  let ?c = "cj (nine_with None [])" let ?fixture = "job_fixture () plain_env ?c nine_oclock 0 True"
  obtain job where job: "buildJob plain_env ?c nine_oclock 0 False True = Ok job"
    using toy_builder by (fastforce simp: builder_works_def)
  have template: "jtAnnotations (csJobTemplate (cjSpec ?c)) key = None" for key by simp
  have "GetScheduledTime (newJobFor plain_env ?c nine_oclock 0 False True)
      = Ok \<lparr>instant = time_sec nine_oclock * nano, locOf = fixed_zone [] 0\<rparr>"
    using newJobFor_read_back(1) [of nine_oclock 0] nine_oclock_props by simp
  then have "\<exists>t. GetScheduledTime job = Ok t" "\<exists>t. GetScheduledTime ?fixture = Ok t"
    using view_readers(1) [OF buildJob_view [OF plain_env_ok job]] view_readers(1) [OF fixture_view [OF plain_env_ok job template template]]
    by metis+
  then obtain d d' where d: "makeDecision toy_env (nine_with None []) [?fixture] noon False = Return d None"
    "makeDecision toy_env (nine_with None []) [job] noon False = Return d' None"
    using nine_succeeds [of "[?fixture]" "[]" False] nine_succeeds [of "[job]" "[]" False] by auto
  have "status_blind (opJobs toy_env)" by (simp add: status_blind_def plain_env_def same_but_status_fields)
  then have "dUnsuspend d' = dUnsuspend d"
    using fixtures_decide_alike [of toy_env "nine_with None []" "()" "[?fixture]" "[job]" noon False d d'] plain_env_ok template job d
    by (simp only: toy_env_fields list.rel_inject) blast
  then show ?thesis using job d by blast
qed

end
