(* ===== verification/Cli.thy ===== *)
theory Cli
  imports GenerateJob
begin

text \<open>
  \<^verbatim>\<open>cli/main.go\<close>: the command tree of the tool and its entry point. The command-line library
  (urfave/cli) is a parameter: \<open>run\<close> runs an app on the arguments of the process, and \<open>dispatches\<close>
  is what it documents. The result of a run is what is printed.
\<close>

section \<open>Apps\<close>

datatype cli_flag =
    TimestampFlag (flagName: string) (flagUsage: string) (flagLayout: string) (flagRequired: bool)
  | IntFlag (flagName: string) (flagUsage: string) (flagRequired: bool)
  | BoolFlag (flagName: string) (flagUsage: string)
  | StringFlag (flagName: string) (flagUsage: string)

type_synonym cli_action = "cli_context \<Rightarrow> string outcome"

datatype cli_command =
  Command (cmdName: string) (cmdUsage: string) (cmdDescription: string) (cmdFlags: "cli_flag list")
    (cmdAction: "cli_action option") (cmdSubcommands: "cli_command list")

record cli_app =
  apName :: string
  apUsage :: string
  apVersion :: string
  apCommands :: "cli_command list"

section \<open>The tool\<close>

definition rfc3339_layout :: string where
  "rfc3339_layout = ''2006-01-02T15:04:05Z07:00''"

definition generateJobFlags :: "cli_flag list" where
  "generateJobFlags =
     [TimestampFlag ''scheduled-at'' ''Timestamp that the Job is scheduled at, in RFC3339 format, e.g. 2022-11-03T11:01:01Z''
        rfc3339_layout True,
      IntFlag ''job-run-id'' ''The Job Run Id is an incrementing index of jobs for a single period (e.g. a single day) of a ControlledJob''
        True,
      BoolFlag ''manually-scheduled''
        ''Is this job manually scheduled (i.e. started by the user via the API) or automatically by the operator?'',
      BoolFlag ''start-suspended'' ''Should the job be started in a suspended state?'',
      StringFlag ''job-admission-webhook-url''
        ''If set, new jobs will be sent to this URL prior to creation. The remote service is expected to behave like a K8s MutatingAdmissionWebhook and return a patch to be applied'']"

definition generateJobCommand :: "cli_action \<Rightarrow> cli_command" where
  "generateJobCommand doGenerateJob =
     Command ''generate-job'' ''generate the manifest for a job for a ControlledJob''
       ''The canonical way to generate the Job manifest for a ControlledJob. Ensures consistency between various tooling. Supply a value for all of the flags, and write a complete ControlledJob manifest in json to stdin''
       generateJobFlags (Some doGenerateJob) []"

definition utilCommand :: "cli_action \<Rightarrow> cli_command" where
  "utilCommand doGenerateJob =
     Command ''util'' ''various helpers related to ControlledJobs'' ''A collection of utility helpers'' [] None
       [generateJobCommand doGenerateJob]"

definition cliApp :: "cli_action \<Rightarrow> cli_app" where
  "cliApp doGenerateJob =
     \<lparr>apName = ''ControlledJob CLI'', apUsage = ''CLI for the ControlledJob custom resource type in Kubernetes'', apVersion = [],
      apCommands = [utilCommand doGenerateJob]\<rparr>"

text \<open>\<open>version\<close> and \<open>gitRevision\<close> are package variables, set by the linker.\<close>

definition cliMain :: "(cli_app \<Rightarrow> string list \<Rightarrow> string outcome) \<Rightarrow> cli_action \<Rightarrow> string \<Rightarrow> string \<Rightarrow> string list \<Rightarrow> string outcome" where
  "cliMain run doGenerateJob version gitRevision args =
     orPanic (run ((cliApp doGenerateJob)\<lparr>apVersion := version @ ''-'' @ gitRevision\<rparr>) args)"

section \<open>What the library documents\<close>

text \<open>The command a path of names leads to.\<close>

fun find_command :: "cli_command list \<Rightarrow> string list \<Rightarrow> cli_command option" where
  "find_command cmds [] = None"
| "find_command cmds (name # path) =
     (case find (\<lambda>c. cmdName c = name) cmds of
        None \<Rightarrow> None
      | Some c \<Rightarrow> if path = [] then Some c else find_command (cmdSubcommands c) path)"

text \<open>
  A command line is the name of the program, a path to a command and its flags. The flags are
  parsed as the command declares them; an error (an unknown flag, a value of the wrong form, a
  required flag that is missing) is the result, else the action's result is.
\<close>

definition dispatches :: "(cli_app \<Rightarrow> string list \<Rightarrow> string outcome) \<Rightarrow> (cli_flag list \<Rightarrow> string list \<Rightarrow> cli_context outcome) \<Rightarrow> bool" where
  "dispatches run parse \<longleftrightarrow>
     (\<forall>app prog path flags c action. find_command (apCommands app) path = Some c \<longrightarrow> cmdAction c = Some action \<longrightarrow>
        run app (prog # path @ flags) = obind (parse (cmdFlags c) flags) action)"

text \<open>The tool prints what \<^verbatim>\<open>DoGenerateJob\<close> prints on the parsed flags, and panics on every error.\<close>

lemma generate_job_line:
  assumes "dispatches run parse"
  shows "cliMain run (DoGenerateJob wh jobs env) version gitRevision (prog # ''util'' # ''generate-job'' # flags)
    = obind (orPanic (parse generateJobFlags flags)) (DoGenerateJob wh jobs env)"
proof -
  let ?app = "(cliApp (DoGenerateJob wh jobs env))\<lparr>apVersion := version @ ''-'' @ gitRevision\<rparr>"
  have "find_command (apCommands ?app) [''util'', ''generate-job''] = Some (generateJobCommand (DoGenerateJob wh jobs env))"
    by (simp add: cliApp_def utilCommand_def generateJobCommand_def)
  moreover have "cmdAction (generateJobCommand (DoGenerateJob wh jobs env)) = Some (DoGenerateJob wh jobs env)"
    "cmdFlags (generateJobCommand (DoGenerateJob wh jobs env)) = generateJobFlags"
    by (simp_all add: generateJobCommand_def)
  ultimately have "run ?app (prog # [''util'', ''generate-job''] @ flags) = obind (parse generateJobFlags flags) (DoGenerateJob wh jobs env)"
    using assms unfolding dispatches_def by metis
  then show ?thesis
    using generate_job_no_error [of wh jobs env]
    by (cases "parse generateJobFlags flags") (auto simp: cliMain_def orPanic_def split: outcome.split)
qed

text \<open>The two flags of which \<^verbatim>\<open>DoGenerateJob\<close> has no use without a value are required.\<close>

lemma required_flags:
  "map flagName (filter (\<lambda>f. \<not> is_BoolFlag f \<and> \<not> is_StringFlag f \<and> flagRequired f) generateJobFlags) = [''scheduled-at'', ''job-run-id'']"
  by (simp add: generateJobFlags_def)

end
