(* ===== verification/Startup.thy ===== *)
theory Startup
  imports GenerateJob Reconcile
begin

text \<open>
  \<^verbatim>\<open>main.go\<close> and \<^verbatim>\<open>SetupWithManager\<close>: how the operator is put together and started. The manager of
  controller-runtime is a parameter, the fields of \<open>platform\<close>, operations on a state \<open>'s\<close> that
  return an error or none. \<open>main_flags\<close> has the values of the flags, which \<open>CommandLine\<close> parses; logging
  is left out.
\<close>

section \<open>The manager\<close>

record manager_options =
  moMetricsBindAddress :: string
  moHealthProbeBindAddress :: string
  moLeaderElection :: bool
  moLeaderElectionID :: string

text \<open>What \<^verbatim>\<open>NewControllerManagedBy\<close> is told: kinds are named.\<close>

record controller_build =
  cbFor :: string
  cbOwns :: string
  cbWatches :: string
  cbMaxConcurrentReconciles :: int

record ('p, 's) platform =
  plGetConfig :: "'s \<Rightarrow> go_error option \<times> 's"
  plNewManager :: "manager_options \<Rightarrow> 's \<Rightarrow> go_error option \<times> 's"
  plIndexField :: "string \<Rightarrow> ('p job \<Rightarrow> string list) \<Rightarrow> 's \<Rightarrow> go_error option \<times> 's"
  plComplete :: "controller_build \<Rightarrow> 's \<Rightarrow> go_error option \<times> 's"
  plAddHealthzCheck :: "string \<Rightarrow> 's \<Rightarrow> go_error option \<times> 's"
  plAddReadyzCheck :: "string \<Rightarrow> 's \<Rightarrow> go_error option \<times> 's"
  plStart :: "'s \<Rightarrow> go_error option \<times> 's"

text \<open>Statements of the form \<^verbatim>\<open>if err := f(); err != nil { return err }\<close> (or exit), in a row.\<close>

fun run_steps :: "('s \<Rightarrow> go_error option \<times> 's) list \<Rightarrow> 's \<Rightarrow> go_error option \<times> 's" where
  "run_steps [] s = (None, s)"
| "run_steps (f # fs) s = (case f s of (Some e, s1) \<Rightarrow> (Some e, s1) | (None, s1) \<Rightarrow> run_steps fs s1)"

section \<open>The scheme\<close>

text \<open>
  \<^verbatim>\<open>api/v1/groupversion_info.go\<close> and \<^verbatim>\<open>pkg/k8s/scheme.go\<close>. The registration of kinds in a scheme is a
  parameter: of the kinds of Kubernetes (\<open>clientgo\<close>), and of a list of kinds under a group and version.
\<close>

record group_version =
  gvGroup :: string
  gvVersion :: string

definition GroupVersion :: group_version where
  "GroupVersion = \<lparr>gvGroup = ''batch.gresearch.co.uk'', gvVersion = ''v1''\<rparr>"

definition registeredKinds :: "string list" where
  "registeredKinds = [''ControlledJob'', ''ControlledJobList'']"

definition AddToScheme :: "(group_version \<Rightarrow> string list \<Rightarrow> 'scheme \<Rightarrow> go_error option \<times> 'scheme) \<Rightarrow> 'scheme \<Rightarrow> go_error option \<times> 'scheme" where
  "AddToScheme register = register GroupVersion registeredKinds"

text \<open>\<^verbatim>\<open>utilruntime.Must\<close> panics on an error.\<close>

definition must :: "go_error option \<times> 'scheme \<Rightarrow> 'scheme outcome" where
  "must r = (case r of (Some e, s) \<Rightarrow> Panic | (None, s) \<Rightarrow> Ok s)"

definition initScheme ::
  "('scheme \<Rightarrow> go_error option \<times> 'scheme) \<Rightarrow> (group_version \<Rightarrow> string list \<Rightarrow> 'scheme \<Rightarrow> go_error option \<times> 'scheme)
   \<Rightarrow> 'scheme \<Rightarrow> 'scheme outcome" where
  "initScheme clientgo register newScheme =
     obind (must (clientgo newScheme)) (\<lambda>s. must (AddToScheme register s))"

text \<open>The API version the reconciler looks for in owner references is the one registered.\<close>

lemma registered_version: "gvGroup GroupVersion @ ''/'' @ gvVersion GroupVersion = ApiGVStr"
  by (simp add: GroupVersion_def ApiGVStr_def group_name_def)

section \<open>\<open>SetupWithManager\<close>\<close>

definition JobOwnerKey :: string where
  "JobOwnerKey = ''.metadata.controller''"

text \<open>The clock is set if it is nil (\<open>None\<close>), and stays set.\<close>

definition SetupWithManager ::
  "('p, 's) platform \<Rightarrow> 'clock \<Rightarrow> int \<Rightarrow> 'clock option \<times> 's \<Rightarrow> go_error option \<times> 'clock option \<times> 's" where
  "SetupWithManager pl realClock maxConcurrentReconciles st =
     (let (clock, s) = st;
          clock1 = (case clock of None \<Rightarrow> Some realClock | Some _ \<Rightarrow> clock);
          (err, s1) = run_steps
            [plIndexField pl JobOwnerKey jobOwnerIndex,
             plComplete pl \<lparr>cbFor = ''ControlledJob'', cbOwns = ''Job'', cbWatches = ''ControlledJob'',
               cbMaxConcurrentReconciles = maxConcurrentReconciles\<rparr>] s
      in (err, clock1, s1))"

section \<open>\<open>main\<close>\<close>

record main_flags =
  mfMetricsAddr :: string
  mfProbeAddr :: string
  mfLeaderElect :: bool
  mfEnableAutoRecreateJobsOnSpecChange :: bool
  mfConcurrency :: int
  mfWebhookUrl :: string

text \<open>The steps before the manager is started.\<close>

definition setup_steps :: "('p, 's) platform \<Rightarrow> 'clock \<Rightarrow> main_flags \<Rightarrow> ('s \<Rightarrow> go_error option \<times> 's) list" where
  "setup_steps pl realClock flags =
     [plGetConfig pl,
      plNewManager pl \<lparr>moMetricsBindAddress = mfMetricsAddr flags, moHealthProbeBindAddress = mfProbeAddr flags,
        moLeaderElection = mfLeaderElect flags, moLeaderElectionID = ''4a7b6ad8.gresearch.co.uk''\<rparr>,
      (\<lambda>s. let (err, _, s1) = SetupWithManager pl realClock (mfConcurrency flags) (None, s) in (err, s1)),
      plAddHealthzCheck pl ''healthz'',
      plAddReadyzCheck pl ''readyz'']"

text \<open>The package variables \<^verbatim>\<open>main\<close> sets: the option of \<^verbatim>\<open>pkg/reconciliation\<close> and the registry of mutators.\<close>

record 'p operator_globals =
  ogEnableAutoRecreate :: bool
  ogMutators :: "'p registry"

datatype main_end = Exit int | Ended

definition main ::
  "('p, 'patch) webhook_env \<Rightarrow> ('p, 's) platform \<Rightarrow> 'clock \<Rightarrow> main_flags \<Rightarrow> 's \<Rightarrow> main_end \<times> 'p operator_globals \<times> 's" where
  "main wh pl realClock flags s =
     (let globals = \<lparr>ogEnableAutoRecreate = mfEnableAutoRecreateJobsOnSpecChange flags, ogMutators = Map.empty\<rparr> in
      case enableIfSet wh (mfWebhookUrl flags) (ogMutators globals) of
        Ok mutators \<Rightarrow>
          (case run_steps (setup_steps pl realClock flags @ [plStart pl]) s of
             (Some e, s1) \<Rightarrow> (Exit 1, globals\<lparr>ogMutators := mutators\<rparr>, s1)
           | (None, s1) \<Rightarrow> (Ended, globals\<lparr>ogMutators := mutators\<rparr>, s1))
      | _ \<Rightarrow> (Exit 1, globals, s))"

section \<open>Lemmas\<close>

lemma run_steps_append:
  "run_steps (fs @ gs) s = (case run_steps fs s of (Some e, s1) \<Rightarrow> (Some e, s1) | (None, s1) \<Rightarrow> run_steps gs s1)"
  by (induction fs arbitrary: s) (auto split: prod.split option.split)

text \<open>The first webhook is always registered: the operator runs with the mutators \<open>generate-job\<close> uses.\<close>

lemma enableIfSet_Ok: "\<exists>mutators. enableIfSet wh url Map.empty = Ok mutators"
  by (cases "url = []") (simp_all add: enableIfSet_def EnableRemoteMutator_def Register_def remoteMutator_def)

lemma main_globals:
  "enableIfSet wh (mfWebhookUrl flags) Map.empty = Ok (ogMutators (fst (snd (main wh pl realClock flags s))))"
  "ogEnableAutoRecreate (fst (snd (main wh pl realClock flags s))) = mfEnableAutoRecreateJobsOnSpecChange flags"
proof -
  obtain mutators where "enableIfSet wh (mfWebhookUrl flags) Map.empty = Ok mutators" using enableIfSet_Ok by metis
  then show "enableIfSet wh (mfWebhookUrl flags) Map.empty = Ok (ogMutators (fst (snd (main wh pl realClock flags s))))"
    "ogEnableAutoRecreate (fst (snd (main wh pl realClock flags s))) = mfEnableAutoRecreateJobsOnSpecChange flags"
    by (simp_all add: main_def Let_def split: prod.split option.split)
qed

text \<open>
  The manager is started after every step has succeeded, never before; an error of any step, or of the
  manager later, ends the process with status 1.
\<close>

lemma main_starts:
  assumes "main wh pl realClock flags s = (r, g, s')"
  shows "case run_steps (setup_steps pl realClock flags) s of
      (Some e, s1) \<Rightarrow> r = Exit 1 \<and> s' = s1
    | (None, s1) \<Rightarrow> s' = snd (plStart pl s1) \<and> (r = Ended \<longleftrightarrow> fst (plStart pl s1) = None)"
proof -
  obtain mutators where "enableIfSet wh (mfWebhookUrl flags) Map.empty = Ok mutators" using enableIfSet_Ok by metis
  then show ?thesis
    using assms by (auto simp: main_def Let_def run_steps_append split: prod.splits option.splits)
qed

text \<open>Jobs are found by the index under the key \<^verbatim>\<open>.metadata.controller\<close> the client lists them by.\<close>

lemma setup_index:
  assumes "SetupWithManager pl realClock n (clock, s) = (None, clock', s')"
  shows "\<exists>s1. plIndexField pl JobOwnerKey jobOwnerIndex s = (None, s1) \<and> clock' \<noteq> None"
  using assms by (auto simp: SetupWithManager_def Let_def split: prod.splits option.splits)

end
