(* ===== verification/CommandLine.thy ===== *)
theory CommandLine
  imports Startup
begin

text \<open>
  The command line of \<^verbatim>\<open>main.go\<close>: the flags it declares and how Go's package \<^verbatim>\<open>flag\<close> parses them
  (\<^verbatim>\<open>flag.CommandLine\<close>, which ends the process on an error: with status 0 after the help text, else
  with status 2). Integers are parsed by \<^verbatim>\<open>strconv.ParseInt\<close> with base 0. Other packages declare
  flags of their own in the same set (zap, controller-runtime); these are a parameter, \<open>extra\<close>: for
  the name of such a flag, whether it is boolean and which values it accepts.
\<close>

section \<open>\<open>strconv.ParseInt(s, 0, 64)\<close>\<close>

definition char_digit :: "char \<Rightarrow> nat option" where
  "char_digit c =
     (let l = of_char (ascii_lower c) :: nat in
      if is_digit c then Some (digit_value c) else if 97 \<le> l \<and> l \<le> 122 then Some (l - 97 + 10) else None)"

text \<open>The base by the prefix, and the rest.\<close>

definition split_base :: "string \<Rightarrow> nat \<times> string" where
  "split_base s =
     (if s = [] \<or> hd s \<noteq> CHR ''0'' then (10, s)
      else if 3 \<le> length s \<and> ascii_lower (s ! 1) = CHR ''b'' then (2, drop 2 s)
      else if 3 \<le> length s \<and> ascii_lower (s ! 1) = CHR ''o'' then (8, drop 2 s)
      else if 3 \<le> length s \<and> ascii_lower (s ! 1) = CHR ''x'' then (16, drop 2 s)
      else (8, tl s))"

text \<open>Underscores are skipped here and checked by \<open>underscore_ok\<close>; \<open>None\<close> is a syntax error.\<close>

fun digits_value :: "nat \<Rightarrow> string \<Rightarrow> nat \<Rightarrow> nat option" where
  "digits_value base [] n = Some n"
| "digits_value base (c # s) n =
     (if c = CHR ''_'' then digits_value base s n
      else case char_digit c of
        None \<Rightarrow> None
      | Some d \<Rightarrow> if base \<le> d then None else digits_value base s (n * base + d))"

text \<open>An underscore stands between digits, the prefix of the base counting as one; \<open>saw\<close> is the last character seen.\<close>

fun underscores :: "bool \<Rightarrow> char \<Rightarrow> string \<Rightarrow> bool" where
  "underscores hex saw [] = (saw \<noteq> CHR ''_'')"
| "underscores hex saw (c # s) =
     (if is_digit c \<or> hex \<and> ascii_lower c \<in> set ''abcdef'' then underscores hex (CHR ''0'') s
      else if c = CHR ''_'' then (if saw \<noteq> CHR ''0'' then False else underscores hex (CHR ''_'') s)
      else if saw = CHR ''_'' then False
      else underscores hex (CHR ''!'') s)"

definition underscore_ok :: "string \<Rightarrow> bool" where
  "underscore_ok s0 =
     (let s = (if s0 \<noteq> [] \<and> hd s0 \<in> set ''+-'' then tl s0 else s0) in
      if 2 \<le> length s \<and> hd s = CHR ''0'' \<and> ascii_lower (s ! 1) \<in> set ''box''
      then underscores (ascii_lower (s ! 1) = CHR ''x'') (CHR ''0'') (drop 2 s)
      else underscores False (CHR ''^'') s)"

definition parse_uint :: "string \<Rightarrow> nat option" where
  "parse_uint s =
     (if s = [] then None
      else let (base, digits) = split_base s in
        (case digits_value base digits 0 of
           None \<Rightarrow> None
         | Some n \<Rightarrow>
             if 2 ^ 64 \<le> n then None
             else if CHR ''_'' \<in> set digits \<and> \<not> underscore_ok s then None
             else Some n))"

definition parse_int :: "string \<Rightarrow> int option" where
  "parse_int s =
     (if s = [] then None
      else let (neg, digits) = (if hd s = CHR ''-'' then (True, tl s) else if hd s = CHR ''+'' then (False, tl s) else (False, s)) in
        (case parse_uint digits of
           None \<Rightarrow> None
         | Some n \<Rightarrow>
             if \<not> neg \<and> 2 ^ 63 \<le> n \<or> neg \<and> 2 ^ 63 < n then None
             else Some (if neg then - int n else int n)))"

section \<open>Package \<open>flag\<close>\<close>

text \<open>The kind of a flag is that of its value.\<close>

datatype flag_value = FString string | FBool bool | FInt int

primrec set_flag :: "flag_value \<Rightarrow> string \<Rightarrow> flag_value option" where
  "set_flag (FString old) s = Some (FString s)"
| "set_flag (FBool old) s = map_option FBool (parse_bool s)"
| "set_flag (FInt old) s = map_option FInt (parse_int s)"

primrec is_bool_flag :: "flag_value \<Rightarrow> bool" where
  "is_bool_flag (FString s) = False"
| "is_bool_flag (FBool b) = True"
| "is_bool_flag (FInt i) = False"

type_synonym flag_set = "string \<rightharpoonup> flag_value"

type_synonym extra_flags = "string \<rightharpoonup> (bool \<times> (string \<Rightarrow> bool))"

text \<open>What \<^verbatim>\<open>Set\<close> makes of the values, if it succeeds.\<close>

definition assign_flag :: "extra_flags \<Rightarrow> flag_set \<Rightarrow> string \<Rightarrow> string \<Rightarrow> flag_set option" where
  "assign_flag extra flags name s =
     (case flags name of
        Some v \<Rightarrow> map_option (\<lambda>v'. flags(name \<mapsto> v')) (set_flag v s)
      | None \<Rightarrow> (case extra name of Some (b, accepts) \<Rightarrow> if accepts s then Some flags else None | None \<Rightarrow> None))"

definition flag_is_bool :: "extra_flags \<Rightarrow> flag_set \<Rightarrow> string \<Rightarrow> bool option" where
  "flag_is_bool extra flags name =
     (case flags name of Some v \<Rightarrow> Some (is_bool_flag v) | None \<Rightarrow> map_option fst (extra name))"

text \<open>A name and, after the first equals sign that is not its first character, a value.\<close>

fun split_equals :: "string \<Rightarrow> string \<times> string option" where
  "split_equals [] = ([], None)"
| "split_equals [c] = ([c], None)"
| "split_equals (c # d # s) =
     (if d = CHR ''='' then ([c], Some s)
      else let (name, v) = split_equals (d # s) in (c # name, v))"

datatype parsed = Parsed flag_set "string list" | ShowHelp | BadUsage

text \<open>
  The name part of an argument that is a flag: not an argument of less than two characters or
  without a minus sign, and not the terminator.
\<close>

datatype argument = NoFlag | Terminator | Named string

definition classify :: "string \<Rightarrow> argument" where
  "classify s =
     (if length s < 2 \<or> hd s \<noteq> CHR ''-'' then NoFlag
      else if s ! 1 = CHR ''-'' then (if length s = 2 then Terminator else Named (drop 2 s))
      else Named (tl s))"

fun parse_flags :: "extra_flags \<Rightarrow> flag_set \<Rightarrow> string list \<Rightarrow> parsed" where
  "parse_flags extra flags [] = Parsed flags []"
| "parse_flags extra flags (s # args) =
     (case classify s of
        NoFlag \<Rightarrow> Parsed flags (s # args)
      | Terminator \<Rightarrow> Parsed flags args
      | Named text \<Rightarrow>
          if text = [] \<or> hd text \<in> set ''-='' then BadUsage
          else let (name, v) = split_equals text in
            (case flag_is_bool extra flags name of
               None \<Rightarrow> if name = ''help'' \<or> name = ''h'' then ShowHelp else BadUsage
             | Some True \<Rightarrow>
                 (case assign_flag extra flags name (case v of Some x \<Rightarrow> x | None \<Rightarrow> ''true'') of
                    None \<Rightarrow> BadUsage | Some flags' \<Rightarrow> parse_flags extra flags' args)
             | Some False \<Rightarrow>
                 (case v of
                    Some x \<Rightarrow>
                      (case assign_flag extra flags name x of
                         None \<Rightarrow> BadUsage | Some flags' \<Rightarrow> parse_flags extra flags' args)
                  | None \<Rightarrow>
                      (case args of
                         [] \<Rightarrow> BadUsage
                       | x # rest \<Rightarrow>
                           (case assign_flag extra flags name x of
                              None \<Rightarrow> BadUsage | Some flags' \<Rightarrow> parse_flags extra flags' rest)))))"

section \<open>The flags of the operator\<close>

definition declared_flags :: flag_set where
  "declared_flags =
     [''metrics-bind-address'' \<mapsto> FString '':8080'', ''health-probe-bind-address'' \<mapsto> FString '':8081'',
      ''leader-elect'' \<mapsto> FBool False, ''enable-auto-recreate-jobs-on-spec-change'' \<mapsto> FBool False,
      ''concurrency'' \<mapsto> FInt 1, ''job-admission-webhook-url'' \<mapsto> FString []]"

text \<open>The variables \<^verbatim>\<open>main\<close> bound the flags to.\<close>

definition string_flag :: "flag_set \<Rightarrow> string \<Rightarrow> string" where
  "string_flag flags name = (case flags name of Some (FString s) \<Rightarrow> s | _ \<Rightarrow> [])"

definition bool_flag :: "flag_set \<Rightarrow> string \<Rightarrow> bool" where
  "bool_flag flags name = (case flags name of Some (FBool b) \<Rightarrow> b | _ \<Rightarrow> False)"

definition int_flag :: "flag_set \<Rightarrow> string \<Rightarrow> int" where
  "int_flag flags name = (case flags name of Some (FInt i) \<Rightarrow> i | _ \<Rightarrow> 0)"

definition bound_flags :: "flag_set \<Rightarrow> main_flags" where
  "bound_flags flags =
     \<lparr>mfMetricsAddr = string_flag flags ''metrics-bind-address'',
      mfProbeAddr = string_flag flags ''health-probe-bind-address'',
      mfLeaderElect = bool_flag flags ''leader-elect'',
      mfEnableAutoRecreateJobsOnSpecChange = bool_flag flags ''enable-auto-recreate-jobs-on-spec-change'',
      mfConcurrency = int_flag flags ''concurrency'',
      mfWebhookUrl = string_flag flags ''job-admission-webhook-url''\<rparr>"

text \<open>\<^verbatim>\<open>main\<close> on the arguments of the process (its name left out); what is left after the flags is ignored.\<close>

definition main_line ::
  "('p, 'patch) webhook_env \<Rightarrow> ('p, 's) platform \<Rightarrow> 'clock \<Rightarrow> extra_flags \<Rightarrow> string list \<Rightarrow> 's
   \<Rightarrow> main_end \<times> 'p operator_globals option \<times> 's" where
  "main_line wh pl realClock extra args s =
     (case parse_flags extra declared_flags args of
        ShowHelp \<Rightarrow> (Exit 0, None, s)
      | BadUsage \<Rightarrow> (Exit 2, None, s)
      | Parsed flags rest \<Rightarrow>
          (let (r, globals, s') = main wh pl realClock (bound_flags flags) s in (r, Some globals, s')))"

section \<open>What is written is read\<close>

lemma is_digit_lower: "is_digit c \<Longrightarrow> char_digit c = Some (digit_value c)"
  by (simp add: char_digit_def)

lemma digits_value_digits:
  "list_all is_digit s \<Longrightarrow> digits_value 10 s n = Some (foldl (\<lambda>n c. n * 10 + digit_value c) n s)"
proof (induction s arbitrary: n)
  case (Cons c s)
  then have "c \<noteq> CHR ''_''" "digit_value c < 10" by (auto simp: is_digit_def digit_value_def)
  then show ?case using Cons by (simp add: is_digit_lower)
qed simp

lemma hd_digits_of: "0 < n \<Longrightarrow> hd (digits_of n) \<noteq> CHR ''0''"
proof (induction n rule: digits_of.induct)
  case (1 n)
  show ?case
  proof (cases "n < 10")
    case True
    then have "digit n \<noteq> digit 0" using 1(2) digit_props(2) [OF True] digit_props(2) [of 0] by (metis less_irrefl zero_less_numeral)
    then show ?thesis using True by (simp add: digits_of_small zero_digit)
  next
    case False
    then have "hd (digits_of (n div 10)) \<noteq> CHR ''0''" using 1 by (simp add: div_greater_zero_iff)
    then show ?thesis using False digits_of [of "n div 10"] by (subst digits_of.simps) simp
  qed
qed

lemma digits_no_underscore: "list_all is_digit s \<Longrightarrow> CHR ''_'' \<notin> set s"
  by (auto simp: list_all_iff is_digit_def)

lemma parse_uint_digits:
  assumes "n < 2 ^ 64"
  shows "parse_uint (digits_of n) = Some n"
proof (cases "n = 0")
  case True
  then show ?thesis by (simp add: digits_of_small zero_digit [symmetric] parse_uint_def split_base_def)
next
  case False
  then have base: "split_base (digits_of n) = (10, digits_of n)" using hd_digits_of [of n] by (simp add: split_base_def)
  have "digits_value 10 (digits_of n) 0 = Some n"
    using digits_of [of n] digits_value_digits [of "digits_of n" 0] by (simp add: value_of_def)
  then show ?thesis
    using assms digits_of [of n] digits_no_underscore [of "digits_of n"] by (simp add: parse_uint_def base)
qed

lemma parse_int_itoa:
  assumes "- (2 ^ 63) \<le> i" "i < 2 ^ 63"
  shows "parse_int (itoa i) = Some i"
proof (cases "i < 0")
  case True
  then have "parse_uint (digits_of (nat (- i))) = Some (nat (- i))" using assms by (intro parse_uint_digits) simp
  then show ?thesis using True assms by (simp add: itoa_def parse_int_def)
next
  case False
  obtain c r where ds: "digits_of (nat i) = c # r" "is_digit c"
    using digits_of [of "nat i"] by (cases "digits_of (nat i)") auto
  have "parse_uint (digits_of (nat i)) = Some (nat i)" using assms by (intro parse_uint_digits) simp
  then show ?thesis using False assms ds is_digit_not_sign [OF ds(2)] by (simp add: itoa_def parse_int_def)
qed

lemma split_equals_append: "name \<noteq> [] \<Longrightarrow> CHR ''='' \<notin> set (tl name) \<Longrightarrow> split_equals (name @ CHR ''='' # v) = (name, Some v)"
proof (induction name)
  case (Cons c name)
  show ?case
  proof (cases name)
    case Nil
    then show ?thesis by simp
  next
    case (Cons d ds)
    then show ?thesis using Cons.IH Cons.prems by (auto simp: tl_def)
  qed
qed simp

text \<open>A command line with a value for every flag.\<close>

definition flag_text :: "string \<Rightarrow> string \<Rightarrow> string" where
  "flag_text name v = CHR ''-'' # name @ CHR ''='' # v"

definition bool_text :: "bool \<Rightarrow> string" where
  "bool_text b = (if b then ''true'' else ''false'')"

definition write_flags :: "main_flags \<Rightarrow> string list" where
  "write_flags f =
     [flag_text ''metrics-bind-address'' (mfMetricsAddr f), flag_text ''health-probe-bind-address'' (mfProbeAddr f),
      flag_text ''leader-elect'' (bool_text (mfLeaderElect f)),
      flag_text ''enable-auto-recreate-jobs-on-spec-change'' (bool_text (mfEnableAutoRecreateJobsOnSpecChange f)),
      flag_text ''concurrency'' (itoa (mfConcurrency f)), flag_text ''job-admission-webhook-url'' (mfWebhookUrl f)]"

lemma parse_flag_text:
  assumes "name \<noteq> []" "hd name \<notin> set ''-=''" "CHR ''='' \<notin> set (tl name)" "flag_is_bool extra flags name \<noteq> None"
  shows "parse_flags extra flags (flag_text name v # args) =
    (case assign_flag extra flags name v of None \<Rightarrow> BadUsage | Some flags' \<Rightarrow> parse_flags extra flags' args)"
proof -
  have "classify (flag_text name v) = Named (name @ CHR ''='' # v)"
    using assms(1,2) by (cases name) (simp_all add: classify_def flag_text_def)
  moreover obtain b where "flag_is_bool extra flags name = Some b" using assms(4) by blast
  moreover have "hd (name @ CHR ''='' # v) \<notin> set ''-=''" using assms(1,2) by simp
  ultimately show ?thesis
    using split_equals_append [OF assms(1,3), of v] assms(1) by (cases b) simp_all
qed

lemma parse_bool_text [simp]: "parse_bool (bool_text b) = Some b"
  by (simp add: parse_bool_def bool_text_def)

section \<open>The operator runs with what it is told\<close>

text \<open>
  What is given on the command line is what the operator runs with: a line with a value for
  every flag, the concurrency a 64-bit integer in decimal, is parsed to exactly these values,
  whatever other packages declare; and without flags the operator runs with the defaults.
\<close>

theorem flags_roundtrip:
  assumes "- (2 ^ 63) \<le> mfConcurrency f" "mfConcurrency f < 2 ^ 63"
  shows "main_line wh pl realClock extra (write_flags f) s
    = (let (r, globals, s') = main wh pl realClock f s in (r, Some globals, s'))"
proof -
  have "\<exists>flags. parse_flags extra declared_flags (write_flags f) = Parsed flags [] \<and> bound_flags flags = f"
    by (simp add: write_flags_def declared_flags_def parse_flag_text flag_is_bool_def assign_flag_def parse_int_itoa [OF assms]
        bound_flags_def string_flag_def bool_flag_def int_flag_def del: parse_flags.simps(2))
  then show ?thesis by (auto simp: main_line_def)
qed

lemma flags_default:
  "main_line wh pl realClock extra [] s =
     (let (r, globals, s') = main wh pl realClock
        \<lparr>mfMetricsAddr = '':8080'', mfProbeAddr = '':8081'', mfLeaderElect = False, mfEnableAutoRecreateJobsOnSpecChange = False,
         mfConcurrency = 1, mfWebhookUrl = []\<rparr> s in (r, Some globals, s'))"
  by (simp add: main_line_def declared_flags_def bound_flags_def string_flag_def bool_flag_def int_flag_def)

text \<open>A line that is refused starts nothing.\<close>

lemma refused_line:
  "main_line wh pl realClock extra args s = (r, None, s') \<Longrightarrow> r \<in> {Exit 0, Exit 2} \<and> s' = s"
  by (auto simp: main_line_def split: parsed.splits prod.splits)

end
