(* ===== verification/Logging.thy ===== *)
theory Logging
  imports ReconcileCorrect
begin

text \<open>
  What is attached to log messages: \<^verbatim>\<open>AddToLog\<close> of a decision and of the state, and \<^verbatim>\<open>jobsForLog\<close>. A
  logger is the list of its key-value pairs, in the order they were added; what is done with
  them is left to the logging library.
\<close>

datatype log_value = LogNames "string list" | LogTime gotime | LogTimePtr "gotime option" | LogBoolPtr "bool option" | LogInt int

type_synonym logger = "(string \<times> log_value) list"

definition WithValues :: "string \<Rightarrow> log_value \<Rightarrow> logger \<Rightarrow> logger" where
  "WithValues key v log = log @ [(key, v)]"

definition decisionAddToLog :: "'p decision_state \<Rightarrow> logger \<Rightarrow> logger" where
  "decisionAddToLog d log =
     (let jobsToCreate = map (\<lambda>a. jobName (dStore d ! a)) (dCreate d);
          jobsToDelete = map (\<lambda>a. jobName (dStore d ! a)) (dDelete d)
      in WithValues ''requeueAt'' (LogTime (dRequeueAt d))
        (WithValues ''jobsToDelete'' (LogNames jobsToDelete)
        (WithValues ''jobsToCreate'' (LogNames jobsToCreate) log)))"

definition stateAddToLog :: "rec_state \<Rightarrow> logger \<Rightarrow> logger" where
  "stateAddToLog st log =
     WithValues ''jobsCount'' (LogInt (int (length (rsAllJobs st))))
       (WithValues ''nextEvent'' (LogTimePtr (rsNextEventTime st))
       (WithValues ''startOfCurrentRunPeriod'' (LogTimePtr (rsStartOfCurrentRunPeriod st))
       (WithValues ''shouldBeRunning'' (LogBoolPtr (rsShouldBeRunning st)) log)))"

definition jobsForLog :: "(gotime \<rightharpoonup> 'p job list) \<Rightarrow> (gotime \<rightharpoonup> string list)" where
  "jobsForLog jobsByPeriod = (\<lambda>key. map_option (map jobName) (jobsByPeriod key))"

text \<open>The names logged with a decision are those of the jobs it deletes and creates, in the order of the calls.\<close>

lemma logged_decision:
  "decisionAddToLog d log = log @
     [(''jobsToCreate'', LogNames (map jobName (jobs_at d (dCreate d)))), (''jobsToDelete'', LogNames (map jobName (jobs_at d (dDelete d)))),
      (''requeueAt'', LogTime (dRequeueAt d))]"
  by (simp add: decisionAddToLog_def WithValues_def jobs_at_def)

end
