(* ===== verification/Metrics.thy ===== *)
theory Metrics
  imports GoText ApiTypes
begin

text \<open>
  \<^verbatim>\<open>pkg/metrics\<close>: the gauge \<^verbatim>\<open>controlledjob_info\<close> and the watcher that keeps it. A gauge vector of
  Prometheus is a map from label values to a value: \<^verbatim>\<open>WithLabelValues(...).Set(1)\<close> is an update,
  \<^verbatim>\<open>DeleteLabelValues\<close> a removal.
\<close>

type_synonym gauge_vec = "string list \<rightharpoonup> int"

definition ControlledJobInfoLabelValuesFor :: "'p controlled_job \<Rightarrow> string list" where
  "ControlledJobInfoLabelValuesFor c =
     (let tz = csTimezone (cjSpec c);
          timezoneDesc = tzName tz @ ''+'' @ itoa (sint (tzOffsetSeconds tz))
      in [cjNamespace c, cjName c, timezoneDesc])"

definition watcherCreate :: "'p controlled_job \<Rightarrow> gauge_vec \<Rightarrow> gauge_vec" where
  "watcherCreate c g = g(ControlledJobInfoLabelValuesFor c \<mapsto> 1)"

definition watcherDelete :: "'p controlled_job \<Rightarrow> gauge_vec \<Rightarrow> gauge_vec" where
  "watcherDelete c g = g(ControlledJobInfoLabelValuesFor c := None)"

definition watcherGeneric :: "'p controlled_job \<Rightarrow> gauge_vec \<Rightarrow> gauge_vec" where
  "watcherGeneric c g = g"

definition watcherUpdate :: "'p controlled_job \<Rightarrow> 'p controlled_job \<Rightarrow> gauge_vec \<Rightarrow> gauge_vec" where
  "watcherUpdate cjOld cjNew g =
     (let oldLabelValues = ControlledJobInfoLabelValuesFor cjOld;
          newLabelValues = ControlledJobInfoLabelValuesFor cjNew
      in if oldLabelValues \<noteq> newLabelValues then g(oldLabelValues := None, newLabelValues \<mapsto> 1) else g)"

section \<open>The objects that are watched\<close>

text \<open>
  The ControlledJobs of a cluster by namespace and name, and the notifications of the API: a
  create for an object that is new, an update from the last notified version to a new one of
  the same name, a delete with the last version.
\<close>

type_synonym 'p objects = "string \<times> string \<rightharpoonup> 'p controlled_job"

definition object_key :: "'p controlled_job \<Rightarrow> string \<times> string" where
  "object_key c = (cjNamespace c, cjName c)"

inductive watch_step :: "'p objects \<times> gauge_vec \<Rightarrow> 'p objects \<times> gauge_vec \<Rightarrow> bool" where
  create: "objs (object_key c) = None \<Longrightarrow> watch_step (objs, g) (objs(object_key c \<mapsto> c), watcherCreate c g)"
| update: "objs (object_key c') = Some c \<Longrightarrow>
    watch_step (objs, g) (objs(object_key c' \<mapsto> c'), watcherUpdate c c' g)"
| delete: "objs (object_key c) = Some c \<Longrightarrow> watch_step (objs, g) (objs(object_key c := None), watcherDelete c g)"
| generic: "objs (object_key c) = Some c \<Longrightarrow> watch_step (objs, g) (objs, watcherGeneric c g)"

inductive watched :: "'p objects \<times> gauge_vec \<Rightarrow> bool" where
  start: "watched (Map.empty, Map.empty)"
| step: "watched s \<Longrightarrow> watch_step s s' \<Longrightarrow> watched s'"

inductive_cases watch_stepE: "watch_step s s'"

text \<open>The gauge that the objects call for: one series per object, with value 1.\<close>

definition gauge_of :: "'p objects \<Rightarrow> gauge_vec" where
  "gauge_of objs l = (case l of
      [ns, n, tz] \<Rightarrow> (case objs (ns, n) of
          None \<Rightarrow> None
        | Some c \<Rightarrow> if ControlledJobInfoLabelValuesFor c = l then Some 1 else None)
    | _ \<Rightarrow> None)"

definition well_keyed :: "'p objects \<Rightarrow> bool" where
  "well_keyed objs \<longleftrightarrow> (\<forall>k c. objs k = Some c \<longrightarrow> object_key c = k)"

lemma labels_key: "ControlledJobInfoLabelValuesFor c = [ns, n, tz] \<Longrightarrow> object_key c = (ns, n)"
  by (auto simp: ControlledJobInfoLabelValuesFor_def object_key_def Let_def)

lemma labels_shape: "\<exists>tz. ControlledJobInfoLabelValuesFor c = [cjNamespace c, cjName c, tz]"
  by (simp add: ControlledJobInfoLabelValuesFor_def Let_def)

lemma gauge_of_upd:
  "gauge_of (objs(object_key c \<mapsto> c)) l =
     (if l = ControlledJobInfoLabelValuesFor c then Some 1
      else if \<exists>tz. l = [cjNamespace c, cjName c, tz] then None else gauge_of objs l)"
  using labels_shape [of c] by (auto simp: gauge_of_def object_key_def split: list.split option.split)

lemma gauge_of_del:
  "gauge_of (objs(object_key c := None)) l =
     (if \<exists>tz. l = [cjNamespace c, cjName c, tz] then None else gauge_of objs l)"
  by (auto simp: gauge_of_def object_key_def split: list.split option.split)

lemma gauge_of_same_name:
  "gauge_of objs [cjNamespace c, cjName c, tz] =
     (case objs (object_key c) of None \<Rightarrow> None
      | Some c' \<Rightarrow> if ControlledJobInfoLabelValuesFor c' = [cjNamespace c, cjName c, tz] then Some 1 else None)"
  by (simp add: gauge_of_def object_key_def)

lemma watch_step_gauge:
  assumes "watch_step (objs, g) (objs', g')" "g = gauge_of objs" "well_keyed objs"
  shows "g' = gauge_of objs' \<and> well_keyed objs'"
  using assms(1)
proof cases
  case (create c)
  obtain tz where tz: "ControlledJobInfoLabelValuesFor c = [cjNamespace c, cjName c, tz]" using labels_shape by blast
  have "g' l = gauge_of objs' l" for l
    using create assms(2) gauge_of_same_name [of objs c]
    by (auto simp: watcherCreate_def gauge_of_upd)
  moreover have "well_keyed objs'" using create assms(3) by (auto simp: well_keyed_def)
  ultimately show ?thesis by (auto simp: fun_eq_iff)
next
  case (update c' c)
  have key: "object_key c = object_key c'" using update(3) assms(3) unfolding well_keyed_def by blast
  then have names: "cjNamespace c = cjNamespace c'" "cjName c = cjName c'" by (simp_all add: object_key_def)
  obtain tz where tz: "ControlledJobInfoLabelValuesFor c = [cjNamespace c', cjName c', tz]"
    using labels_shape [of c] names by auto
  obtain tz' where tz': "ControlledJobInfoLabelValuesFor c' = [cjNamespace c', cjName c', tz']"
    using labels_shape by blast
  have old: "gauge_of objs [cjNamespace c', cjName c', u] = (if tz = u then Some 1 else None)" for u
    using gauge_of_same_name [of objs c' u] update(3) by (simp add: tz)
  have "g' l = gauge_of objs' l" for l
    unfolding update(1,2) assms(2) watcherUpdate_def Let_def gauge_of_upd tz tz'
    by (auto simp: old)
  moreover have "well_keyed objs'" using update assms(3) by (auto simp: well_keyed_def)
  ultimately show ?thesis by (auto simp: fun_eq_iff)
next
  case (delete c)
  have "g' l = gauge_of objs' l" for l
    using delete assms(2) gauge_of_same_name [of objs c] labels_shape [of c]
    by (auto simp: watcherDelete_def gauge_of_del)
  moreover have "well_keyed objs'" using delete assms(3) by (auto simp: well_keyed_def)
  ultimately show ?thesis by (auto simp: fun_eq_iff)
next
  case (generic c)
  then show ?thesis using assms by (simp add: watcherGeneric_def)
qed

section \<open>Properties\<close>

text \<open>
  C28: The info metric mirrors the cluster: after any sequence of notifications that starts with no
  objects, there is exactly one series for every ControlledJob, with its current labels and the
  value 1, and no other series; a time zone that is changed leaves no old series behind.
\<close>

theorem metrics_mirror:
  assumes "watched (objs, g)"
  shows "g = gauge_of objs \<and> (\<forall>ns n c. objs (ns, n) = Some c \<longrightarrow> g (ControlledJobInfoLabelValuesFor c) = Some 1)
    \<and> (\<forall>l. g l \<noteq> None \<longrightarrow> (\<exists>k c. objs k = Some c \<and> l = ControlledJobInfoLabelValuesFor c))"
proof -
  have inv: "g = gauge_of objs \<and> well_keyed objs" if "watched s" "s = (objs, g)" for s objs g
    using that
  proof (induction arbitrary: objs g)
    case start
    then show ?case by (auto simp: gauge_of_def well_keyed_def fun_eq_iff split: list.split)
  next
    case (step s s')
    then show ?case using watch_step_gauge by (metis prod.collapse)
  qed
  then have g: "g = gauge_of objs" "well_keyed objs" using assms by blast+
  have "g (ControlledJobInfoLabelValuesFor c) = Some 1" if "objs (ns, n) = Some c" for ns n c
  proof -
    have "object_key c = (ns, n)" using g(2) that by (simp add: well_keyed_def)
    then show ?thesis
      using gauge_of_same_name [of objs c] labels_shape [of c] that by (auto simp: g(1))
  qed
  moreover have "\<exists>k c. objs k = Some c \<and> l = ControlledJobInfoLabelValuesFor c" if "g l \<noteq> None" for l
  proof -
    note l = that
    obtain k c where "objs k = Some c" "ControlledJobInfoLabelValuesFor c = l"
      using l unfolding g(1) gauge_of_def by (auto split: list.splits option.splits if_splits)
    then show ?thesis by metis
  qed
  ultimately show ?thesis using g(1) by blast
qed

theorem metrics_mirror_witness:
  "watched ([(''ns'', ''cj'') \<mapsto> blank_cj], watcherCreate blank_cj Map.empty)
   \<and> watcherCreate blank_cj Map.empty (ControlledJobInfoLabelValuesFor blank_cj) = Some 1"
proof -
  have k: "object_key blank_cj = (''ns'', ''cj'')" by (simp add: object_key_def blank_cj_def)
  have "watched (Map.empty(object_key blank_cj \<mapsto> blank_cj), watcherCreate blank_cj Map.empty)"
    by (rule watched.step [OF watched.start watch_step.create]) simp
  then have w: "watched ([(''ns'', ''cj'') \<mapsto> blank_cj], watcherCreate blank_cj Map.empty)" by (simp add: k)
  then show ?thesis using metrics_mirror [OF w] by auto
qed

end
