(* ===== verification/Spec2Isabelle.thy ===== *)
theory Spec2Isabelle
  imports NineToFive FleetInstance DeepCopyCorrect ToolInstance Cli CommandLine Logging Metrics RemoteMutator
begin

text \<open>
  A model of the ControlledJob operator, a Kubernetes operator that runs a Job between the start
  and stop times of a schedule, and proofs of what it does.

  \<^bold>\<open>The program.\<close> A ControlledJob (\<^verbatim>\<open>api/v1\<close>) has a list of start and stop events as cron
  expressions, a time zone, a job template and a status. On every change of it or of one of its
  jobs, and at the next event of its schedule, the controller (\<^verbatim>\<open>controllers\<close>) calls
  \<^verbatim>\<open>Reconcile\<close> (\<^verbatim>\<open>pkg/reconciliation\<close>), which reads the ControlledJob and its jobs through
  \<^verbatim>\<open>pkg/clientadapter\<close>, works out the schedule's state now (\<^verbatim>\<open>pkg/schedule\<close>), decides which jobs
  to create, delete and unsuspend (\<^verbatim>\<open>makeDecision\<close>, which builds jobs with \<^verbatim>\<open>pkg/job\<close>,
  \<^verbatim>\<open>pkg/metadata\<close> and \<^verbatim>\<open>pkg/mutators\<close>), carries the decision out, records what it did
  (\<^verbatim>\<open>pkg/events\<close>) and writes the status. \<^verbatim>\<open>pkg/metrics\<close> watches the ControlledJobs.

  \<^bold>\<open>Theories.\<close>

  \<^item> \<open>Prelude\<close>: Go errors (\<open>go_error\<close>), outcomes of a call that returns, fails, panics or hangs
    (\<open>outcome\<close>, with \<open>obind\<close> and the collection \<open>outcome_eqs\<close>), and the locale \<open>tail_loop\<close> of loops
    that may not end.
  \<^item> \<open>Calendar\<close>, \<open>GoTime\<close>: the proleptic Gregorian calendar and Go's \<^verbatim>\<open>time\<close> as far as it is used,
    with time zones as lists of transitions and durations as 64-bit words.
  \<^item> \<open>CronPrev\<close>, \<open>CronCorrect\<close>: \<^verbatim>\<open>cron_prev.go\<close>, the backward search with its labels and loops, and
    what it finds: the latest activation within five years in every zone of fixed offset and
    wherever the offset is constant, and that it never returns at some transitions.
  \<^item> \<open>ApiTypes\<close>: \<^verbatim>\<open>controlledjob_types.go\<close> and \<^verbatim>\<open>helpers.go\<close>, the resource as records, \<^verbatim>\<open>AsCronSpec\<close>,
    and the condition list. A ControlledJob under reconciliation is a \<open>cjw\<close>: the object and the
    number of clock readings made so far.
  \<^item> \<open>NearestEvent\<close>, \<open>ScheduleState\<close>: \<^verbatim>\<open>nearest_event.go\<close>, \<^verbatim>\<open>util.go\<close>, \<^verbatim>\<open>state.go\<close>. The loops are
    related to \<open>pick\<close>, the first best candidate, in the locale \<open>nearest_choice\<close>, which is
    interpreted for the events (\<open>nearest\<close>) and for the candidate jobs of a decision (\<open>best\<close>).
  \<^item> \<open>GoText\<close>, \<open>Metadata\<close>, \<open>JobBuilder\<close>, \<open>RemoteMutator\<close>: \<^verbatim>\<open>strconv\<close> and RFC 3339 text,
    \<^verbatim>\<open>pkg/metadata\<close>, \<^verbatim>\<open>pkg/job\<close> and \<^verbatim>\<open>pkg/mutators\<close>: what is written on a job is read back.
  \<^item> \<open>Decision\<close>: \<^verbatim>\<open>pkg/reconciliation/state.go\<close> and \<^verbatim>\<open>decision.go\<close>, one definition per step, in
    the order of the code. Job pointers are indices into a store of jobs.
    \<open>DecisionCorrect\<close>: \<open>decided\<close>, which describes every decision that succeeds.
    \<open>DecisionProps\<close>, \<open>DecisionBehaviour\<close>: the properties. \<open>NineToFive\<close>, \<open>DecisionInstance\<close>: a
    schedule from 09:00 to 17:00 on which all hypotheses are discharged at noon.
  \<^item> \<open>Events\<close>, \<open>Reconcile\<close>, \<open>ClientAdapter\<close>: the action history and event handler, a whole run with
    its deferred calls over an abstract client, and the client over controller-runtime's.
    \<open>ReconcileCorrect\<close>: the calls of a run in order (\<open>traced\<close>), what is saved (\<open>saves\<close>), errors and
    requeues. \<open>ReconcileInstance\<close>: concrete runs.
  \<^item> \<open>Cluster\<close>: the operator and the API server as a transition system (\<open>cluster_step\<close>), and the
    main safety theorem \<open>at_most_one_runs\<close>. \<open>RunRefinement\<close>: a run of \<^verbatim>\<open>Reconcile\<close> makes the planned
    calls of its decision in order (\<open>carries_out\<close>) and changes nothing else, and so implements its
    steps. The locale \<open>store_client\<close> and its extension \<open>cluster_client\<close> are the contract between the
    reconciler and its client, \<open>api_store\<close> the laws of the Kubernetes API under the adapter, which
    give the contract (a sublocale).
  \<^item> \<open>Choice\<close>: a decision as a function of the listed jobs, without indices and loops, and what
    follows from it (\<open>decision_reference\<close>, \<open>decision_order_independent\<close>). \<open>Convergence\<close>: whole runs,
    one after another, over an API that answers (\<open>responsive_api\<close>, an extension of \<open>api_store\<close>).
    \<open>StatusTypes\<close>: the conditions a run writes against the schema of the custom resource, in the
    locale \<open>status_law\<close> of what every write of a condition keeps. \<open>ConvergenceInstance\<close>: concrete
    runs for these and for the mocks.
  \<^item> \<open>Mocks\<close>: the generated mocks of the client, the event recorder and its handler.
    \<open>RunMorphism\<close>: a map of client states that commutes with every call commutes with a run
    (\<open>run_morphism\<close>). \<open>MockRuns\<close>: what a test reads of a mock is what the run has called.
  \<^item> \<open>Heap\<close>, \<open>DeepCopy\<close>, \<open>DeepCopyCorrect\<close>: \<^verbatim>\<open>zz_generated.deepcopy.go\<close> over a heap of typed cells,
    with the locale \<open>copier\<close> of a copy that shares nothing with its original.
  \<^item> \<open>JobView\<close>: jobs that carry the same annotations of the operator are treated alike.
    \<open>Fixtures\<close>: \<^verbatim>\<open>pkg/testhelpers\<close>. \<open>GenerateJob\<close>, \<open>Startup\<close>: the command \<^verbatim>\<open>generate-job\<close>, \<^verbatim>\<open>main.go\<close> and
    \<^verbatim>\<open>SetupWithManager\<close>. \<open>ToolInstance\<close>: concrete jobs for them.
  \<^item> \<open>Fleet\<close>: many ControlledJobs over one store of jobs, with the calls of their runs interleaved, and
    the contract \<open>fleet_client\<close> of a client that all runs share. \<open>FleetInstance\<close>: two of them on a
    server in memory. \<open>LaggingList\<close>: a run whose list of jobs is out of date.
  \<^item> \<open>CommandLine\<close>, \<open>Cli\<close>: the flags of \<^verbatim>\<open>main.go\<close> as Go's package \<^verbatim>\<open>flag\<close> parses them, and the command
    tree of \<^verbatim>\<open>cli/main.go\<close>. \<open>Logging\<close>: the values attached to log messages.
  \<^item> \<open>Metrics\<close>: \<^verbatim>\<open>pkg/metrics\<close>, as a transition system of watch notifications.

  \<^bold>\<open>What the lemmas show.\<close> The schedule lemmas lead from the bits of a cron schedule to the times
  a run period starts and ends (\<open>StateFor_correct\<close>), under the hypothesis \<open>schedule_exact\<close> that the
  searches find adjacent activations; \<open>cronPrev_fixed_zone\<close> proves this of the backward search, the
  forward search belongs to the cron library. The decision lemmas lead from the loops over the
  jobs to the lists of a decision, and then to a reference definition on the jobs themselves
  (\<open>decision_reference\<close>). The lemmas on runs show which calls are made, in which order
  and where a run stops, and that every condition it writes is of its declared type
  (\<open>run_writes_typed\<close>). \<open>at_most_one_runs\<close> puts decisions and calls together;
  \<open>reconcile_refines\<close> says exactly which calls a run of \<^verbatim>\<open>Reconcile\<close> makes and that the jobs change by
  these only, which makes a run a sequence of steps, and \<open>operator_at_most_one\<close> is the result for
  any sequence of runs. \<open>fleet_refines\<close> shows that the runs of
  other ControlledJobs, interleaved call by call, are to each ControlledJob only changes from outside, so
  that \<open>fleet_at_most_one\<close> holds of all of them; \<open>reconcile_in_fleet\<close> says what a run of the code
  does there, which makes it steps of this system (\<open>run_in_fleet\<close>). Lists may lag behind in the safety
  theorems, as long as they do not hide a job that may run (\<open>lists_runners\<close>). Nothing in the program or
  the documentation of its client ensures this; \<open>lagging_list_two_run\<close> is the run that goes
  wrong without it. The other direction is
  \<open>operator_converges\<close>: if the calls succeed, two runs within a run period lead from any jobs the
  operator may have made to a settled state (one chosen job, which runs unless it has completed or
  was stopped by the user, and else only completed ones; the chosen one is up to date if it runs and
  automatic recreation is on), and later runs change nothing.
  The code around the operator is tied to it: \<open>generate_job_agrees\<close> (the command prints the job
  the operator would create), \<open>fixtures_decide_alike\<close> (a decision treats a fixture as it
  treats a job of the operator), \<open>mock_observes_run\<close> (the call lists of a mock are the trace of the
  run), \<open>DeepCopy_independent\<close> (what is written to a copy is not seen in the original), \<open>main_starts\<close>
  (the manager starts only after every step of the start-up has succeeded).

  \<^bold>\<open>Loops and bounds.\<close> No fuel is used: every loop of the program is structural recursion over a
  list, but for \<^verbatim>\<open>cronPrev\<close>, which is a \<open>partial_function\<close> whose value \<open>None\<close> is a search that
  never ends. Durations, run ids, deadlines and offsets have the program's widths and wrap
  around; instants are unbounded integers (Go's range is never left). Histories hold 16 entries.

  \<^bold>\<open>Parameters.\<close> The cron parser and its forward search, the tz database, SHA-256 of JSON,
  \<^verbatim>\<open>SetControllerReference\<close>, the registered mutators and the order Go visits them in, the object
  reference of a job, controller-runtime's client and manager, the Kubernetes event recorder, HTTP,
  JSON and JSON patches, urfave/cli and testify, the deep copies of third-party types, the readings of the clock.
  Hypotheses on them are named definitions (\<open>schedule_exact\<close>, \<open>only_owner_references\<close>,
  \<open>benign_mutators\<close>, \<open>builder_works\<close>, \<open>api_documented\<close>, \<open>no_panics\<close>, \<open>status_blind\<close>, \<open>collects\<close>,
  \<open>owners_documented\<close>, \<open>store_documented\<close>, \<open>lists_runners\<close>, \<open>dispatches\<close>) or the laws of the locales \<open>api_store\<close>,
  \<open>responsive_api\<close>, \<open>fleet_client\<close> and \<open>copier\<close>.

  \<^bold>\<open>Not modelled.\<close> The messages of the log and the options of the logger; the registration of the gauge (a
  call into a library, with constants for arguments); the text of usage messages of package
  \<^verbatim>\<open>flag\<close>; contexts and the locks of the mocks; the seeding of random names in tests; struct tags;
  the parts of a job template the operator never reads (a type parameter). The schema of a
  condition is checked but for the length of messages that quote an error. In \<open>Fleet\<close> a decision
  is one step (it reads the list once and calls nothing); a run that is under way when its
  ControlledJob is deleted is as any other.
\<close>

end
